theory Spec2Isabelle
  imports Main "HOL-Library.AList"
begin

section \<open>JavaScript values, objects and the heap\<close>

text \<open>
  The two source files are JavaScript. Values are dynamically typed, so the model has one
  type of values. Documents (parsed JSON) and object literals are immutable in the code
  under study and are plain values (\<open>JArr\<close>, \<open>JObj\<close>); live objects that the code
  mutates in place (scopes, circuit elements, nodes, the arrays a scope holds) live in a
  heap and are named by references (\<open>ORef\<close>, \<open>ARef\<close>). Numbers are integers: every
  number the code computes here is one. \<open>Builtin k\<close> is the member \<open>k\<close> that every
  plain object inherits from \<open>Object.prototype\<close> (a function, or the prototype itself
  for \<open>__proto__\<close>): it is what \<open>o[k]\<close> reads when \<open>o\<close> has no own property \<open>k\<close>.
\<close>

datatype jsval =
    JUndefined
  | JNull
  | JBool bool
  | JNum int
  | JStr string
  | JArr "jsval list"
  | JObj "(string \<times> jsval) list"
  | ORef nat
  | ARef nat
  | Builtin string

type_synonym jsobj = "(string \<times> jsval) list"

text \<open>Truthiness, as \<open>if (v)\<close>, \<open>!v\<close> and \<open>a || b\<close> read it.\<close>

fun truthy :: "jsval \<Rightarrow> bool" where
  "truthy JUndefined = False"
| "truthy JNull = False"
| "truthy (JBool b) = b"
| "truthy (JNum n) = (n \<noteq> 0)"
| "truthy (JStr s) = (s \<noteq> [])"
| "truthy (JArr xs) = True"
| "truthy (JObj ps) = True"
| "truthy (ORef r) = True"
| "truthy (ARef a) = True"
| "truthy (Builtin k) = True"

definition jsOr :: "jsval \<Rightarrow> jsval \<Rightarrow> jsval" where
  "jsOr a b = (if truthy a then a else b)"

text \<open>
  The names every plain object inherits from \<open>Object.prototype\<close>. A property read
  \<open>o[k]\<close> returns the own property when there is one and the inherited member otherwise;
  \<open>Object.prototype.hasOwnProperty.call(o, k)\<close>, \<open>Object.keys(o)\<close> and
  \<open>for (k in o)\<close> see own properties only. An object is its list of own properties in
  insertion order.
\<close>

definition objectPrototype :: "string list" where
  "objectPrototype =
     [''constructor'', ''hasOwnProperty'', ''isPrototypeOf'', ''propertyIsEnumerable'',
      ''toLocaleString'', ''toString'', ''valueOf'', ''__proto__'',
      ''__defineGetter__'', ''__defineSetter__'', ''__lookupGetter__'', ''__lookupSetter__'']"

definition hasOwn :: "jsobj \<Rightarrow> string \<Rightarrow> bool" where
  "hasOwn ps k = (map_of ps k \<noteq> None)"

definition objGet :: "jsobj \<Rightarrow> string \<Rightarrow> jsval" where
  "objGet ps k =
     (case map_of ps k of
        Some v \<Rightarrow> v
      | None \<Rightarrow> if List.member objectPrototype k then Builtin k else JUndefined)"

definition objSet :: "jsobj \<Rightarrow> string \<Rightarrow> jsval \<Rightarrow> jsobj" where
  "objSet ps k v = AList.update k v ps"

text \<open>Decimal numerals, for the property names of array indices.\<close>

definition digit :: "nat \<Rightarrow> char" where
  "digit n = ''0123456789'' ! (n mod 10)"

fun decimal :: "nat \<Rightarrow> string" where
  "decimal n = (if n < 10 then [digit n] else decimal (n div 10) @ [digit (n mod 10)])"

declare decimal.simps [simp del]

text \<open>
  The order in which \<open>Object.keys(o)\<close> and \<open>for (k in o)\<close> go through the own
  properties: first the names that are array indices (the decimal numeral, without leading
  zeros, of a number below \<open>2^32 - 1\<close>) in ascending order, then the other names in
  insertion order. \<open>arrayIndex k\<close> is the number that the name \<open>k\<close> is the index of.
\<close>

definition arrayIndex :: "string \<Rightarrow> int option" where
  "arrayIndex k =
     (if k \<noteq> [] \<and> list_all (\<lambda>c. List.member ''0123456789'' c) k \<and>
         (k = ''0'' \<or> hd k \<noteq> CHR ''0'')
      then (let n = foldl (\<lambda>a c. 10 * a + (of_char c - 48)) 0 k
            in if n < 4294967295 then Some n else None)
      else None)"

definition objKeys :: "jsobj \<Rightarrow> string list" where
  "objKeys ps =
     (let ks = rev (remdups (rev (map fst ps)))
      in sort_key (\<lambda>k. the (arrayIndex k)) (filter (\<lambda>k. arrayIndex k \<noteq> None) ks) @
         filter (\<lambda>k. arrayIndex k = None) ks)"

definition indexed :: "jsval list \<Rightarrow> jsobj" where
  "indexed xs = map (\<lambda>i. (decimal i, xs ! i)) [0 ..< length xs]"

subsection \<open>The heap and the monad of heap computations\<close>

text \<open>
  \<open>objs\<close> holds the property lists of the live objects and \<open>arrs\<close> the elements of the
  live arrays; a reference is an index. \<open>idCounter\<close> counts the calls of
  \<open>generateId\<close>, \<open>globalScope\<close> is the global variable of that name. A computation either throws or returns a value and a heap.
  \<open>BadReference\<close> is a reference outside the heap; JavaScript cannot produce one.
\<close>

record heap =
  objs :: "jsobj list"
  arrs :: "jsval list list"
  idCounter :: nat
  globalScope :: jsval

datatype error = TypeError | BadReference | Thrown string

type_synonym 'a comp = "heap \<Rightarrow> error + ('a \<times> heap)"

definition ret :: "'a \<Rightarrow> 'a comp" where
  "ret v h = Inr (v, h)"

definition throw :: "error \<Rightarrow> 'a comp" where
  "throw e h = Inl e"

definition andThen :: "'a comp \<Rightarrow> ('a \<Rightarrow> 'b comp) \<Rightarrow> 'b comp" where
  "andThen m f h = (case m h of Inl e \<Rightarrow> Inl e | Inr (v, h') \<Rightarrow> f v h')"

text \<open>\<open>forEach m xs\<close> runs \<open>m\<close> on the elements of a list in order, as a \<open>for\<close> loop
  over a document's array does.\<close>

fun forEach :: "('a \<Rightarrow> unit comp) \<Rightarrow> 'a list \<Rightarrow> unit comp" where
  "forEach m [] = ret ()"
| "forEach m (v # vs) = andThen (m v) (\<lambda>_. forEach m vs)"

definition newObj :: "jsobj \<Rightarrow> nat comp" where
  "newObj ps h = Inr (length (objs h), h\<lparr>objs := objs h @ [ps]\<rparr>)"

definition newArr :: "jsval list \<Rightarrow> nat comp" where
  "newArr xs h = Inr (length (arrs h), h\<lparr>arrs := arrs h @ [xs]\<rparr>)"

definition readObj :: "nat \<Rightarrow> jsobj comp" where
  "readObj r h = (if r < length (objs h) then Inr (objs h ! r, h) else Inl BadReference)"

definition readArr :: "nat \<Rightarrow> (jsval list) comp" where
  "readArr a h = (if a < length (arrs h) then Inr (arrs h ! a, h) else Inl BadReference)"

definition writeArr :: "nat \<Rightarrow> jsval list \<Rightarrow> unit comp" where
  "writeArr a xs h =
     (if a < length (arrs h) then Inr ((), h\<lparr>arrs := (arrs h)[a := xs]\<rparr>) else Inl BadReference)"

text \<open>
  \<open>v.k\<close>: reading a property of \<open>undefined\<close> or \<open>null\<close> throws a TypeError. Of an array
  only \<open>length\<close> is read this way (elements are read with \<open>elemAt\<close>); the members that
  numbers, strings and booleans inherit from their wrappers are not modelled and read as
  \<open>undefined\<close>, which is what every name the code reads from such a value gives.
\<close>

definition getProp :: "jsval \<Rightarrow> string \<Rightarrow> jsval comp" where
  "getProp v k =
     (case v of
        JUndefined \<Rightarrow> throw TypeError
      | JNull \<Rightarrow> throw TypeError
      | ORef r \<Rightarrow> andThen (readObj r) (\<lambda>ps. ret (objGet ps k))
      | JObj ps \<Rightarrow> ret (objGet ps k)
      | ARef a \<Rightarrow> andThen (readArr a)
          (\<lambda>xs. ret (if k = ''length'' then JNum (int (length xs)) else JUndefined))
      | JArr xs \<Rightarrow> ret (if k = ''length'' then JNum (int (length xs)) else JUndefined)
      | _ \<Rightarrow> ret JUndefined)"

text \<open>\<open>obj.k = v\<close> on a live object.\<close>

definition setProp :: "nat \<Rightarrow> string \<Rightarrow> jsval \<Rightarrow> unit comp" where
  "setProp r k v h =
     (if r < length (objs h)
      then Inr ((), h\<lparr>objs := (objs h)[r := objSet (objs h ! r) k v]\<rparr>)
      else Inl BadReference)"

text \<open>The elements of an array value; anything else is not an array.\<close>

definition arrayOf :: "jsval \<Rightarrow> (jsval list) comp" where
  "arrayOf v =
     (case v of
        ARef a \<Rightarrow> readArr a
      | JArr xs \<Rightarrow> ret xs
      | _ \<Rightarrow> throw TypeError)"

text \<open>\<open>xs[i]\<close> on a list of elements: \<open>undefined\<close> past the end.\<close>

definition elemAt :: "jsval list \<Rightarrow> nat \<Rightarrow> jsval" where
  "elemAt xs i = (if i < length xs then xs ! i else JUndefined)"

text \<open>\<open>xs[i] = v\<close>: JavaScript extends the array, leaving holes that read as
  \<open>undefined\<close>.\<close>

definition elemSet :: "jsval list \<Rightarrow> nat \<Rightarrow> jsval \<Rightarrow> jsval list" where
  "elemSet xs i v =
     (if i < length xs then xs[i := v]
      else xs @ replicate (i - length xs) JUndefined @ [v])"

text \<open>The own enumerable properties \<open>{...v}\<close> copies.\<close>

definition spreadProps :: "jsval \<Rightarrow> jsobj comp" where
  "spreadProps v =
     (case v of
        ORef r \<Rightarrow> readObj r
      | JObj ps \<Rightarrow> ret ps
      | ARef a \<Rightarrow> andThen (readArr a) (\<lambda>xs. ret (indexed xs))
      | JArr xs \<Rightarrow> ret (indexed xs)
      | JStr s \<Rightarrow> ret (indexed (map (\<lambda>c. JStr [c]) s))
      | _ \<Rightarrow> ret [])"

section \<open>The documents and the collaborators of the loader\<close>

text \<open>
  An element record of a saved circuit (\<open>ElementDoc\<close>). The scalar fields are values
  as the document has them, \<open>JUndefined\<close> when the field is absent; the type tag is a
  string. \<open>customData\<close> may be absent; inside it, \<open>None\<close> is an absent (or falsy)
  member, \<open>cd_values\<close> is \<open>customData.values\<close> and \<open>cd_nodes\<close> is
  \<open>customData.nodes\<close>.
\<close>

record customData =
  cd_constructorParamaters :: "jsval list option"
  cd_values :: "jsobj option"
  cd_nodes :: "jsobj option"

record elementDoc =
  e_objectType :: string
  e_x :: jsval
  e_y :: jsval
  e_label :: jsval
  e_labelDirection :: jsval
  e_propagationDelay :: jsval
  e_customData :: "customData option"
  e_subcircuitMetadata :: jsval

text \<open>
  A scope document (\<open>ScopeDoc\<close>): \<open>s_records t\<close> is \<open>data[t]\<close> for a module type
  \<open>t\<close>, \<open>None\<close> when the document has no records of that type.
\<close>

record scopeDoc =
  s_id :: jsval
  s_name :: jsval
  s_allNodes :: "jsval list"
  s_records :: "string \<Rightarrow> elementDoc list option"
  s_restrictedCircuitElementsUsed :: jsval
  s_verilogMetadata :: jsval
  s_testbenchData :: jsval
  s_layout :: jsval

text \<open>
  What the loader imports from modules that are not part of the excerpt, and the globals
  it reads. They are parameters of the model: \<open>modules\<close> is the registry of element
  constructors (a constructor gets \<open>x\<close>, \<open>y\<close>, the scope and the extra parameters and
  returns the new element), \<open>fixDirection\<close> and \<open>oppositeDirection\<close> are the two
  direction tables, \<open>elemFixDirection\<close> is the element's own method
  \<open>obj.fixDirection()\<close>, \<open>updateData\<close> is a wire's method, \<open>generateId n\<close> is the
  identifier that the \<open>n\<close>-th call of \<open>generateId()\<close> returns, \<open>newCircuit\<close> is
  the scope factory. \<open>call f args\<close> stands for a call \<open>f(args)\<close> of an imported
  function of the user interface, the simulation engine or the backup scheduler whose
  result the loader does not use.
\<close>

record env =
  moduleList :: "string list"
  modules :: "jsval \<Rightarrow> (jsval \<Rightarrow> jsval \<Rightarrow> nat \<Rightarrow> jsval list \<Rightarrow> nat comp) option"
  fixDirection :: "jsval \<Rightarrow> jsval"
  oppositeDirection :: "jsval \<Rightarrow> jsval"
  elemFixDirection :: "nat \<Rightarrow> unit comp"
  replace :: "jsval \<Rightarrow> jsval \<Rightarrow> jsval comp"
  loadNode :: "jsval \<Rightarrow> nat \<Rightarrow> unit comp"
  constructNodeConnections :: "jsval \<Rightarrow> jsval \<Rightarrow> unit comp"
  loadSubCircuit :: "elementDoc \<Rightarrow> nat \<Rightarrow> unit comp"
  updateData :: "jsval \<Rightarrow> nat \<Rightarrow> unit comp"
  TestbenchData :: "jsval \<Rightarrow> jsval \<Rightarrow> jsval \<Rightarrow> jsval"
  generateId :: "nat \<Rightarrow> string"
  newCircuit :: "jsval \<Rightarrow> jsval \<Rightarrow> jsval \<Rightarrow> jsval \<Rightarrow> nat comp"
  call :: "string \<Rightarrow> jsval list \<Rightarrow> unit comp"
  embed :: bool
  projectName :: jsval

section \<open>The module instantiator: \<open>rectifyObjectType\<close> and \<open>loadModule\<close>\<close>

text \<open>
  \<open>rectify[obj] || obj\<close>, where \<open>rectify\<close> is the object literal
  \<open>{ FlipFlop: 'DflipFlop', Ram: 'Rom' }\<close>. The literal is a plain object, so the read
  \<open>rectify[obj]\<close> also finds what it inherits.
\<close>

definition rectify :: jsobj where
  "rectify = [(''FlipFlop'', JStr ''DflipFlop''), (''Ram'', JStr ''Rom'')]"

definition rectifyObjectType :: "string \<Rightarrow> jsval" where
  "rectifyObjectType obj = jsOr (objGet rectify obj) (JStr obj)"

text \<open>
  \<open>new modules[rectifyObjectType(data.objectType)](data.x, data.y, scope,
  ...data.customData.constructorParamaters || [])\<close>. Reading a member of an absent
  \<open>customData\<close> and constructing with a tag the registry does not know both throw a
  TypeError.
\<close>

definition construct :: "env \<Rightarrow> elementDoc \<Rightarrow> nat \<Rightarrow> nat comp" where
  "construct env data scope =
     (case e_customData data of
        None \<Rightarrow> throw TypeError
      | Some cd \<Rightarrow>
          (case modules env (rectifyObjectType (e_objectType data)) of
             None \<Rightarrow> throw TypeError
           | Some ctor \<Rightarrow>
               ctor (e_x data) (e_y data) scope
                 (case cd_constructorParamaters cd of None \<Rightarrow> [] | Some ps \<Rightarrow> ps)))"

text \<open>
  \<open>obj.label = data.label;
  obj.labelDirection = data.labelDirection || oppositeDirection[fixDirection[obj.direction]];\<close>
\<close>

definition setDirections :: "env \<Rightarrow> elementDoc \<Rightarrow> nat \<Rightarrow> unit comp" where
  "setDirections env data obj =
     andThen (setProp obj ''label'' (e_label data)) (\<lambda>_.
     andThen (getProp (ORef obj) ''direction'') (\<lambda>dir.
       setProp obj ''labelDirection''
         (jsOr (e_labelDirection data) (oppositeDirection env (fixDirection env dir)))))"

text \<open>
  \<open>if (data.propagationDelay === 0) obj.propagationDelay = 0;
  else obj.propagationDelay = data.propagationDelay || obj.propagationDelay;\<close>
\<close>

definition setDelay :: "elementDoc \<Rightarrow> nat \<Rightarrow> unit comp" where
  "setDelay data obj =
     (if e_propagationDelay data = JNum 0 then setProp obj ''propagationDelay'' (JNum 0)
      else andThen (getProp (ORef obj) ''propagationDelay'') (\<lambda>cur.
             setProp obj ''propagationDelay'' (jsOr (e_propagationDelay data) cur)))"

text \<open>
  Restore other values: every own property of \<open>customData.values\<close> is assigned to the
  element under the same name.
\<close>

definition restoreValues :: "customData \<Rightarrow> nat \<Rightarrow> unit comp" where
  "restoreValues cd obj =
     (case cd_values cd of
        None \<Rightarrow> ret ()
      | Some vs \<Rightarrow>
          forEach (\<lambda>prop. if hasOwn vs prop then setProp obj prop (objGet vs prop) else ret ())
            (objKeys vs))"

text \<open>
  \<open>target[i]\<close> and \<open>target[i] = v\<close> for the value \<open>target\<close> that \<open>obj[node]\<close>
  holds. The file is an ES module and runs in strict mode: assigning to a member of a
  number, string or boolean throws. A plain array or object that the element holds by
  value is updated in the element's property.
\<close>

definition indexRead :: "jsval \<Rightarrow> nat \<Rightarrow> jsval comp" where
  "indexRead target i =
     (case target of
        JUndefined \<Rightarrow> throw TypeError
      | JNull \<Rightarrow> throw TypeError
      | ARef a \<Rightarrow> andThen (readArr a) (\<lambda>xs. ret (elemAt xs i))
      | JArr xs \<Rightarrow> ret (elemAt xs i)
      | JStr s \<Rightarrow> ret (if i < length s then JStr [s ! i] else JUndefined)
      | _ \<Rightarrow> getProp target (decimal i))"

definition indexWrite :: "nat \<Rightarrow> string \<Rightarrow> jsval \<Rightarrow> nat \<Rightarrow> jsval \<Rightarrow> unit comp" where
  "indexWrite obj node target i v =
     (case target of
        ARef a \<Rightarrow> andThen (readArr a) (\<lambda>xs. writeArr a (elemSet xs i v))
      | ORef r \<Rightarrow> setProp r (decimal i) v
      | JArr xs \<Rightarrow> setProp obj node (JArr (elemSet xs i v))
      | JObj ps \<Rightarrow> setProp obj node (JObj (objSet ps (decimal i) v))
      | _ \<Rightarrow> throw TypeError)"

text \<open>
  Replace new nodes with the correct old nodes: for an own property \<open>node\<close> of
  \<open>customData.nodes\<close> with value \<open>n\<close>, either
  \<open>obj[node][i] = replace(obj[node][i], n[i])\<close> for every index of the array \<open>n\<close>, or
  \<open>obj[node] = replace(obj[node], n)\<close>.
\<close>

definition replaceNode :: "env \<Rightarrow> jsobj \<Rightarrow> nat \<Rightarrow> string \<Rightarrow> unit comp" where
  "replaceNode env ns obj node =
     (if hasOwn ns node then
        (case objGet ns node of
           JArr n \<Rightarrow>
             forEach (\<lambda>i.
               andThen (getProp (ORef obj) node) (\<lambda>target.
               andThen (indexRead target i) (\<lambda>old.
               andThen (replace env old (n ! i)) (\<lambda>new.
                 indexWrite obj node target i new))))
               [0 ..< length n]
         | n \<Rightarrow>
             andThen (getProp (ORef obj) node) (\<lambda>old.
             andThen (replace env old n) (\<lambda>new.
               setProp obj node new)))
      else ret ())"

definition replaceNodes :: "env \<Rightarrow> customData \<Rightarrow> nat \<Rightarrow> unit comp" where
  "replaceNodes env cd obj =
     (case cd_nodes cd of
        None \<Rightarrow> ret ()
      | Some ns \<Rightarrow> forEach (replaceNode env ns obj) (objKeys ns))"

text \<open>\<open>if (data.subcircuitMetadata) obj.subcircuitMetadata = data.subcircuitMetadata;\<close>\<close>

definition attachMetadata :: "elementDoc \<Rightarrow> nat \<Rightarrow> unit comp" where
  "attachMetadata data obj =
     (if truthy (e_subcircuitMetadata data)
      then setProp obj ''subcircuitMetadata'' (e_subcircuitMetadata data)
      else ret ())"

text \<open>
  \<open>loadModule(data, scope)\<close>: the statements of the function in their order.
  \<open>restoreElement\<close> is what follows the two assignments (from \<open>obj.fixDirection()\<close> on).
\<close>

definition restoreElement :: "env \<Rightarrow> elementDoc \<Rightarrow> nat \<Rightarrow> unit comp" where
  "restoreElement env data obj =
     andThen (elemFixDirection env obj) (\<lambda>_.
     (case e_customData data of
        None \<Rightarrow> throw TypeError
      | Some cd \<Rightarrow>
          andThen (restoreValues cd obj) (\<lambda>_.
          andThen (replaceNodes env cd obj) (\<lambda>_.
            attachMetadata data obj))))"

definition loadModule :: "env \<Rightarrow> elementDoc \<Rightarrow> nat \<Rightarrow> unit comp" where
  "loadModule env data scope =
     andThen (construct env data scope) (\<lambda>obj.
     andThen (setDirections env data obj) (\<lambda>_.
     andThen (setDelay data obj) (\<lambda>_.
       restoreElement env data obj)))"

section \<open>The cleanup pass \<open>removeBugNodes\<close>\<close>

text \<open>
  Modelled from the spec: the method \<open>delete()\<close> of a node (module \<open>node\<close> is not part
  of the excerpt). The spec says that the node is deleted from the scope's node list, so the
  list loses that node and keeps the others in their order. The cascades that the spec
  mentions are not modelled.
\<close>

definition nodeDelete :: "jsval \<Rightarrow> jsval list \<Rightarrow> jsval list" where
  "nodeDelete node ns = filter (\<lambda>n. n \<noteq> node) ns"

text \<open>
  \<open>scope.allNodes[i].type !== 2 && scope.allNodes[i].parent.objectType === 'CircuitElement'\<close>;
  the right operand is read only when the left one holds.
\<close>

definition isBugNode :: "jsval \<Rightarrow> bool comp" where
  "isBugNode node =
     andThen (getProp node ''type'') (\<lambda>t.
       if t \<noteq> JNum 2
       then andThen (getProp node ''parent'') (\<lambda>p.
            andThen (getProp p ''objectType'') (\<lambda>ot.
              ret (ot = JStr ''CircuitElement'')))
       else ret False)"

text \<open>
  The loop \<open>for (let i = 0; i < x; i++)\<close> with its two statements. \<open>ns\<close> is the
  content of \<open>scope.allNodes\<close>; nothing but that array changes during the loop, so the
  heap \<open>h\<close> that the test reads stays the same. When the length has changed the body sets
  \<open>i = 0\<close> and \<open>x\<close> to the new length, and then the loop's own \<open>i++\<close> runs: the next
  index examined is \<open>1\<close>.
\<close>

lemma nodeDelete_length: "length (nodeDelete node ns) \<le> length ns"
  by (simp add: nodeDelete_def)

function removeBugLoop :: "heap \<Rightarrow> nat \<Rightarrow> nat \<Rightarrow> jsval list \<Rightarrow> error + jsval list" where
  "removeBugLoop h i x ns =
     (if i < x then
        (case isBugNode (elemAt ns i) h of
           Inl e \<Rightarrow> Inl e
         | Inr (b, _) \<Rightarrow>
             (let ns' = (if b then nodeDelete (elemAt ns i) ns else ns) in
              if length ns' \<noteq> x
              then removeBugLoop h (Suc 0) (length ns') ns'
              else removeBugLoop h (Suc i) x ns'))
      else Inr ns)"
  by pat_completeness auto
termination removeBugLoop
proof (relation "inv_image (less_than <*lex*> less_than <*lex*> less_than)
        (\<lambda>(h, i, x, ns). (length ns, if x = length ns then 0 else Suc 0, x - i))", goal_cases)
  case 1
  show ?case by auto
next
  case (2 h i x ns r b h' ns')
  have "length (nodeDelete (elemAt ns i) ns) \<le> length ns" by (rule nodeDelete_length)
  with 2 show ?case by (auto split: if_splits)
next
  case (3 h i x ns r b h' ns')
  have "length (nodeDelete (elemAt ns i) ns) \<le> length ns" by (rule nodeDelete_length)
  with 3 show ?case by (auto split: if_splits)
qed

declare removeBugLoop.simps [simp del]

text \<open>
  \<open>removeBugNodes(scope)\<close>: \<open>let x = scope.allNodes.length\<close>, then the loop. A scope's
  \<open>allNodes\<close> is a live array; reading the length of \<open>undefined\<close> throws.
\<close>

definition removeBugNodes :: "nat \<Rightarrow> unit comp" where
  "removeBugNodes scope =
     andThen (getProp (ORef scope) ''allNodes'') (\<lambda>v.
       (case v of
          ARef a \<Rightarrow>
            andThen (readArr a) (\<lambda>ns h.
              (case removeBugLoop h 0 (length ns) ns of
                 Inl e \<Rightarrow> Inl e
               | Inr ns' \<Rightarrow> writeArr a ns' h))
        | _ \<Rightarrow> throw TypeError))"

section \<open>The scope reconstructor \<open>loadScope\<close>\<close>

text \<open>
  \<open>const newScope = { ...scope, restrictedCircuitElementsUsed:
  data.restrictedCircuitElementsUsed }\<close>: a new object with the own properties of
  \<open>scope\<close>. The copy is shallow: a property that holds a reference (an array such as
  \<open>allNodes\<close> or \<open>Input\<close>) holds the same reference in the copy.
\<close>

definition copyScope :: "nat \<Rightarrow> scopeDoc \<Rightarrow> nat comp" where
  "copyScope scope data =
     andThen (readObj scope) (\<lambda>ps.
       newObj (objSet ps ''restrictedCircuitElementsUsed'' (s_restrictedCircuitElementsUsed data)))"

text \<open>
  \<open>for (i ...) constructNodeConnections(newScope.allNodes[i], data.allNodes[i])\<close>
\<close>

definition connectNodes :: "env \<Rightarrow> nat \<Rightarrow> scopeDoc \<Rightarrow> unit comp" where
  "connectNodes env newScope data =
     forEach (\<lambda>i.
       andThen (getProp (ORef newScope) ''allNodes'') (\<lambda>nodes.
       andThen (indexRead nodes i) (\<lambda>node.
         constructNodeConnections env node (s_allNodes data ! i))))
       [0 ..< length (s_allNodes data)]"

text \<open>
  Load all modules: for every type of the module list that the document has records of,
  subcircuits through \<open>loadSubCircuit\<close> and everything else through \<open>loadModule\<close>.
\<close>

definition loadModules :: "env \<Rightarrow> string list \<Rightarrow> nat \<Rightarrow> scopeDoc \<Rightarrow> unit comp" where
  "loadModules env mlist newScope data =
     forEach (\<lambda>t.
       (case s_records data t of
          None \<Rightarrow> ret ()
        | Some recs \<Rightarrow>
            if t = ''SubCircuit''
            then forEach (\<lambda>d. loadSubCircuit env d newScope) recs
            else forEach (\<lambda>d. loadModule env d newScope) recs))
       mlist"

text \<open>
  \<open>newScope.wires.forEach((x) => x.updateData(newScope))\<close>: \<open>forEach\<close> visits the
  indices below the length the array had at the start and reads each element at its turn.
\<close>

definition updateWires :: "env \<Rightarrow> nat \<Rightarrow> unit comp" where
  "updateWires env newScope =
     andThen (getProp (ORef newScope) ''wires'') (\<lambda>w.
     andThen (arrayOf w) (\<lambda>ws.
       forEach (\<lambda>k.
         andThen (arrayOf w) (\<lambda>cur.
           if k < length cur then updateData env (cur ! k) newScope else ret ()))
         [0 ..< length ws]))"

definition restoreVerilog :: "nat \<Rightarrow> scopeDoc \<Rightarrow> unit comp" where
  "restoreVerilog newScope data =
     (if truthy (s_verilogMetadata data)
      then setProp newScope ''verilogMetadata'' (s_verilogMetadata data)
      else ret ())"

definition restoreTestbench :: "env \<Rightarrow> nat \<Rightarrow> scopeDoc \<Rightarrow> unit comp" where
  "restoreTestbench env newScope data =
     (if truthy (s_testbenchData data) then
        andThen (getProp (s_testbenchData data) ''testData'') (\<lambda>td.
        andThen (getProp (s_testbenchData data) ''currentGroup'') (\<lambda>g.
        andThen (getProp (s_testbenchData data) ''currentCase'') (\<lambda>c.
          setProp newScope ''testbenchData'' (TestbenchData env td g c))))
      else ret ())"

text \<open>\<open>generateId()\<close>\<close>

definition nextId :: "env \<Rightarrow> string comp" where
  "nextId env h = Inr (generateId env (idCounter h), h\<lparr>idCounter := Suc (idCounter h)\<rparr>)"

text \<open>
  One step of \<open>ports.map((port, i) => ({ ...port, layoutProperties: { x: x, y: height / 2
  - ports.length * 10 + 20 * i + 10, id: generateId() } }))\<close>. The mapped port is a new
  object literal, a plain value. \<open>height\<close> is even (see \<open>layoutHeight\<close>), so the
  division by two is exact.
\<close>

definition layoutPort :: "env \<Rightarrow> int \<Rightarrow> int \<Rightarrow> nat \<Rightarrow> nat \<Rightarrow> jsval \<Rightarrow> jsval comp" where
  "layoutPort env x height n i port =
     andThen (spreadProps port) (\<lambda>ps.
     andThen (nextId env) (\<lambda>ident.
       ret (JObj (objSet ps ''layoutProperties''
              (JObj [(''x'', JNum x),
                     (''y'', JNum (height div 2 - int n * 10 + 20 * int i + 10)),
                     (''id'', JStr ident)])))))"

fun layoutPorts :: "env \<Rightarrow> int \<Rightarrow> int \<Rightarrow> nat \<Rightarrow> nat \<Rightarrow> jsval list \<Rightarrow> (jsval list) comp" where
  "layoutPorts env x height n i [] = ret []"
| "layoutPorts env x height n i (p # ps) =
     andThen (layoutPort env x height n i p) (\<lambda>q.
     andThen (layoutPorts env x height n (Suc i) ps) (\<lambda>qs.
       ret (q # qs)))"

definition layoutHeight :: "nat \<Rightarrow> nat \<Rightarrow> int" where
  "layoutHeight inputCount outputCount = int (max inputCount outputCount) * 20 + 20"

definition newLayout :: "nat \<Rightarrow> nat \<Rightarrow> jsval" where
  "newLayout inputCount outputCount =
     JObj [(''width'', JNum 100),
           (''height'', JNum (layoutHeight inputCount outputCount)),
           (''title_x'', JNum 50),
           (''title_y'', JNum 13)]"

text \<open>
  If layout exists, then restore; else generate a new layout. In the second branch
  \<open>newScope.Input\<close> and \<open>newScope.Output\<close> must be arrays: \<open>.length\<close> of
  \<open>undefined\<close> and \<open>.map\<close> of anything but an array throw a TypeError.
\<close>

definition resolveLayout :: "env \<Rightarrow> nat \<Rightarrow> scopeDoc \<Rightarrow> unit comp" where
  "resolveLayout env newScope data =
     (if truthy (s_layout data) then setProp newScope ''layout'' (s_layout data)
      else
        andThen (getProp (ORef newScope) ''Input'') (\<lambda>inp.
        andThen (arrayOf inp) (\<lambda>ins.
        andThen (getProp (ORef newScope) ''Output'') (\<lambda>outp.
        andThen (arrayOf outp) (\<lambda>outs.
        andThen (setProp newScope ''layout'' (newLayout (length ins) (length outs))) (\<lambda>_.
        andThen (layoutPorts env 0 (layoutHeight (length ins) (length outs))
                   (length ins) 0 ins) (\<lambda>inputLayouts.
        andThen (layoutPorts env 100 (layoutHeight (length ins) (length outs))
                   (length outs) 0 outs) (\<lambda>outputLayouts.
        andThen (newArr inputLayouts) (\<lambda>a.
        andThen (newArr outputLayouts) (\<lambda>b.
        andThen (setProp newScope ''Input'' (ARef a)) (\<lambda>_.
          setProp newScope ''Output'' (ARef b))))))))))))"

text \<open>
  \<open>if (newScope.layout.titleEnabled === undefined)
  Object.assign(newScope, { layout: { ...newScope.layout, titleEnabled: true } });\<close>
\<close>

definition defaultTitleEnabled :: "nat \<Rightarrow> unit comp" where
  "defaultTitleEnabled newScope =
     andThen (getProp (ORef newScope) ''layout'') (\<lambda>lay.
     andThen (getProp lay ''titleEnabled'') (\<lambda>te.
       if te = JUndefined
       then andThen (spreadProps lay) (\<lambda>ps.
              setProp newScope ''layout'' (JObj (objSet ps ''titleEnabled'' (JBool True))))
       else ret ()))"

text \<open>\<open>loadScope(scope, data)\<close>; it returns \<open>newScope\<close>.\<close>

definition loadScope :: "env \<Rightarrow> nat \<Rightarrow> scopeDoc \<Rightarrow> nat comp" where
  "loadScope env scope data =
     andThen (copyScope scope data) (\<lambda>newScope.
     andThen (forEach (\<lambda>x. loadNode env x newScope) (s_allNodes data)) (\<lambda>_.
     andThen (connectNodes env newScope data) (\<lambda>_.
     andThen (loadModules env (moduleList env) newScope data) (\<lambda>_.
     andThen (updateWires env newScope) (\<lambda>_.
     andThen (removeBugNodes newScope) (\<lambda>_.
     andThen (restoreVerilog newScope data) (\<lambda>_.
     andThen (restoreTestbench env newScope data) (\<lambda>_.
     andThen (resolveLayout env newScope data) (\<lambda>_.
     andThen (defaultTitleEnabled newScope) (\<lambda>_.
       ret newScope))))))))))"

text \<open>
  The statements of \<open>loadScope\<close> before the layout is resolved, from the copy of the
  scope to the restoring of the testbench data; the result is \<open>newScope\<close>.
\<close>

definition loadContents :: "env \<Rightarrow> nat \<Rightarrow> scopeDoc \<Rightarrow> nat comp" where
  "loadContents env scope data =
     andThen (copyScope scope data) (\<lambda>newScope.
     andThen (forEach (\<lambda>x. loadNode env x newScope) (s_allNodes data)) (\<lambda>_.
     andThen (connectNodes env newScope data) (\<lambda>_.
     andThen (loadModules env (moduleList env) newScope data) (\<lambda>_.
     andThen (updateWires env newScope) (\<lambda>_.
     andThen (removeBugNodes newScope) (\<lambda>_.
     andThen (restoreVerilog newScope data) (\<lambda>_.
     andThen (restoreTestbench env newScope data) (\<lambda>_.
       ret newScope))))))))"

section \<open>The project loader \<open>load\<close>\<close>

record projectDoc =
  p_name :: jsval
  p_scopes :: "scopeDoc list"
  p_timePeriod :: jsval
  p_clockEnabled :: jsval
  p_orderedTabs :: jsval
  p_focussedCircuit :: jsval

definition setGlobalScope :: "jsval \<Rightarrow> unit comp" where
  "setGlobalScope v h = Inr ((), h\<lparr>globalScope := v\<rparr>)"

text \<open>
  The body of the loop over \<open>data.scopes\<close>. The value that \<open>loadScope\<close> returns is not
  used: the loop goes on with \<open>scope\<close>, the object that \<open>newCircuit\<close> made.
\<close>

definition loadProjectScope :: "env \<Rightarrow> scopeDoc \<Rightarrow> unit comp" where
  "loadProjectScope env d =
     andThen (if truthy (s_verilogMetadata d)
              then andThen (getProp (s_verilogMetadata d) ''isVerilogCircuit'') (\<lambda>v.
                   andThen (getProp (s_verilogMetadata d) ''isMainCircuit'') (\<lambda>m.
                     ret (v, m)))
              else ret (JBool False, JBool False)) (\<lambda>(isVerilogCircuit, isMainCircuit).
     andThen (newCircuit env (jsOr (s_name d) (JStr ''Untitled'')) (s_id d)
                isVerilogCircuit isMainCircuit) (\<lambda>scope.
     andThen (loadScope env scope d) (\<lambda>_.
     andThen (setGlobalScope (ORef scope)) (\<lambda>_.
     andThen (call env ''centerFocus'' [ORef scope, JBool (embed env)]) (\<lambda>_.
     andThen (call env ''update'' [ORef scope, JBool True]) (\<lambda>_.
     andThen (call env ''updateRestrictedElementsInScope'' []) (\<lambda>_.
       call env ''scheduleBackup'' [])))))))"

text \<open>\<open>load(data)\<close>; \<open>None\<close> is a falsy argument, the new project.\<close>

definition load :: "env \<Rightarrow> projectDoc option \<Rightarrow> unit comp" where
  "load env doc =
     (case doc of
        None \<Rightarrow> call env ''setProjectName'' [projectName env]
      | Some data \<Rightarrow>
          andThen (call env ''setProjectName'' [p_name data]) (\<lambda>_.
          andThen (setGlobalScope JUndefined) (\<lambda>_.
          andThen (call env ''resetScopeList'' []) (\<lambda>_.
          andThen (call env ''removeCircuitTabs'' []) (\<lambda>_.
          andThen (forEach (loadProjectScope env) (p_scopes data)) (\<lambda>_.
          andThen (call env ''changeClockTime'' [jsOr (p_timePeriod data) (JNum 500)]) (\<lambda>_.
          andThen (call env ''setClockEnabled''
                     [if p_clockEnabled data = JUndefined then JBool True
                      else p_clockEnabled data]) (\<lambda>_.
          andThen (if embed env then ret () else call env ''showProperties'' []) (\<lambda>_.
          andThen (if truthy (p_orderedTabs data)
                   then call env ''reorderTabs'' [p_orderedTabs data] else ret ()) (\<lambda>_.
          andThen (if truthy (p_focussedCircuit data)
                   then call env ''switchCircuit'' [p_focussedCircuit data] else ret ()) (\<lambda>_.
          andThen (call env ''updateTestbenchUI'' []) (\<lambda>_.
          andThen (call env ''updateSimulationSet'' [JBool True]) (\<lambda>_.
          andThen (call env ''updateCanvasSet'' [JBool True]) (\<lambda>_.
          andThen (call env ''gridUpdateSet'' [JBool True]) (\<lambda>_.
          andThen (if embed env then ret () else call env ''plotArea.reset'' []) (\<lambda>_.
            call env ''scheduleUpdate'' [JNum 1]))))))))))))))))"

section \<open>The folder panel (\<open>folderPanel.js\<close>)\<close>

text \<open>
  The identifiers of a folder (\<open>FolderDoc\<close>). A folder is data of the saved document
  or the work of the folder operations, and its \<open>id\<close> and \<open>parentId\<close> are primitive
  values: \<open>undefined\<close> (the member is absent), \<open>null\<close>, a boolean, a number or a
  string. \<open>identVal\<close> is the value, as \<open>===\<close> and the truth test see it; \<open>identKey\<close>
  is the property name that the value stands for in \<open>folderElements[id]\<close>, for a
  number its decimal numeral (a number is an integer, as everywhere in the model, and of
  the size that is printed without an exponent).
\<close>

datatype ident = IdUndefined | IdNull | IdBool bool | IdNum int | IdStr string

fun identVal :: "ident \<Rightarrow> jsval" where
  "identVal IdUndefined = JUndefined"
| "identVal IdNull = JNull"
| "identVal (IdBool b) = JBool b"
| "identVal (IdNum n) = JNum n"
| "identVal (IdStr s) = JStr s"

fun identKey :: "ident \<Rightarrow> string" where
  "identKey IdUndefined = ''undefined''"
| "identKey IdNull = ''null''"
| "identKey (IdBool b) = (if b then ''true'' else ''false'')"
| "identKey (IdNum n) = (if n < 0 then CHR ''-'' # decimal (nat (- n)) else decimal (nat n))"
| "identKey (IdStr s) = s"

text \<open>
  An entry of the folder collection may be \<open>null\<close> (\<open>None\<close>). The scope as the panel
  sees it has its own id (any value), the folder collection and the subcircuit map, each
  of the last two possibly absent. The subcircuit map is a plain object from subcircuit id
  to folder id.
\<close>

record folder =
  f_id :: ident
  f_name :: string
  f_parentId :: ident

record fscope =
  sc_id :: jsval
  folders :: "folder option list option"
  subcircuitMap :: "jsobj option"

text \<open>
  Modelled from the spec: \<open>scopeList\<close> (module \<open>circuit\<close> is not part of the excerpt) is
  the table of the currently loaded scopes, keyed by scope id. The model keeps the ids in
  the order \<open>for (id in scopeList)\<close> enumerates them; \<open>scopeList[id]\<close> is a scope for
  these ids and \<open>undefined\<close> for every other.

  The panel also works on the document tree of the browser. One fact about it enters the
  model as a parameter: \<open>divMember k\<close> tells whether \<open>k\<close> names a member that a
  \<open>div\<close> element has or inherits (an attribute such as \<open>className\<close>, a method such as
  \<open>querySelector\<close>, a constant such as \<open>ELEMENT_NODE\<close>). It matters only when the
  table of folder elements inherits from such an element, see \<open>tableSet\<close>.
\<close>

record page =
  scopeList :: "string list"
  divMember :: "string \<Rightarrow> bool"

definition loaded :: "page \<Rightarrow> string \<Rightarrow> bool" where
  "loaded pg sid = List.member (scopeList pg) sid"

subsection \<open>The folder tree for display: \<open>createFolderStructure\<close>\<close>

text \<open>
  The part of the document tree that the function builds. \<open>RootElem\<close> is the root folder
  element and \<open>FolderElem k\<close> the element made for the \<open>k\<close>-th entry of
  \<open>scope.folders\<close>; each has one container of class \<open>folder-subcircuits\<close>, which is what
  \<open>querySelector('.folder-subcircuits')\<close> finds in it. \<open>rootItems\<close> and \<open>folderItems\<close>
  are the subcircuit entries listed in the containers, \<open>parents\<close> records the successful
  \<open>appendChild\<close> calls for folder elements, the latest first: an element is in the
  container of \<open>map_of parents\<close> of it, and is attached nowhere when that is \<open>None\<close>.
  \<open>folderError\<close> tells that the \<open>catch\<close> block added its error message.
\<close>

datatype elem = RootElem | FolderElem nat

record dom =
  rootItems :: "string list"
  folderItems :: "(nat \<times> string list) list"
  parents :: "(nat \<times> elem) list"
  folderError :: bool

text \<open>
  \<open>createSubcircuitElement(subcircuitId, scope)\<close> returns an element unless the id is
  empty or names no loaded scope.
\<close>

definition createSubcircuitElement :: "page \<Rightarrow> string \<Rightarrow> string option" where
  "createSubcircuitElement pg subcircuitId =
     (if subcircuitId = [] then None
      else if loaded pg subcircuitId then Some subcircuitId
      else None)"

text \<open>
  Subcircuits not in any folder: \<open>for (const subcircuitId in scopeList)\<close>, skipping the
  current circuit (\<open>subcircuitId === scope.id\<close>, which holds for no scope id other than
  a string), keeping those whose map entry reads \<open>undefined\<close> or \<open>null\<close>.
\<close>

definition rootSubcircuits :: "page \<Rightarrow> jsval \<Rightarrow> jsobj \<Rightarrow> string list" where
  "rootSubcircuits pg current m =
     List.map_filter (createSubcircuitElement pg)
       (filter (\<lambda>sid. JStr sid \<noteq> current \<and> (objGet m sid = JUndefined \<or> objGet m sid = JNull))
          (scopeList pg))"

text \<open>
  The subcircuits of one folder: \<open>for (const subcircuitId in scope.subcircuitMap)\<close> with
  \<open>scope.subcircuitMap[subcircuitId] === folder.id\<close>.
\<close>

definition folderSubcircuits :: "page \<Rightarrow> jsobj \<Rightarrow> ident \<Rightarrow> string list" where
  "folderSubcircuits pg m fid =
     List.map_filter (createSubcircuitElement pg)
       (filter (\<lambda>sid. objGet m sid = identVal fid) (objKeys m))"

text \<open>
  The table \<open>folderElements\<close>, a plain object that starts as \<open>{ root: rootFolder }\<close>.
  \<open>folderElements[k] = element\<close> adds or replaces the own property \<open>k\<close>, but for the
  name \<open>__proto__\<close>: that assignment makes the element the prototype of the table and
  adds no property. \<open>tableElem\<close> is the element that the table holds under a name.
\<close>

record table =
  own :: "(string \<times> elem) list"
  proto :: "elem option"

definition tableSet :: "table \<Rightarrow> string \<Rightarrow> elem \<Rightarrow> table" where
  "tableSet t k e =
     (if k = ''__proto__'' then t\<lparr>proto := Some e\<rparr>
      else t\<lparr>own := AList.update k e (own t)\<rparr>)"

definition tableElem :: "table \<Rightarrow> string \<Rightarrow> elem option" where
  "tableElem t k = (if k = ''__proto__'' then proto t else map_of (own t) k)"

text \<open>
  The read \<open>folderElements[k]\<close> gives the element held under \<open>k\<close>, if any. Otherwise it
  gives what the table inherits under that name. From \<open>Object.prototype\<close> these are
  functions, and \<open>Object.prototype\<close> itself for \<open>__proto__\<close>: truthy values without a
  \<open>querySelector\<close>, so that the call of it throws a TypeError. When the prototype is an
  element, the table also inherits the members of the element: the attributes are
  accessors that throw a TypeError when read through an object that is no node, and the
  methods and constants are again truthy values without a \<open>querySelector\<close>. In both
  cases the step that reads the name as a parent id throws (\<open>Throws\<close>). Every other name
  reads \<open>undefined\<close> (\<open>Absent\<close>).
\<close>

datatype lookup = Found elem | Throws | Absent

definition tableGet :: "page \<Rightarrow> table \<Rightarrow> string \<Rightarrow> lookup" where
  "tableGet pg t k =
     (case tableElem t k of
        Some e \<Rightarrow> Found e
      | None \<Rightarrow>
          if List.member objectPrototype k then Throws
          else if proto t \<noteq> None \<and> divMember pg k then Throws
          else Absent)"

text \<open>
  First create all folder elements. \<open>k\<close> is the index of the entry; an entry that is
  \<open>null\<close> or whose id is falsy is skipped; \<open>folderElements[folder.id] = folderElement\<close>.
\<close>

fun createElements ::
  "page \<Rightarrow> jsobj \<Rightarrow> nat \<Rightarrow> folder option list \<Rightarrow>
   table \<times> (nat \<times> string list) list \<Rightarrow> table \<times> (nat \<times> string list) list" where
  "createElements pg m k [] acc = acc"
| "createElements pg m k (None # fs) acc = createElements pg m (Suc k) fs acc"
| "createElements pg m k (Some f # fs) (folderElements, its) =
     (if \<not> truthy (identVal (f_id f)) then createElements pg m (Suc k) fs (folderElements, its)
      else createElements pg m (Suc k) fs
             (tableSet folderElements (identKey (f_id f)) (FolderElem k),
              its @ [(k, folderSubcircuits pg m (f_id f))]))"

text \<open>
  \<open>container.appendChild(child)\<close> throws when the child is the element that holds the
  container or one of its ancestors. \<open>inside ps n c j\<close> follows the parents of element
  \<open>j\<close> and tells whether it meets \<open>c\<close>. The document tree has no cycle and at most one
  element per placement, so \<open>n = Suc (length ps)\<close> steps reach the top; running out of
  steps counts as a refusal.
\<close>

fun inside :: "(nat \<times> elem) list \<Rightarrow> nat \<Rightarrow> nat \<Rightarrow> nat \<Rightarrow> bool" where
  "inside ps 0 c j = True"
| "inside ps (Suc n) c j =
     (j = c \<or> (case map_of ps j of Some (FolderElem p) \<Rightarrow> inside ps n c p | _ \<Rightarrow> False))"

text \<open>
  One step of the hierarchy pass for a folder with an id; \<open>None\<close> is an exception.
  The folder's own element is \<open>folderElements[folder.id]\<close>. With a truthy \<open>parentId\<close>
  and a truthy \<open>folderElements[parentId]\<close> the element goes into the container found in
  the parent, and in every other case into the root container.
\<close>

definition placeFolder ::
  "page \<Rightarrow> table \<Rightarrow> folder \<Rightarrow> (nat \<times> elem) list \<Rightarrow> (nat \<times> elem) list option" where
  "placeFolder pg folderElements f ps =
     (case tableGet pg folderElements (identKey (f_id f)) of
        Found (FolderElem c) \<Rightarrow>
          if \<not> truthy (identVal (f_parentId f)) then Some ((c, RootElem) # ps)
          else
            (case tableGet pg folderElements (identKey (f_parentId f)) of
               Found RootElem \<Rightarrow> Some ((c, RootElem) # ps)
             | Found (FolderElem j) \<Rightarrow>
                 if inside ps (Suc (length ps)) c j then None
                 else Some ((c, FolderElem j) # ps)
             | Throws \<Rightarrow> None
             | Absent \<Rightarrow> Some ((c, RootElem) # ps))
      | _ \<Rightarrow> None)"

text \<open>
  Then organize folders in hierarchy. An exception leaves the loop: the folders after it
  are not placed, and the \<open>catch\<close> block reports the error.
\<close>

fun organize ::
  "page \<Rightarrow> table \<Rightarrow> folder option list \<Rightarrow> (nat \<times> elem) list \<Rightarrow> (nat \<times> elem) list \<times> bool" where
  "organize pg folderElements [] ps = (ps, False)"
| "organize pg folderElements (None # fs) ps = organize pg folderElements fs ps"
| "organize pg folderElements (Some f # fs) ps =
     (if \<not> truthy (identVal (f_id f)) then organize pg folderElements fs ps
      else
        (case placeFolder pg folderElements f ps of
           None \<Rightarrow> (ps, True)
         | Some ps' \<Rightarrow> organize pg folderElements fs ps'))"

text \<open>
  \<open>createFolderStructure(scope)\<close>. A missing scope is replaced by \<open>globalScope\<close>, and the
  function throws when there is none. The scope comes back with its folder collection and
  subcircuit map initialised.
\<close>

definition ensureCollections :: "fscope \<Rightarrow> fscope" where
  "ensureCollections sc =
     sc\<lparr>folders := Some (case folders sc of None \<Rightarrow> [] | Some fs \<Rightarrow> fs),
        subcircuitMap := Some (case subcircuitMap sc of None \<Rightarrow> [] | Some m \<Rightarrow> m)\<rparr>"

definition foldersOf :: "fscope \<Rightarrow> folder option list" where
  "foldersOf sc = (case folders sc of None \<Rightarrow> [] | Some fs \<Rightarrow> fs)"

definition mapOf :: "fscope \<Rightarrow> jsobj" where
  "mapOf sc = (case subcircuitMap sc of None \<Rightarrow> [] | Some m \<Rightarrow> m)"

definition buildTree :: "page \<Rightarrow> fscope \<Rightarrow> dom" where
  "buildTree pg sc =
     (let (folderElements, its) =
            createElements pg (mapOf sc) 0 (foldersOf sc)
              (\<lparr>own = [(''root'', RootElem)], proto = None\<rparr>, []);
          (ps, failed) = organize pg folderElements (foldersOf sc) []
      in \<lparr>rootItems = rootSubcircuits pg (sc_id sc) (mapOf sc),
          folderItems = its,
          parents = ps,
          folderError = failed\<rparr>)"

definition createFolderStructure ::
  "page \<Rightarrow> fscope option \<Rightarrow> fscope option \<Rightarrow> error + (fscope \<times> dom)" where
  "createFolderStructure pg global scope =
     (case (case scope of None \<Rightarrow> global | Some sc \<Rightarrow> Some sc) of
        None \<Rightarrow> Inl (Thrown ''Failed to get a valid scope'')
      | Some sc \<Rightarrow> Inr (ensureCollections sc, buildTree pg (ensureCollections sc)))"

subsection \<open>\<open>renderFolderPanel\<close> and \<open>moveSubcircuitToFolder\<close>\<close>

text \<open>
  What a call does besides changing the scope: messages on the console (\<open>console.warn\<close>,
  \<open>console.error\<close>; the \<open>console.log\<close> lines are left out), a rendering of the panel,
  a scheduled backup, a message shown to the user.
\<close>

datatype event =
    ConsoleWarn
  | ConsoleError
  | RenderFolderPanel "dom option"
  | ScheduleBackup
  | ShowMessage string

text \<open>
  \<open>renderFolderPanel(scope)\<close> for a scope that is there. \<open>ready\<close> tells whether
  \<open>folderPanelContainer\<close> has been initialised; if not the function only logs an error.
\<close>

definition renderFolderPanel :: "page \<Rightarrow> bool \<Rightarrow> fscope \<Rightarrow> fscope \<times> event list" where
  "renderFolderPanel pg ready sc =
     (if \<not> ready then (sc, [ConsoleError])
      else (ensureCollections sc,
            [RenderFolderPanel (Some (buildTree pg (ensureCollections sc)))]))"

record outcome =
  o_scope :: "fscope option"
  o_events :: "event list"
  o_return :: jsval

text \<open>
  \<open>folders.some(folder => folder.id === folderId)\<close>; reading the id of a \<open>null\<close> entry
  throws (\<open>None\<close>). A folder without id has the id \<open>undefined\<close>, which is \<open>===\<close> to a
  \<open>folderId\<close> that is \<open>undefined\<close>.
\<close>

fun someFolderHasId :: "folder option list \<Rightarrow> jsval \<Rightarrow> bool option" where
  "someFolderHasId [] folderId = Some False"
| "someFolderHasId (None # fs) folderId = None"
| "someFolderHasId (Some f # fs) folderId =
     (if identVal (f_id f) = folderId then Some True else someFolderHasId fs folderId)"

text \<open>
  The end of a move that changed the map: \<open>renderFolderPanel(scope)\<close>,
  \<open>scheduleBackup(scope)\<close>, \<open>showMessage(...)\<close>.
\<close>

definition finishMove ::
  "page \<Rightarrow> bool \<Rightarrow> event list \<Rightarrow> jsval \<Rightarrow> fscope \<Rightarrow> outcome" where
  "finishMove pg ready evs folderId sc =
     (let (sc', rendered) = renderFolderPanel pg ready sc
      in \<lparr>o_scope = Some sc',
          o_events = evs @ rendered @
            [ScheduleBackup,
             ShowMessage (if truthy folderId then ''Subcircuit moved to folder successfully''
                          else ''Subcircuit moved to root successfully'')],
          o_return = JUndefined\<rparr>)"

text \<open>
  \<open>moveSubcircuitToFolder(subcircuitId, folderId, scope)\<close>. \<open>subcircuitId\<close> is a string,
  as the callers of the file pass it (a key of \<open>scopeList\<close> or the text of a drag);
  \<open>folderId\<close> is \<open>JNull\<close> for the root. The outcome has the scope the call worked on,
  as the call leaves it, the events in their order and the value returned to the caller.
  Every exception inside the \<open>try\<close> block is caught and logged.
\<close>

definition moveSubcircuitToFolder ::
  "page \<Rightarrow> fscope option \<Rightarrow> bool \<Rightarrow> string \<Rightarrow> jsval \<Rightarrow> fscope option \<Rightarrow> outcome" where
  "moveSubcircuitToFolder pg global ready subcircuitId folderId scope =
     (if subcircuitId = [] then
        \<lparr>o_scope = scope, o_events = [ConsoleError], o_return = JUndefined\<rparr>
      else
        (case (case scope of None \<Rightarrow> global | Some sc \<Rightarrow> Some sc) of
           None \<Rightarrow> \<lparr>o_scope = None, o_events = [ConsoleError, ConsoleError],
                    o_return = JUndefined\<rparr>
         | Some sc0 \<Rightarrow>
             (let evs = (if scope = None then [ConsoleError] else []);
                  sc = (if subcircuitMap sc0 = None then sc0\<lparr>subcircuitMap := Some []\<rparr>
                        else sc0);
                  m = mapOf sc
              in
                if \<not> loaded pg subcircuitId then
                  \<lparr>o_scope = Some sc, o_events = evs @ [ConsoleWarn], o_return = JUndefined\<rparr>
                else if jsOr (objGet m subcircuitId) (JStr ''root'') = folderId then
                  \<lparr>o_scope = Some sc, o_events = evs, o_return = JUndefined\<rparr>
                else if folderId = JNull then
                  finishMove pg ready evs folderId
                    (sc\<lparr>subcircuitMap := Some (AList.delete subcircuitId m)\<rparr>)
                else
                  (case folders sc of
                     None \<Rightarrow> \<lparr>o_scope = Some sc, o_events = evs @ [ConsoleError],
                              o_return = JUndefined\<rparr>
                   | Some fs \<Rightarrow>
                       (case someFolderHasId fs folderId of
                          Some True \<Rightarrow>
                            finishMove pg ready evs folderId
                              (sc\<lparr>subcircuitMap := Some (objSet m subcircuitId folderId)\<rparr>)
                        | _ \<Rightarrow> \<lparr>o_scope = Some sc, o_events = evs @ [ConsoleError],
                                 o_return = JUndefined\<rparr>)))))"

section \<open>Reading results, and example collaborators\<close>

text \<open>The property \<open>k\<close> of the live object \<open>r\<close> in a heap, and in the heap of a result.\<close>

definition propOf :: "heap \<Rightarrow> nat \<Rightarrow> string \<Rightarrow> jsval" where
  "propOf h r k = objGet (objs h ! r) k"

definition finalProp :: "error + ('a \<times> heap) \<Rightarrow> nat \<Rightarrow> string \<Rightarrow> jsval option" where
  "finalProp res r k = (case res of Inl e \<Rightarrow> None | Inr (v, h) \<Rightarrow> Some (propOf h r k))"

text \<open>
  Modelled from the spec: the tables \<open>fixDirection\<close> and \<open>oppositeDirection\<close> (module
  \<open>canvasApi\<close> is not part of the excerpt). The spec says that the first normalizes a
  legacy orientation token to the canonical one and that the second gives the opposite
  direction. They serve as concrete tables where a theorem is applied to an example.
\<close>

definition exFixDirection :: "jsval \<Rightarrow> jsval" where
  "exFixDirection v =
     (case v of
        JStr s \<Rightarrow> objGet [(''right'', JStr ''RIGHT''), (''left'', JStr ''LEFT''),
                          (''up'', JStr ''UP''), (''down'', JStr ''DOWN''),
                          (''RIGHT'', JStr ''RIGHT''), (''LEFT'', JStr ''LEFT''),
                          (''UP'', JStr ''UP''), (''DOWN'', JStr ''DOWN'')] s
      | _ \<Rightarrow> JUndefined)"

definition exOppositeDirection :: "jsval \<Rightarrow> jsval" where
  "exOppositeDirection v =
     (case v of
        JStr s \<Rightarrow> objGet [(''RIGHT'', JStr ''LEFT''), (''LEFT'', JStr ''RIGHT''),
                          (''UP'', JStr ''DOWN''), (''DOWN'', JStr ''UP'')] s
      | _ \<Rightarrow> JUndefined)"

text \<open>
  Example collaborators, for the same use. An element constructor makes an element that
  faces right and has the default delay 10, and registers it in the scope's array for its
  type; \<open>loadNode\<close> makes a node owned by a plain circuit element and registers it in
  \<open>allNodes\<close>; the scope factory makes a scope with empty arrays and the default layout.
\<close>

definition push :: "nat \<Rightarrow> string \<Rightarrow> jsval \<Rightarrow> unit comp" where
  "push scope k v =
     andThen (getProp (ORef scope) k) (\<lambda>arr.
       (case arr of
          ARef a \<Rightarrow> andThen (readArr a) (\<lambda>xs. writeArr a (xs @ [v]))
        | _ \<Rightarrow> ret ()))"

definition exConstructor :: "string \<Rightarrow> jsval \<Rightarrow> jsval \<Rightarrow> nat \<Rightarrow> jsval list \<Rightarrow> nat comp" where
  "exConstructor tag x y scope params =
     andThen (newObj [(''objectType'', JStr tag), (''x'', x), (''y'', y),
                      (''direction'', JStr ''RIGHT''), (''propagationDelay'', JNum 10)]) (\<lambda>obj.
     andThen (push scope tag (ORef obj)) (\<lambda>_.
       ret obj))"

definition exModules ::
  "jsval \<Rightarrow> (jsval \<Rightarrow> jsval \<Rightarrow> nat \<Rightarrow> jsval list \<Rightarrow> nat comp) option" where
  "exModules tag =
     (case tag of
        JStr t \<Rightarrow> if List.member [''Input'', ''Output'', ''AndGate'', ''DflipFlop'', ''Rom''] t
                  then Some (exConstructor t) else None
      | _ \<Rightarrow> None)"

definition exLoadNode :: "jsval \<Rightarrow> nat \<Rightarrow> unit comp" where
  "exLoadNode x scope =
     andThen (getProp x ''type'') (\<lambda>t.
     andThen (newObj [(''type'', t),
                      (''parent'', JObj [(''objectType'', JStr ''CircuitElement'')])]) (\<lambda>node.
       push scope ''allNodes'' (ORef node)))"

definition exNewCircuit :: "jsval \<Rightarrow> jsval \<Rightarrow> jsval \<Rightarrow> jsval \<Rightarrow> nat comp" where
  "exNewCircuit name ident isVerilog isMain =
     andThen (newArr []) (\<lambda>nodes.
     andThen (newArr []) (\<lambda>wires.
     andThen (newArr []) (\<lambda>inputs.
     andThen (newArr []) (\<lambda>outputs.
       newObj [(''name'', name), (''id'', ident),
               (''allNodes'', ARef nodes), (''wires'', ARef wires),
               (''Input'', ARef inputs), (''Output'', ARef outputs),
               (''layout'', JObj [(''width'', JNum 100), (''height'', JNum 40),
                                  (''title_x'', JNum 50), (''title_y'', JNum 13),
                                  (''titleEnabled'', JBool True)])]))))"

definition exEnv :: env where
  "exEnv =
     \<lparr>moduleList = [''Input'', ''Output'', ''AndGate'', ''DflipFlop'', ''Rom'', ''SubCircuit''],
      modules = exModules,
      fixDirection = exFixDirection,
      oppositeDirection = exOppositeDirection,
      elemFixDirection = (\<lambda>obj. ret ()),
      replace = (\<lambda>old n. ret old),
      loadNode = exLoadNode,
      constructNodeConnections = (\<lambda>node d. ret ()),
      loadSubCircuit = (\<lambda>d scope. ret ()),
      updateData = (\<lambda>wire scope. ret ()),
      TestbenchData = (\<lambda>td g c. JObj [(''testData'', td), (''currentGroup'', g),
                                         (''currentCase'', c)]),
      generateId = (\<lambda>n. ''id'' @ decimal n),
      newCircuit = exNewCircuit,
      call = (\<lambda>f args. ret ()),
      embed = False,
      projectName = JStr ''Untitled''\<rparr>"

text \<open>An empty heap and an element record with nothing but a type tag.\<close>

definition emptyHeap :: heap where
  "emptyHeap = \<lparr>objs = [], arrs = [], idCounter = 0, globalScope = JUndefined\<rparr>"

definition plainElement :: "string \<Rightarrow> elementDoc" where
  "plainElement tag =
     \<lparr>e_objectType = tag, e_x = JNum 0, e_y = JNum 0, e_label = JStr [],
      e_labelDirection = JUndefined, e_propagationDelay = JUndefined,
      e_customData = Some \<lparr>cd_constructorParamaters = None, cd_values = None,
                            cd_nodes = None\<rparr>,
      e_subcircuitMetadata = JUndefined\<rparr>"

text \<open>A heap that holds one scope, made by the example factory.\<close>

definition oneScope :: heap where
  "oneScope =
     (case exNewCircuit (JStr ''Main'') (JStr ''s1'') (JBool False) (JBool False) emptyHeap of
        Inr (s, h) \<Rightarrow> h
      | Inl e \<Rightarrow> emptyHeap)"

text \<open>The heap of a result, and two more example records.\<close>

definition heapOf :: "error + ('a \<times> heap) \<Rightarrow> heap" where
  "heapOf res = (case res of Inl e \<Rightarrow> emptyHeap | Inr (v, h) \<Rightarrow> h)"

definition emptyDirectionRecord :: elementDoc where
  "emptyDirectionRecord = (plainElement ''Input'')\<lparr>e_labelDirection := JStr []\<rparr>"

definition zeroDelayRecord :: elementDoc where
  "zeroDelayRecord = (plainElement ''Input'')\<lparr>e_propagationDelay := JNum 0\<rparr>"

text \<open>
  A scope whose node list holds two nodes, each with a node-kind tag other than
  intermediate (\<open>type\<close> is \<open>0\<close>) and a plain circuit element as parent.
\<close>

definition bugNode :: jsobj where
  "bugNode = [(''type'', JNum 0), (''parent'', JObj [(''objectType'', JStr ''CircuitElement'')])]"

definition twoBugNodes :: heap where
  "twoBugNodes =
     \<lparr>objs = [[(''allNodes'', ARef 0)], bugNode, bugNode],
      arrs = [[ORef 1, ORef 2]],
      idCounter = 0,
      globalScope = JUndefined\<rparr>"

text \<open>
  Examples for the folder panel. The page has two loaded scopes, of which \<open>main\<close> is
  the current one, and a few of the member names of a \<open>div\<close> element. The scopes: one
  with no folder, one with the folder \<open>fA\<close>, one with \<open>sub1\<close> filed in that folder, one
  without collections; one with a folder whose parent does not exist, one with a folder
  without id, one with a folder that is its own parent, one with two folders of the same
  id, and one with a folder whose parent id is the name of an inherited member.
\<close>

definition sampleScopes :: page where
  "sampleScopes =
     \<lparr>scopeList = [''main'', ''sub1''],
      divMember = (\<lambda>k. List.member [''className'', ''children'', ''querySelector'',
                                      ''appendChild'', ''ownerDocument'', ''ELEMENT_NODE''] k)\<rparr>"

definition rootedScope :: fscope where
  "rootedScope = \<lparr>sc_id = JStr ''main'', folders = Some [], subcircuitMap = Some []\<rparr>"

definition folderA :: folder where
  "folderA = \<lparr>f_id = IdStr ''fA'', f_name = ''A'', f_parentId = IdUndefined\<rparr>"


definition filedScope :: fscope where
  "filedScope =
     \<lparr>sc_id = JStr ''main'', folders = Some [Some folderA],
      subcircuitMap = Some [(''sub1'', JStr ''fA'')]\<rparr>"




definition unnamedFolder :: folder where
  "unnamedFolder = \<lparr>f_id = IdUndefined, f_name = ''Lost'', f_parentId = IdUndefined\<rparr>"

definition unnamedFolderScope :: fscope where
  "unnamedFolderScope =
     \<lparr>sc_id = JStr ''main'', folders = Some [Some unnamedFolder], subcircuitMap = Some []\<rparr>"



definition inheritedParentScope :: fscope where
  "inheritedParentScope =
     \<lparr>sc_id = JStr ''main'',
      folders = Some [Some \<lparr>f_id = IdStr ''fD'', f_name = ''D'',
                             f_parentId = IdStr ''constructor''\<rparr>],
      subcircuitMap = Some []\<rparr>"

text \<open>
  The five fields of a scope object that \<open>loadScope\<close> assigns after the cleanup pass, and
  what it means for a computation to leave them alone in the object \<open>s\<close>: whenever \<open>s\<close>
  is a live object before and the computation returns, \<open>s\<close> is a live object after and
  holds the same values in the five fields. (A field that holds a reference to an array
  still holds that reference; the array may have changed.) \<open>makesNew\<close> says that the
  object a computation returns did not exist before, as for a \<open>new\<close> expression.
\<close>

definition topFields :: "string list" where
  "topFields = [''layout'', ''verilogMetadata'', ''testbenchData'', ''Input'', ''Output'']"

definition fieldsOf :: "jsobj \<Rightarrow> jsval list" where
  "fieldsOf ps = map (objGet ps) topFields"

definition keeps :: "nat \<Rightarrow> 'a comp \<Rightarrow> bool" where
  "keeps s m =
     (\<forall>h v h'. s < length (objs h) \<longrightarrow> m h = Inr (v, h') \<longrightarrow>
        s < length (objs h') \<and> fieldsOf (objs h' ! s) = fieldsOf (objs h ! s))"

definition makesNew :: "nat comp \<Rightarrow> bool" where
  "makesNew m = (\<forall>h v h'. m h = Inr (v, h') \<longrightarrow> length (objs h) \<le> v \<and> v < length (objs h'))"

text \<open>
  The assumption on the code outside the excerpt: no collaborator assigns to one of the
  five fields of the object \<open>s\<close>, and an element constructor and the scope factory return
  a new object.
\<close>

definition collaboratorsKeep :: "env \<Rightarrow> nat \<Rightarrow> bool" where
  "collaboratorsKeep env s =
     ((\<forall>x sc. keeps s (loadNode env x sc)) \<and>
      (\<forall>n d. keeps s (constructNodeConnections env n d)) \<and>
      (\<forall>d sc. keeps s (loadSubCircuit env d sc)) \<and>
      (\<forall>w sc. keeps s (updateData env w sc)) \<and>
      (\<forall>obj. keeps s (elemFixDirection env obj)) \<and>
      (\<forall>old n. keeps s (replace env old n)) \<and>
      (\<forall>tag ctor x y sc ps. modules env tag = Some ctor \<longrightarrow>
         keeps s (ctor x y sc ps) \<and> makesNew (ctor x y sc ps)) \<and>
      (\<forall>f args. keeps s (call env f args)) \<and>
      (\<forall>name ident v m. makesNew (newCircuit env name ident v m)))"

text \<open>A computation that leaves every object as it is.\<close>

definition objsKept :: "'a comp \<Rightarrow> bool" where
  "objsKept m = (\<forall>h v h'. m h = Inr (v, h') \<longrightarrow> objs h' = objs h)"

text \<open>
  Example scope documents: two nodes, one input and one output and no layout; the same
  with two inputs; the same with a layout that hides the title; and the same with a layout
  that has no title flag.
\<close>

definition sampleDoc :: scopeDoc where
  "sampleDoc =
     \<lparr>s_id = JStr ''s1'', s_name = JStr ''Main'',
      s_allNodes = [JObj [(''type'', JNum 2)], JObj [(''type'', JNum 0)]],
      s_records = (\<lambda>t. if t = ''Input'' then Some [plainElement ''Input'']
                        else if t = ''Output'' then Some [plainElement ''Output'']
                        else None),
      s_restrictedCircuitElementsUsed = JArr [],
      s_verilogMetadata = JUndefined,
      s_testbenchData = JUndefined,
      s_layout = JUndefined\<rparr>"

definition twoInputDoc :: scopeDoc where
  "twoInputDoc =
     sampleDoc\<lparr>s_records :=
       (\<lambda>t. if t = ''Input'' then Some [plainElement ''Input'', plainElement ''Input'']
             else if t = ''Output'' then Some [plainElement ''Output'']
             else None)\<rparr>"

definition hiddenTitleDoc :: scopeDoc where
  "hiddenTitleDoc =
     sampleDoc\<lparr>s_layout := JObj [(''width'', JNum 120), (''height'', JNum 60),
                                  (''title_x'', JNum 60), (''title_y'', JNum 13),
                                  (''titleEnabled'', JBool False)]\<rparr>"

definition oldLayoutDoc :: scopeDoc where
  "oldLayoutDoc =
     sampleDoc\<lparr>s_layout := JObj [(''width'', JNum 120), (''height'', JNum 60),
                                  (''title_x'', JNum 60), (''title_y'', JNum 13)]\<rparr>"

text \<open>
  The layout properties of a port as \<open>loadScope\<close> leaves it, and the title flag of a
  layout record of a document.
\<close>

definition layoutPropertiesOf :: "jsval \<Rightarrow> jsval" where
  "layoutPropertiesOf port =
     (case port of JObj ps \<Rightarrow> objGet ps ''layoutProperties'' | _ \<Rightarrow> JUndefined)"

definition portAt :: "int \<Rightarrow> int \<Rightarrow> nat \<Rightarrow> nat \<Rightarrow> string \<Rightarrow> jsval" where
  "portAt x height n i ident =
     JObj [(''x'', JNum x),
           (''y'', JNum (height div 2 - int n * 10 + 20 * int i + 10)),
           (''id'', JStr ident)]"

definition docTitleEnabled :: "jsval \<Rightarrow> jsval" where
  "docTitleEnabled layout =
     (case layout of JObj ps \<Rightarrow> objGet ps ''titleEnabled'' | _ \<Rightarrow> JUndefined)"

text \<open>The heaps in which \<open>loadScope\<close> leaves the example documents, from \<open>oneScope\<close>.\<close>

definition sampleResult :: heap where
  "sampleResult = heapOf (loadScope exEnv 0 sampleDoc oneScope)"

definition twoInputResult :: heap where
  "twoInputResult = heapOf (loadScope exEnv 0 twoInputDoc oneScope)"

definition hiddenTitleResult :: heap where
  "hiddenTitleResult = heapOf (loadScope exEnv 0 hiddenTitleDoc oneScope)"

definition oldLayoutResult :: heap where
  "oldLayoutResult = heapOf (loadScope exEnv 0 oldLayoutDoc oneScope)"

text \<open>
  The heaps in which the statements of \<open>loadScope\<close> before the layout leave the example
  documents.
\<close>

definition sampleContents :: heap where
  "sampleContents = heapOf (loadContents exEnv 0 sampleDoc oneScope)"

definition twoInputContents :: heap where
  "twoInputContents = heapOf (loadContents exEnv 0 twoInputDoc oneScope)"

definition oldLayoutContents :: heap where
  "oldLayoutContents = heapOf (loadContents exEnv 0 oldLayoutDoc oneScope)"

text \<open>
  What it means for a computation to leave the property \<open>k\<close> of the live object \<open>r\<close>
  alone, the own entry \<open>k\<close> of \<open>customData.values\<close> and of \<open>customData.nodes\<close> of an
  element record, and a record with the delay \<open>0\<close> whose \<open>customData.values\<close> has a
  delay of its own.
\<close>

definition keepsProp :: "nat \<Rightarrow> string \<Rightarrow> 'a comp \<Rightarrow> bool" where
  "keepsProp r k m =
     (\<forall>h v h'. r < length (objs h) \<longrightarrow> m h = Inr (v, h') \<longrightarrow>
        r < length (objs h') \<and> propOf h' r k = propOf h r k)"

definition restoredValue :: "elementDoc \<Rightarrow> string \<Rightarrow> jsval option" where
  "restoredValue data k =
     (case e_customData data of
        None \<Rightarrow> None
      | Some cd \<Rightarrow> (case cd_values cd of None \<Rightarrow> None | Some vs \<Rightarrow> map_of vs k))"

definition replacedNode :: "elementDoc \<Rightarrow> string \<Rightarrow> jsval option" where
  "replacedNode data k =
     (case e_customData data of
        None \<Rightarrow> None
      | Some cd \<Rightarrow> (case cd_nodes cd of None \<Rightarrow> None | Some ns \<Rightarrow> map_of ns k))"

definition overlaidDelayRecord :: elementDoc where
  "overlaidDelayRecord =
     (plainElement ''Input'')
       \<lparr>e_propagationDelay := JNum 0,
        e_customData := Some \<lparr>cd_constructorParamaters = None,
                               cd_values = Some [(''propagationDelay'', JNum 7)],
                               cd_nodes = None\<rparr>\<rparr>"

section \<open>Basic facts about objects and heap computations\<close>

lemma objGet_objSet: "objGet (objSet ps k v) k' = (if k' = k then v else objGet ps k')"
  by (simp add: objGet_def objSet_def update_conv')

lemma andThen_Inr:
  "andThen m f h = Inr r \<longleftrightarrow> (\<exists>v h'. m h = Inr (v, h') \<and> f v h' = Inr r)"
  by (auto simp: andThen_def split: sum.splits)

lemma andThen_step: "m h = Inr (v, h') \<Longrightarrow> andThen m f h = f v h'"
  by (simp add: andThen_def)

lemma setProp_live:
  "r < length (objs h) \<Longrightarrow>
   setProp r k v h = Inr ((), h\<lparr>objs := (objs h)[r := objSet (objs h ! r) k v]\<rparr>)"
  by (simp add: setProp_def)

lemma setProp_Inr:
  "setProp r k v h = Inr (u, h') \<Longrightarrow>
   r < length (objs h) \<and> h' = h\<lparr>objs := (objs h)[r := objSet (objs h ! r) k v]\<rparr>"
  by (auto simp: setProp_def split: if_splits)

lemma getProp_live:
  "r < length (objs h) \<Longrightarrow> getProp (ORef r) k h = Inr (propOf h r k, h)"
  by (simp add: getProp_def readObj_def andThen_def ret_def propOf_def)

lemma propOf_setProp:
  "setProp r k v h = Inr (u, h') \<Longrightarrow>
   propOf h' r' k' = (if r' = r \<and> k' = k then v else propOf h r' k')"
  by (auto simp: propOf_def objGet_objSet nth_list_update dest!: setProp_Inr)

section \<open>Type rectification\<close>

lemma rectifyObjectType_cases:
  "rectifyObjectType t =
     (if t = ''FlipFlop'' then JStr ''DflipFlop''
      else if t = ''Ram'' then JStr ''Rom''
      else if List.member objectPrototype t then Builtin t
      else JStr t)"
  by (simp add: rectifyObjectType_def rectify_def objGet_def jsOr_def)

text \<open>
  C7. Rectification maps \<open>FlipFlop\<close> to \<open>DflipFlop\<close> and \<open>Ram\<close> to \<open>Rom\<close>, but it is not
  the identity on all other tags: for the tag \<open>constructor\<close> the read \<open>rectify[obj]\<close>
  finds the member inherited from \<open>Object.prototype\<close>, which is truthy, and the registry
  is asked for that member instead of the tag.
\<close>

theorem rectifyObjectType_inherited:
  "rectifyObjectType ''constructor'' = Builtin ''constructor'' \<and>
   construct env (plainElement ''constructor'') scope h =
     (case modules env (Builtin ''constructor'') of
        None \<Rightarrow> Inl TypeError
      | Some ctor \<Rightarrow> ctor (JNum 0) (JNum 0) scope [] h)"
  by (simp add: rectifyObjectType_cases objectPrototype_def construct_def plainElement_def
        throw_def split: option.splits)

text \<open>
  Rectification on the documented tags and on every tag that is not the name of an
  inherited member.
\<close>

theorem rectifyObjectType_table:
  "rectifyObjectType ''FlipFlop'' = JStr ''DflipFlop'' \<and>
   rectifyObjectType ''Ram'' = JStr ''Rom'' \<and>
   (t \<noteq> ''FlipFlop'' \<and> t \<noteq> ''Ram'' \<and> \<not> List.member objectPrototype t \<longrightarrow>
      rectifyObjectType t = JStr t)"
  by (simp add: rectifyObjectType_cases)

theorem rectifyObjectType_table_witness:
  "rectifyObjectType ''FlipFlop'' = JStr ''DflipFlop'' \<and>
   rectifyObjectType ''Ram'' = JStr ''Rom'' \<and>
   rectifyObjectType ''AndGate'' = JStr ''AndGate''"
  using rectifyObjectType_table [of "''AndGate''"]
  by (simp add: objectPrototype_def)

section \<open>The two assignments of \<open>loadModule\<close>\<close>

lemma setDirections_sets:
  assumes "obj < length (objs h)"
  shows "\<exists>h'. setDirections env data obj h = Inr ((), h') \<and>
           length (objs h') = length (objs h) \<and>
           propOf h' obj ''propagationDelay'' = propOf h obj ''propagationDelay'' \<and>
           propOf h' obj ''labelDirection'' =
             (if truthy (e_labelDirection data) then e_labelDirection data
              else oppositeDirection env (fixDirection env (propOf h obj ''direction'')))"
  using assms
  by (auto simp: setDirections_def andThen_def getProp_live setProp_live propOf_def
        objGet_objSet jsOr_def)

lemma setDelay_sets:
  assumes "obj < length (objs h)"
  shows "\<exists>h'. setDelay data obj h = Inr ((), h') \<and>
           propOf h' obj ''propagationDelay'' =
             (if e_propagationDelay data = JNum 0 then JNum 0
              else if truthy (e_propagationDelay data) then e_propagationDelay data
              else propOf h obj ''propagationDelay'')"
  using assms
  by (auto simp: setDelay_def andThen_def getProp_live setProp_live propOf_def objGet_objSet
        jsOr_def)

text \<open>
  C4 (as amended). Let the constructor have made the element \<open>obj\<close>, in the heap \<open>h0\<close>.
  Then \<open>loadModule\<close> makes its first two assignments, reaching a heap \<open>h1\<close> from which it
  goes on with the delay, and in \<open>h1\<close> the label direction of the element is the record's
  \<open>labelDirection\<close> when that is truthy, and otherwise (absent, or any falsy value) the
  direction opposite to the normalized orientation that the constructor gave the element.
\<close>

theorem loadModule_labelDirection:
  assumes "construct env data scope h = Inr (obj, h0)" and "obj < length (objs h0)"
  shows "\<exists>h1. setDirections env data obj h0 = Inr ((), h1) \<and>
           loadModule env data scope h =
             andThen (setDelay data obj) (\<lambda>_. restoreElement env data obj) h1 \<and>
           propOf h1 obj ''labelDirection'' =
             (if truthy (e_labelDirection data) then e_labelDirection data
              else oppositeDirection env (fixDirection env (propOf h0 obj ''direction'')))"
proof -
  from setDirections_sets [OF assms(2), of env data]
  obtain h1 where h1: "setDirections env data obj h0 = Inr ((), h1)"
    and ld: "propOf h1 obj ''labelDirection'' =
             (if truthy (e_labelDirection data) then e_labelDirection data
              else oppositeDirection env (fixDirection env (propOf h0 obj ''direction'')))"
    by blast
  have "loadModule env data scope h =
          andThen (setDelay data obj) (\<lambda>_. restoreElement env data obj) h1"
    using assms(1) h1 by (simp add: loadModule_def andThen_def)
  with h1 ld show ?thesis by blast
qed

text \<open>
  The delay right after its assignment: \<open>loadModule\<close> reaches a heap \<open>h2\<close> from which
  it goes on with \<open>obj.fixDirection()\<close> and the restoring of the other values, and in
  \<open>h2\<close> the propagation delay of the element is \<open>0\<close> when the record's
  \<open>propagationDelay\<close> is exactly \<open>0\<close>, the record's value when that is truthy, and
  otherwise the delay that the constructor set.
\<close>

lemma loadModule_delay_assigned:
  assumes "construct env data scope h = Inr (obj, h0)" and "obj < length (objs h0)"
  shows "\<exists>h2. andThen (setDirections env data obj) (\<lambda>_. setDelay data obj) h0 = Inr ((), h2) \<and>
           loadModule env data scope h = restoreElement env data obj h2 \<and>
           propOf h2 obj ''propagationDelay'' =
             (if e_propagationDelay data = JNum 0 then JNum 0
              else if truthy (e_propagationDelay data) then e_propagationDelay data
              else propOf h0 obj ''propagationDelay'')"
proof -
  from setDirections_sets [OF assms(2), of env data]
  obtain h1 where h1: "setDirections env data obj h0 = Inr ((), h1)"
    and len: "length (objs h1) = length (objs h0)"
    and same: "propOf h1 obj ''propagationDelay'' = propOf h0 obj ''propagationDelay''"
    by blast
  from assms(2) len have "obj < length (objs h1)" by simp
  from setDelay_sets [OF this, of data]
  obtain h2 where h2: "setDelay data obj h1 = Inr ((), h2)"
    and pd: "propOf h2 obj ''propagationDelay'' =
             (if e_propagationDelay data = JNum 0 then JNum 0
              else if truthy (e_propagationDelay data) then e_propagationDelay data
              else propOf h1 obj ''propagationDelay'')"
    by blast
  have run: "andThen (setDirections env data obj) (\<lambda>_. setDelay data obj) h0 = Inr ((), h2)"
    using h1 h2 by (simp add: andThen_def)
  have "loadModule env data scope h = restoreElement env data obj h2"
    using assms(1) h1 h2 by (simp add: loadModule_def andThen_def)
  with run pd same show ?thesis by auto
qed

lemma construct_example:
  "construct exEnv (plainElement ''Input'') 0 oneScope =
     Inr (1, heapOf (construct exEnv (plainElement ''Input'') 0 oneScope))"
  by code_simp

lemma construct_example_live:
  "(1::nat) < length (objs (heapOf (construct exEnv (plainElement ''Input'') 0 oneScope)))"
  by code_simp

lemma construct_example_direction:
  "propOf (heapOf (construct exEnv (plainElement ''Input'') 0 oneScope)) 1 ''direction'' =
     JStr ''RIGHT''"
  by code_simp

lemma construct_example_delay:
  "propOf (heapOf (construct exEnv (plainElement ''Input'') 0 oneScope)) 1
     ''propagationDelay'' = JNum 10"
  by code_simp

lemma construct_zero:
  "construct exEnv zeroDelayRecord 0 oneScope =
     Inr (1, heapOf (construct exEnv zeroDelayRecord 0 oneScope))"
  by code_simp

lemma construct_zero_live:
  "(1::nat) < length (objs (heapOf (construct exEnv zeroDelayRecord 0 oneScope)))"
  by code_simp

lemma plainElement_labelDirection: "e_labelDirection (plainElement t) = JUndefined"
  by (simp add: plainElement_def)

lemma exEnv_tables:
  "oppositeDirection exEnv (fixDirection exEnv (JStr ''RIGHT'')) = JStr ''LEFT''"
  by (simp add: exEnv_def exFixDirection_def exOppositeDirection_def objGet_def)

theorem loadModule_labelDirection_witness:
  "\<exists>h1. setDirections exEnv (plainElement ''Input'') 1
           (heapOf (construct exEnv (plainElement ''Input'') 0 oneScope)) = Inr ((), h1) \<and>
        propOf h1 1 ''labelDirection'' = JStr ''LEFT''"
  using loadModule_labelDirection [OF construct_example construct_example_live]
  unfolding plainElement_labelDirection construct_example_direction exEnv_tables
  by auto

theorem labelDirection_explicit_empty_counterexample:
  "e_labelDirection emptyDirectionRecord = JStr [] \<and>
   finalProp (loadModule exEnv emptyDirectionRecord 0 oneScope) 1 ''labelDirection'' =
     Some (JStr ''LEFT'')"
  by code_simp

lemma zeroDelayRecord_delay: "e_propagationDelay zeroDelayRecord = JNum 0"
  by (simp add: zeroDelayRecord_def)

lemma plainElement_delay: "e_propagationDelay (plainElement t) = JUndefined"
  by (simp add: plainElement_def)

section \<open>The cleanup pass\<close>

text \<open>
  C3. The cleanup pass does not run to a fixed point. On a node list of two nodes that
  both have a circuit element as parent and a tag other than intermediate, the pass
  deletes the first, sets \<open>i = 0\<close>, and the loop's \<open>i++\<close> makes the next index \<open>1\<close>,
  which is past the end of the list of one node: the pass returns, and the node list still
  holds a node that the test of the pass selects.
\<close>

theorem removeBugNodes_leaves_bug_node:
  "isBugNode (ORef 1) twoBugNodes = Inr (True, twoBugNodes) \<and>
   isBugNode (ORef 2) twoBugNodes = Inr (True, twoBugNodes) \<and>
   removeBugNodes 0 twoBugNodes = Inr ((), twoBugNodes\<lparr>arrs := [[ORef 2]]\<rparr>) \<and>
   isBugNode (ORef 2) (twoBugNodes\<lparr>arrs := [[ORef 2]]\<rparr>) =
     Inr (True, twoBugNodes\<lparr>arrs := [[ORef 2]]\<rparr>)"
  by code_simp

section \<open>Moving a subcircuit\<close>

text \<open>
  C2. A move to the root of a subcircuit that has no map entry, and so is in the root
  already, is not a no-op: the current folder is computed as the string \<open>root\<close>, the
  destination is \<open>null\<close>, the two differ, and the call goes on to render the panel,
  schedule a backup and show the message. The map is unchanged.
\<close>

theorem move_root_to_root_schedules_backup:
  "mapOf rootedScope = [] \<and>
   moveSubcircuitToFolder sampleScopes None True ''sub1'' JNull (Some rootedScope) =
     \<lparr>o_scope = Some rootedScope,
      o_events = [RenderFolderPanel (Some (buildTree sampleScopes rootedScope)),
                  ScheduleBackup,
                  ShowMessage ''Subcircuit moved to root successfully''],
      o_return = JUndefined\<rparr>"
  by code_simp


text \<open>
  A move of a loaded subcircuit to the folder that its map entry names changes nothing
  and has no effect: no rendering, no backup, no message.
\<close>

theorem move_to_current_folder_noop:
  assumes "subcircuitId \<noteq> []" and "loaded pg subcircuitId"
    and "subcircuitMap sc = Some m" and "objGet m subcircuitId = folderId"
    and "truthy folderId"
  shows "moveSubcircuitToFolder pg global ready subcircuitId folderId (Some sc) =
           \<lparr>o_scope = Some sc, o_events = [], o_return = JUndefined\<rparr>"
  using assms by (simp add: moveSubcircuitToFolder_def mapOf_def jsOr_def)

theorem move_to_current_folder_noop_witness:
  "moveSubcircuitToFolder sampleScopes None True ''sub1'' (JStr ''fA'') (Some filedScope) =
     \<lparr>o_scope = Some filedScope, o_events = [], o_return = JUndefined\<rparr>"
proof -
  have a: "''sub1'' \<noteq> []" by simp
  have b: "loaded sampleScopes ''sub1''" by code_simp
  have c: "subcircuitMap filedScope = Some [(''sub1'', JStr ''fA'')]" by (simp add: filedScope_def)
  have d: "objGet [(''sub1'', JStr ''fA'')] ''sub1'' = JStr ''fA''" by (simp add: objGet_def)
  have e: "truthy (JStr ''fA'')" by simp
  show ?thesis by (rule move_to_current_folder_noop [OF a b c d e])
qed




text \<open>
  A destination \<open>undefined\<close> is \<open>===\<close> to the id of a folder without id, so this move
  goes through: the map gets the entry, the panel is rendered and a backup is scheduled.
  With the empty string as destination no id matches and the move fails.
\<close>

lemma move_to_folder_without_id:
  "moveSubcircuitToFolder sampleScopes None True ''sub1'' JUndefined (Some unnamedFolderScope) =
     \<lparr>o_scope = Some (unnamedFolderScope\<lparr>subcircuitMap := Some [(''sub1'', JUndefined)]\<rparr>),
      o_events = [RenderFolderPanel (Some (buildTree sampleScopes
                     (unnamedFolderScope\<lparr>subcircuitMap := Some [(''sub1'', JUndefined)]\<rparr>))),
                  ScheduleBackup,
                  ShowMessage ''Subcircuit moved to root successfully''],
      o_return = JUndefined\<rparr> \<and>
   moveSubcircuitToFolder sampleScopes None True ''sub1'' (JStr []) (Some unnamedFolderScope) =
     \<lparr>o_scope = Some unnamedFolderScope, o_events = [ConsoleError], o_return = JUndefined\<rparr>"
  by code_simp

section \<open>The folder tree\<close>

lemma ensureCollections_reads [simp]:
  "foldersOf (ensureCollections sc) = foldersOf sc"
  "mapOf (ensureCollections sc) = mapOf sc"
  "sc_id (ensureCollections sc) = sc_id sc"
  by (simp_all add: ensureCollections_def foldersOf_def mapOf_def split: option.splits)



text \<open>The table of folder elements after the first pass.\<close>

lemma tableElem_tableSet:
  "tableElem (tableSet t k e) x = (if x = k then Some e else tableElem t x)"
  by (simp add: tableElem_def tableSet_def update_conv')

lemma tableGet_Found: "tableGet pg t k = Found e \<longleftrightarrow> tableElem t k = Some e"
  by (simp add: tableGet_def split: option.splits)



lemma createElements_range:
  "tableElem (fst (createElements pg m k0 fs (t0, its0))) x = Some (FolderElem c) \<Longrightarrow>
   tableElem t0 x = Some (FolderElem c) \<or>
   (\<exists>i f'. i < length fs \<and> c = k0 + i \<and> fs ! i = Some f' \<and> identKey (f_id f') = x \<and>
            truthy (identVal (f_id f')))"
proof (induction fs arbitrary: k0 t0 its0)
  case Nil
  then show ?case by simp
next
  case (Cons a fs)
  have shift: "tableElem t1 x = Some (FolderElem c) \<or>
      (\<exists>i f'. i < length fs \<and> c = Suc k0 + i \<and> fs ! i = Some f' \<and> identKey (f_id f') = x \<and>
               truthy (identVal (f_id f')))"
    if "tableElem (fst (createElements pg m (Suc k0) fs (t1, its1))) x = Some (FolderElem c)"
    for t1 its1
    using Cons.IH [OF that] .
  have lift: "\<exists>i f'. i < length (a # fs) \<and> c = k0 + i \<and> (a # fs) ! i = Some f' \<and>
               identKey (f_id f') = x \<and> truthy (identVal (f_id f'))"
    if "\<exists>i f'. i < length fs \<and> c = Suc k0 + i \<and> fs ! i = Some f' \<and> identKey (f_id f') = x \<and>
               truthy (identVal (f_id f'))"
  proof -
    from that obtain i f' where "i < length fs" "c = Suc k0 + i" "fs ! i = Some f'"
      "identKey (f_id f') = x" "truthy (identVal (f_id f'))" by blast
    then have "Suc i < length (a # fs) \<and> c = k0 + Suc i \<and> (a # fs) ! Suc i = Some f' \<and>
               identKey (f_id f') = x \<and> truthy (identVal (f_id f'))" by simp
    then show ?thesis by blast
  qed
  show ?case
  proof (cases a)
    case None
    with Cons.prems
    have "tableElem (fst (createElements pg m (Suc k0) fs (t0, its0))) x = Some (FolderElem c)"
      by simp
    from shift [OF this] lift show ?thesis by blast
  next
    case (Some g)
    show ?thesis
    proof (cases "truthy (identVal (f_id g))")
      case False
      with Some Cons.prems
      have "tableElem (fst (createElements pg m (Suc k0) fs (t0, its0))) x = Some (FolderElem c)"
        by simp
      from shift [OF this] lift show ?thesis by blast
    next
      case True
      with Some Cons.prems
      have "tableElem (fst (createElements pg m (Suc k0) fs
                      (tableSet t0 (identKey (f_id g)) (FolderElem k0),
                       its0 @ [(k0, folderSubcircuits pg m (f_id g))]))) x =
              Some (FolderElem c)" by simp
      from shift [OF this] show ?thesis
      proof
        assume u: "tableElem (tableSet t0 (identKey (f_id g)) (FolderElem k0)) x =
                     Some (FolderElem c)"
        show ?thesis
        proof (cases "x = identKey (f_id g)")
          case eq: True
          with u have "c = k0" by (simp add: tableElem_tableSet)
          with eq True Some
          have "0 < length (a # fs) \<and> c = k0 + 0 \<and> (a # fs) ! 0 = Some g \<and>
                 identKey (f_id g) = x \<and> truthy (identVal (f_id g))" by simp
          then show ?thesis by blast
        next
          case False
          with u show ?thesis by (simp add: tableElem_tableSet)
        qed
      next
        assume "\<exists>i f'. i < length fs \<and> c = Suc k0 + i \<and> fs ! i = Some f' \<and>
                  identKey (f_id f') = x \<and> truthy (identVal (f_id f'))"
        from lift [OF this] show ?thesis by blast
      qed
    qed
  qed
qed



text \<open>The hierarchy pass.\<close>

lemma placeFolder_Some:
  "placeFolder pg fe g ps0 = Some ps1 \<Longrightarrow>
   \<exists>c e. tableElem fe (identKey (f_id g)) = Some (FolderElem c) \<and> ps1 = (c, e) # ps0"
  by (auto simp: placeFolder_def tableGet_Found split: lookup.splits elem.splits if_splits)








text \<open>
  A folder whose parent id is the name of a member that the table of folder elements
  inherits (here \<open>constructor\<close>): the read finds that member, the call of its
  \<open>querySelector\<close> throws, and the folder is attached nowhere.
\<close>

lemma inherited_parent_aborts_pass:
  "createFolderStructure sampleScopes None (Some inheritedParentScope) =
     Inr (inheritedParentScope,
          \<lparr>rootItems = [''sub1''], folderItems = [(0, [])], parents = [],
             folderError = True\<rparr>)"
  by code_simp

text \<open>
  A folder with the id \<open>__proto__\<close> becomes the prototype of the table. It is placed
  under the root, a folder that names it as parent is placed in it, and a number as
  parent id finds the folder whose id is the numeral; but a folder whose parent id names
  a member of that element makes the pass throw. The scope id is a number here, so the
  test that skips the current circuit never holds and \<open>main\<close> is listed under the root.
\<close>

lemma prototype_named_folder:
  "buildTree sampleScopes
     \<lparr>sc_id = JNum 7,
      folders = Some [Some \<lparr>f_id = IdStr ''__proto__'', f_name = ''P'', f_parentId = IdUndefined\<rparr>,
                      Some \<lparr>f_id = IdStr ''5'', f_name = ''Q'', f_parentId = IdStr ''__proto__''\<rparr>,
                      Some \<lparr>f_id = IdStr ''x'', f_name = ''R'', f_parentId = IdNum 5\<rparr>,
                      Some \<lparr>f_id = IdStr ''y'', f_name = ''S'', f_parentId = IdStr ''className''\<rparr>],
      subcircuitMap = Some [(''sub1'', JStr ''5'')]\<rparr> =
   \<lparr>rootItems = [''main''],
    folderItems = [(0, []), (1, [''sub1'']), (2, []), (3, [])],
    parents = [(2, FolderElem 1), (1, FolderElem 0), (0, RootElem)],
    folderError = True\<rparr>"
  by code_simp

text \<open>The order of the own property names.\<close>

lemma objKeys_order:
  "objKeys [(''b'', JNull), (''10'', JNull), (''2'', JNull), (''01'', JNull), (''a'', JNull)] =
     [''2'', ''10'', ''b'', ''01'', ''a'']"
  by code_simp

text \<open>
  What the hierarchy pass places. It only places elements that the table holds under the
  id of a folder, so an entry that is \<open>null\<close> or has no id is attached nowhere and has no
  container; and when a step throws, the tree has the placements of the steps before it
  and no other.
\<close>

lemma organize_keys:
  "organize pg fe fs ps0 = (ps, b) \<Longrightarrow> map_of ps c = Some e \<Longrightarrow>
   map_of ps0 c = Some e \<or>
   (\<exists>g. Some g \<in> set fs \<and> truthy (identVal (f_id g)) \<and>
        tableElem fe (identKey (f_id g)) = Some (FolderElem c))"
proof (induction fs arbitrary: ps0)
  case Nil
  then show ?case by simp
next
  case (Cons a fs)
  show ?case
  proof (cases a)
    case None
    with Cons.prems have "organize pg fe fs ps0 = (ps, b)" by simp
    from Cons.IH [OF this Cons.prems(2)] show ?thesis by auto
  next
    case (Some g)
    show ?thesis
    proof (cases "truthy (identVal (f_id g))")
      case False
      with Some Cons.prems have "organize pg fe fs ps0 = (ps, b)" by simp
      from Cons.IH [OF this Cons.prems(2)] show ?thesis by auto
    next
      case True
      show ?thesis
      proof (cases "placeFolder pg fe g ps0")
        case None
        with Some True Cons.prems show ?thesis by simp
      next
        case placed: (Some ps1)
        from placeFolder_Some [OF placed]
        obtain c' e' where c': "tableElem fe (identKey (f_id g)) = Some (FolderElem c')"
          "ps1 = (c', e') # ps0"
          by blast
        from placed Some True Cons.prems(1) have "organize pg fe fs ps1 = (ps, b)" by simp
        from Cons.IH [OF this Cons.prems(2)]
        show ?thesis
        proof
          assume "map_of ps1 c = Some e"
          with c' Some True show ?thesis by (cases "c = c'") auto
        next
          assume "\<exists>g. Some g \<in> set fs \<and> truthy (identVal (f_id g)) \<and>
                       tableElem fe (identKey (f_id g)) = Some (FolderElem c)"
          then show ?thesis by auto
        qed
      qed
    qed
  qed
qed

lemma createElements_items_range:
  "map_of (snd (createElements pg m k0 fs (t0, its0))) i = Some v \<Longrightarrow>
   map_of its0 i = Some v \<or>
   (\<exists>j f'. j < length fs \<and> i = k0 + j \<and> fs ! j = Some f' \<and> truthy (identVal (f_id f')))"
proof (induction fs arbitrary: k0 t0 its0)
  case Nil
  then show ?case by simp
next
  case (Cons a fs)
  have lift: "\<exists>j f'. j < length (a # fs) \<and> i = k0 + j \<and> (a # fs) ! j = Some f' \<and>
                truthy (identVal (f_id f'))"
    if "\<exists>j f'. j < length fs \<and> i = Suc k0 + j \<and> fs ! j = Some f' \<and> truthy (identVal (f_id f'))"
  proof -
    from that obtain j f' where "j < length fs" "i = Suc k0 + j" "fs ! j = Some f'"
      "truthy (identVal (f_id f'))" by blast
    then have "Suc j < length (a # fs) \<and> i = k0 + Suc j \<and> (a # fs) ! Suc j = Some f' \<and>
               truthy (identVal (f_id f'))" by simp
    then show ?thesis by blast
  qed
  show ?case
  proof (cases a)
    case None
    with Cons.prems
    have "map_of (snd (createElements pg m (Suc k0) fs (t0, its0))) i = Some v" by simp
    from Cons.IH [OF this] lift show ?thesis by blast
  next
    case (Some g)
    show ?thesis
    proof (cases "truthy (identVal (f_id g))")
      case False
      with Some Cons.prems
      have "map_of (snd (createElements pg m (Suc k0) fs (t0, its0))) i = Some v" by simp
      from Cons.IH [OF this] lift show ?thesis by blast
    next
      case True
      with Some Cons.prems
      have "map_of (snd (createElements pg m (Suc k0) fs
                      (tableSet t0 (identKey (f_id g)) (FolderElem k0),
                       its0 @ [(k0, folderSubcircuits pg m (f_id g))]))) i = Some v" by simp
      from Cons.IH [OF this] show ?thesis
      proof
        assume "map_of (its0 @ [(k0, folderSubcircuits pg m (f_id g))]) i = Some v"
        then have "map_of its0 i = Some v \<or> i = k0"
          by (auto simp: map_add_Some_iff split: if_splits)
        then show ?thesis
        proof
          assume "map_of its0 i = Some v"
          then show ?thesis by simp
        next
          assume "i = k0"
          with Some True
          have "0 < length (a # fs) \<and> i = k0 + 0 \<and> (a # fs) ! 0 = Some g \<and>
                truthy (identVal (f_id g))" by simp
          then show ?thesis by blast
        qed
      next
        assume "\<exists>j f'. j < length fs \<and> i = Suc k0 + j \<and> fs ! j = Some f' \<and>
                  truthy (identVal (f_id f'))"
        from lift [OF this] show ?thesis by blast
      qed
    qed
  qed
qed

lemma entry_without_id_not_shown:
  assumes made: "createFolderStructure pg global (Some sc) = Inr (sc', d)"
    and entry: "foldersOf sc ! k = None \<or>
                (\<exists>f. foldersOf sc ! k = Some f \<and> \<not> truthy (identVal (f_id f)))"
  shows "map_of (parents d) k = None \<and> map_of (folderItems d) k = None"
proof -
  define fs where "fs = foldersOf sc"
  define t0 where "t0 = \<lparr>own = [(''root'', RootElem)], proto = None\<rparr>"
  define made1 where "made1 = createElements pg (mapOf sc) 0 fs (t0, [])"
  define fe where "fe = fst made1"
  from made have d: "d = buildTree pg (ensureCollections sc)"
    by (auto simp: createFolderStructure_def)
  have par: "parents d = fst (organize pg fe fs [])"
    and its: "folderItems d = snd made1"
    by (simp_all add: d buildTree_def fe_def made1_def fs_def t0_def case_prod_beta)
  obtain ps b where run: "organize pg fe fs [] = (ps, b)" by (cases "organize pg fe fs []")
  have "map_of ps k = None"
  proof (rule ccontr)
    assume "map_of ps k \<noteq> None"
    then obtain e where "map_of ps k = Some e" by auto
    from organize_keys [OF run this]
    obtain g :: folder where "tableElem fe (identKey (f_id g)) = Some (FolderElem k)" by auto
    then have "tableElem (fst (createElements pg (mapOf sc) 0 fs (t0, [])))
                 (identKey (f_id g)) = Some (FolderElem k)"
      by (simp add: fe_def made1_def)
    from createElements_range [OF this]
    have "\<exists>f'. fs ! k = Some f' \<and> truthy (identVal (f_id f'))"
      by (auto simp: t0_def tableElem_def split: if_splits)
    with entry show False by (auto simp: fs_def)
  qed
  moreover have "map_of (snd made1) k = None"
  proof (rule ccontr)
    assume "map_of (snd made1) k \<noteq> None"
    then obtain v where "map_of (snd (createElements pg (mapOf sc) 0 fs (t0, []))) k = Some v"
      by (auto simp: made1_def)
    from createElements_items_range [OF this]
    have "\<exists>f'. fs ! k = Some f' \<and> truthy (identVal (f_id f'))" by auto
    with entry show False by (auto simp: fs_def)
  qed
  ultimately show ?thesis using par its run by simp
qed

lemma organize_failed:
  "organize pg fe fs ps0 = (ps, True) \<Longrightarrow>
   \<exists>j g. j < length fs \<and> fs ! j = Some g \<and> truthy (identVal (f_id g)) \<and>
         organize pg fe (take j fs) ps0 = (ps, False) \<and> placeFolder pg fe g ps = None"
proof (induction fs arbitrary: ps0)
  case Nil
  then show ?case by simp
next
  case (Cons a fs)
  have lift: "\<exists>j g. j < length (a # fs) \<and> (a # fs) ! j = Some g \<and> truthy (identVal (f_id g)) \<and>
         organize pg fe (take j (a # fs)) ps0 = (ps, False) \<and> placeFolder pg fe g ps = None"
    if rest: "organize pg fe fs ps1 = (ps, True)"
      and head: "\<And>xs. organize pg fe (a # xs) ps0 = organize pg fe xs ps1"
    for ps1
  proof -
    from Cons.IH [OF rest] obtain j g where "j < length fs" "fs ! j = Some g"
      "truthy (identVal (f_id g))" "organize pg fe (take j fs) ps1 = (ps, False)"
      "placeFolder pg fe g ps = None" by blast
    with head [of "take j fs"]
    have "Suc j < length (a # fs) \<and> (a # fs) ! Suc j = Some g \<and> truthy (identVal (f_id g)) \<and>
         organize pg fe (take (Suc j) (a # fs)) ps0 = (ps, False) \<and> placeFolder pg fe g ps = None"
      by simp
    then show ?thesis by blast
  qed
  show ?case
  proof (cases a)
    case None
    with Cons.prems have "organize pg fe fs ps0 = (ps, True)" by simp
    from lift [OF this] None show ?thesis by simp
  next
    case (Some g)
    show ?thesis
    proof (cases "truthy (identVal (f_id g))")
      case False
      with Some Cons.prems have "organize pg fe fs ps0 = (ps, True)" by simp
      from lift [OF this] Some False show ?thesis by simp
    next
      case True
      show ?thesis
      proof (cases "placeFolder pg fe g ps0")
        case None
        with Some True Cons.prems have "ps = ps0" by simp
        with None Some True
        have "0 < length (a # fs) \<and> (a # fs) ! 0 = Some g \<and> truthy (identVal (f_id g)) \<and>
              organize pg fe (take 0 (a # fs)) ps0 = (ps, False) \<and> placeFolder pg fe g ps = None"
          by simp
        then show ?thesis by blast
      next
        case placed: (Some ps1)
        with Some True Cons.prems have "organize pg fe fs ps1 = (ps, True)" by simp
        from lift [OF this] placed Some True show ?thesis by simp
      qed
    qed
  qed
qed

section \<open>Frame lemmas\<close>

lemma keepsI:
  "(\<And>h v h'. s < length (objs h) \<Longrightarrow> m h = Inr (v, h') \<Longrightarrow>
      s < length (objs h') \<and> fieldsOf (objs h' ! s) = fieldsOf (objs h ! s)) \<Longrightarrow> keeps s m"
  by (simp add: keeps_def)

lemma keepsD:
  "keeps s m \<Longrightarrow> s < length (objs h) \<Longrightarrow> m h = Inr (v, h') \<Longrightarrow>
   s < length (objs h') \<and> fieldsOf (objs h' ! s) = fieldsOf (objs h ! s)"
  by (simp add: keeps_def)

lemma objsKept_keeps: "objsKept m \<Longrightarrow> keeps s m"
  by (auto simp: objsKept_def keeps_def)

lemma objsKept_ret [simp]: "objsKept (ret v)"
  by (simp add: objsKept_def ret_def)

lemma objsKept_throw [simp]: "objsKept (throw e)"
  by (simp add: objsKept_def throw_def)

lemma objsKept_andThen: "objsKept m \<Longrightarrow> (\<And>v. objsKept (f v)) \<Longrightarrow> objsKept (andThen m f)"
  unfolding objsKept_def andThen_Inr by metis

lemma objsKept_readObj [simp]: "objsKept (readObj r)"
  by (auto simp: objsKept_def readObj_def split: if_splits)

lemma objsKept_readArr [simp]: "objsKept (readArr a)"
  by (auto simp: objsKept_def readArr_def split: if_splits)

lemma objsKept_writeArr [simp]: "objsKept (writeArr a xs)"
  by (auto simp: objsKept_def writeArr_def split: if_splits)

lemma objsKept_newArr [simp]: "objsKept (newArr xs)"
  by (auto simp: objsKept_def newArr_def)

lemma objsKept_nextId [simp]: "objsKept (nextId env)"
  by (auto simp: objsKept_def nextId_def)

lemma objsKept_setGlobalScope [simp]: "objsKept (setGlobalScope v)"
  by (auto simp: objsKept_def setGlobalScope_def)

lemma objsKept_getProp [simp]: "objsKept (getProp v k)"
  by (cases v) (simp_all add: getProp_def objsKept_andThen)

lemma objsKept_arrayOf [simp]: "objsKept (arrayOf v)"
  by (cases v) (simp_all add: arrayOf_def)

lemma objsKept_spreadProps [simp]: "objsKept (spreadProps v)"
  by (cases v) (simp_all add: spreadProps_def objsKept_andThen)

lemma objsKept_indexRead [simp]: "objsKept (indexRead v i)"
  by (cases v) (simp_all add: indexRead_def objsKept_andThen)

lemma objsKept_forEach: "(\<And>x. objsKept (m x)) \<Longrightarrow> objsKept (forEach m xs)"
  by (induction xs) (simp_all add: objsKept_andThen)

lemma keeps_ret [simp]: "keeps s (ret v)"
  by (simp add: objsKept_keeps)

lemma keeps_throw [simp]: "keeps s (throw e)"
  by (simp add: objsKept_keeps)

lemma keeps_andThen: "keeps s m \<Longrightarrow> (\<And>v. keeps s (f v)) \<Longrightarrow> keeps s (andThen m f)"
proof (rule keepsI)
  fix h v h'
  assume m: "keeps s m" and f: "\<And>v. keeps s (f v)"
    and s: "s < length (objs h)" and run: "andThen m f h = Inr (v, h')"
  from run obtain w h1 where 1: "m h = Inr (w, h1)" and 2: "f w h1 = Inr (v, h')"
    by (auto simp: andThen_Inr)
  from keepsD [OF m s 1] have 3: "s < length (objs h1)"
    "fieldsOf (objs h1 ! s) = fieldsOf (objs h ! s)" by simp_all
  from keepsD [OF f 3(1) 2] 3(2)
  show "s < length (objs h') \<and> fieldsOf (objs h' ! s) = fieldsOf (objs h ! s)" by simp
qed

lemma keeps_andThen_new:
  "keeps s m \<Longrightarrow> makesNew m \<Longrightarrow> (\<And>v. v \<noteq> s \<Longrightarrow> keeps s (f v)) \<Longrightarrow> keeps s (andThen m f)"
proof (rule keepsI)
  fix h v h'
  assume m: "keeps s m" and new: "makesNew m" and f: "\<And>v. v \<noteq> s \<Longrightarrow> keeps s (f v)"
    and s: "s < length (objs h)" and run: "andThen m f h = Inr (v, h')"
  from run obtain w h1 where 1: "m h = Inr (w, h1)" and 2: "f w h1 = Inr (v, h')"
    by (auto simp: andThen_Inr)
  from new 1 have "length (objs h) \<le> w" by (auto simp: makesNew_def)
  with s have "w \<noteq> s" by simp
  from keepsD [OF m s 1] have 3: "s < length (objs h1)"
    "fieldsOf (objs h1 ! s) = fieldsOf (objs h ! s)" by simp_all
  from keepsD [OF f [OF \<open>w \<noteq> s\<close>] 3(1) 2] 3(2)
  show "s < length (objs h') \<and> fieldsOf (objs h' ! s) = fieldsOf (objs h ! s)" by simp
qed

lemma keeps_forEach: "(\<And>x. keeps s (m x)) \<Longrightarrow> keeps s (forEach m xs)"
  by (induction xs) (simp_all add: keeps_andThen)

lemma keeps_newObj [simp]: "keeps s (newObj ps)"
  by (auto simp: keeps_def newObj_def nth_append)

lemma makesNew_newObj [simp]: "makesNew (newObj ps)"
  by (auto simp: makesNew_def newObj_def)

lemma keeps_setProp_other: "r \<noteq> s \<Longrightarrow> keeps s (setProp r k v)"
  by (auto simp: keeps_def setProp_def split: if_splits)

lemma keeps_setProp_key: "\<not> List.member topFields k \<Longrightarrow> keeps s (setProp r k v)"
  by (auto simp: keeps_def setProp_def fieldsOf_def objGet_objSet nth_list_update
        split: if_splits)

lemma last_decimal: "last (decimal n) = digit (n mod 10)"
  by (subst decimal.simps) simp

lemma digit_is_digit: "List.member ''0123456789'' (digit n)"
proof -
  have "n mod 10 < length ''0123456789''" by simp
  then have "''0123456789'' ! (n mod 10) \<in> set ''0123456789''" by (rule nth_mem)
  then show ?thesis by (simp add: digit_def)
qed

lemma decimal_not_top: "\<not> List.member topFields (decimal i)"
proof
  assume "List.member topFields (decimal i)"
  then have "List.member (map last topFields) (last (decimal i))" by auto
  then have "\<not> List.member ''0123456789'' (last (decimal i))"
    by (auto simp: topFields_def)
  with digit_is_digit [of "i mod 10"] show False by (simp add: last_decimal)
qed

lemmas keeps_basic =
  objsKept_keeps [OF objsKept_getProp] objsKept_keeps [OF objsKept_readObj]
  objsKept_keeps [OF objsKept_readArr] objsKept_keeps [OF objsKept_writeArr]
  objsKept_keeps [OF objsKept_newArr] objsKept_keeps [OF objsKept_nextId]
  objsKept_keeps [OF objsKept_setGlobalScope] objsKept_keeps [OF objsKept_arrayOf]
  objsKept_keeps [OF objsKept_spreadProps] objsKept_keeps [OF objsKept_indexRead]

lemma makesNew_throw [simp]: "makesNew (throw e)"
  by (simp add: makesNew_def throw_def)

lemma makesNew_after_read:
  "objsKept m \<Longrightarrow> (\<And>v. makesNew (f v)) \<Longrightarrow> makesNew (andThen m f)"
  unfolding makesNew_def objsKept_def andThen_Inr by metis

lemma keeps_setDirections: "obj \<noteq> s \<Longrightarrow> keeps s (setDirections env data obj)"
  by (auto simp: setDirections_def intro!: keeps_andThen keeps_setProp_other keeps_basic)

lemma keeps_setDelay: "obj \<noteq> s \<Longrightarrow> keeps s (setDelay data obj)"
  by (auto simp: setDelay_def intro!: keeps_andThen keeps_setProp_other keeps_basic)

lemma keeps_restoreValues: "obj \<noteq> s \<Longrightarrow> keeps s (restoreValues cd obj)"
  by (auto simp: restoreValues_def split: option.splits
        intro!: keeps_forEach keeps_setProp_other)

lemma keeps_attachMetadata: "obj \<noteq> s \<Longrightarrow> keeps s (attachMetadata data obj)"
  by (auto simp: attachMetadata_def intro!: keeps_setProp_other)

lemma keeps_indexWrite:
  assumes "obj \<noteq> s"
  shows "keeps s (indexWrite obj node target i v)"
proof (cases target)
  case (ORef r)
  then show ?thesis
    by (simp add: indexWrite_def keeps_setProp_key [OF decimal_not_top])
next
  case (ARef a)
  then show ?thesis
    by (auto simp: indexWrite_def intro!: keeps_andThen keeps_basic)
qed (simp_all add: indexWrite_def keeps_setProp_other [OF assms])

lemma keeps_replaceNode:
  assumes "collaboratorsKeep env s" and "obj \<noteq> s"
  shows "keeps s (replaceNode env ns obj node)"
proof -
  from assms(1) have rep: "\<And>old n. keeps s (replace env old n)"
    by (simp add: collaboratorsKeep_def)
  have single: "keeps s (andThen (getProp (ORef obj) node) (\<lambda>old.
                  andThen (replace env old n) (\<lambda>new. setProp obj node new)))" for n
    by (intro keeps_andThen keeps_basic rep keeps_setProp_other assms(2))
  have many: "keeps s (forEach (\<lambda>i.
               andThen (getProp (ORef obj) node) (\<lambda>target.
               andThen (indexRead target i) (\<lambda>old.
               andThen (replace env old (n ! i)) (\<lambda>new.
                 indexWrite obj node target i new)))) [0 ..< length n])" for n
    by (intro keeps_forEach keeps_andThen keeps_basic rep keeps_indexWrite assms(2))
  show ?thesis
    unfolding replaceNode_def
    by (cases "objGet ns node") (simp_all add: single many)
qed

lemma keeps_replaceNodes:
  "collaboratorsKeep env s \<Longrightarrow> obj \<noteq> s \<Longrightarrow> keeps s (replaceNodes env cd obj)"
  by (auto simp: replaceNodes_def split: option.splits
        intro!: keeps_forEach keeps_replaceNode)

lemma keeps_restoreElement:
  assumes "collaboratorsKeep env s" and "obj \<noteq> s"
  shows "keeps s (restoreElement env data obj)"
proof -
  from assms(1) have fixd: "keeps s (elemFixDirection env obj)"
    by (simp add: collaboratorsKeep_def)
  show ?thesis
    unfolding restoreElement_def
    by (cases "e_customData data")
       (auto intro!: keeps_andThen fixd keeps_restoreValues keeps_replaceNodes
          keeps_attachMetadata assms)
qed

lemma construct_new:
  assumes "collaboratorsKeep env s"
  shows "keeps s (construct env data scope) \<and> makesNew (construct env data scope)"
proof -
  from assms have ctor: "\<And>tag ctor x y sc ps. modules env tag = Some ctor \<Longrightarrow>
      keeps s (ctor x y sc ps) \<and> makesNew (ctor x y sc ps)"
    by (simp add: collaboratorsKeep_def)
  show ?thesis
    unfolding construct_def
    by (auto split: option.splits dest: ctor)
qed

lemma keeps_loadModule:
  assumes "collaboratorsKeep env s"
  shows "keeps s (loadModule env data scope)"
  unfolding loadModule_def
  by (intro keeps_andThen_new keeps_andThen construct_new [OF assms, THEN conjunct1]
        construct_new [OF assms, THEN conjunct2] keeps_setDirections keeps_setDelay
        keeps_restoreElement assms)

lemma objsKept_removeBugNodes: "objsKept (removeBugNodes scope)"
proof -
  have loop: "objsKept (\<lambda>h. case removeBugLoop h 0 (length ns) ns of
                               Inl e \<Rightarrow> Inl e | Inr ns' \<Rightarrow> writeArr a ns' h)" for ns a
    using objsKept_writeArr
    by (auto simp: objsKept_def split: sum.splits)
  have arr: "objsKept (case v of ARef a \<Rightarrow> andThen (readArr a) (\<lambda>ns h.
                 (case removeBugLoop h 0 (length ns) ns of
                    Inl e \<Rightarrow> Inl e | Inr ns' \<Rightarrow> writeArr a ns' h))
               | _ \<Rightarrow> throw TypeError)" for v
    by (cases v) (simp_all add: objsKept_andThen loop)
  show ?thesis
    unfolding removeBugNodes_def by (intro objsKept_andThen objsKept_getProp arr)
qed

lemma copyScope_new: "keeps s (copyScope scope data) \<and> makesNew (copyScope scope data)"
  unfolding copyScope_def
  by (auto intro!: keeps_andThen keeps_basic makesNew_after_read)

lemma keeps_connectNodes:
  assumes "collaboratorsKeep env s"
  shows "keeps s (connectNodes env newScope data)"
proof -
  from assms have c: "\<And>n d. keeps s (constructNodeConnections env n d)"
    by (simp add: collaboratorsKeep_def)
  show ?thesis
    unfolding connectNodes_def by (intro keeps_forEach keeps_andThen keeps_basic c)
qed

lemma keeps_loadModules:
  assumes "collaboratorsKeep env s"
  shows "keeps s (loadModules env mlist newScope data)"
proof -
  from assms have sub: "\<And>d sc. keeps s (loadSubCircuit env d sc)"
    by (simp add: collaboratorsKeep_def)
  have one: "keeps s (case s_records data t of
               None \<Rightarrow> ret ()
             | Some recs \<Rightarrow>
                 if t = ''SubCircuit''
                 then forEach (\<lambda>d. loadSubCircuit env d newScope) recs
                 else forEach (\<lambda>d. loadModule env d newScope) recs)" for t
    by (cases "s_records data t")
       (auto intro!: keeps_forEach sub keeps_loadModule assms)
  show ?thesis
    unfolding loadModules_def by (intro keeps_forEach one)
qed

lemma keeps_updateWires:
  assumes "collaboratorsKeep env s"
  shows "keeps s (updateWires env newScope)"
proof -
  from assms have u: "\<And>w sc. keeps s (updateData env w sc)"
    by (simp add: collaboratorsKeep_def)
  show ?thesis
    unfolding updateWires_def
    by (auto intro!: keeps_forEach keeps_andThen keeps_basic u)
qed

lemma keeps_restoreVerilog: "newScope \<noteq> s \<Longrightarrow> keeps s (restoreVerilog newScope data)"
  by (auto simp: restoreVerilog_def intro!: keeps_setProp_other)

lemma keeps_restoreTestbench: "newScope \<noteq> s \<Longrightarrow> keeps s (restoreTestbench env newScope data)"
  by (auto simp: restoreTestbench_def intro!: keeps_andThen keeps_basic keeps_setProp_other)

lemma objsKept_layoutPort: "objsKept (layoutPort env x height n i port)"
  unfolding layoutPort_def
  by (intro objsKept_andThen objsKept_spreadProps objsKept_nextId objsKept_ret)

lemma objsKept_layoutPorts: "objsKept (layoutPorts env x height n i ps)"
  by (induction ps arbitrary: i) (auto intro!: objsKept_andThen objsKept_layoutPort)

lemma keeps_resolveLayout: "newScope \<noteq> s \<Longrightarrow> keeps s (resolveLayout env newScope data)"
  by (auto simp: resolveLayout_def
        intro!: keeps_andThen keeps_basic keeps_setProp_other
          objsKept_keeps [OF objsKept_layoutPorts])

lemma keeps_defaultTitleEnabled: "newScope \<noteq> s \<Longrightarrow> keeps s (defaultTitleEnabled newScope)"
  by (auto simp: defaultTitleEnabled_def intro!: keeps_andThen keeps_basic keeps_setProp_other)

lemma keeps_loadScope:
  assumes "collaboratorsKeep env s"
  shows "keeps s (loadScope env scope data)"
proof -
  from assms have ln: "\<And>x sc. keeps s (loadNode env x sc)"
    by (simp add: collaboratorsKeep_def)
  show ?thesis
    unfolding loadScope_def
    by (intro keeps_andThen_new keeps_andThen copyScope_new [THEN conjunct1]
          copyScope_new [THEN conjunct2] keeps_forEach ln keeps_connectNodes keeps_loadModules
          keeps_updateWires objsKept_keeps [OF objsKept_removeBugNodes] keeps_restoreVerilog
          keeps_restoreTestbench keeps_resolveLayout keeps_defaultTitleEnabled keeps_ret assms)
qed

lemma loadScope_returns_copy:
  assumes "loadScope env scope data h = Inr (ns, h')"
  shows "scope < length (objs h) \<and> ns = length (objs h)"
proof -
  from assms obtain h1 where "copyScope scope data h = Inr (ns, h1)"
    by (auto simp: loadScope_def andThen_Inr ret_def)
  then show ?thesis
    by (auto simp: copyScope_def andThen_Inr readObj_def newObj_def split: if_splits)
qed

lemma getProp_heap: "getProp v k h = Inr (x, h') \<Longrightarrow> h' = h"
  by (cases v) (auto simp: getProp_def andThen_Inr ret_def throw_def readObj_def readArr_def
      split: if_splits)

lemma andThen_InrD:
  "andThen m f h = Inr r \<Longrightarrow> \<exists>v h'. m h = Inr (v, h') \<and> f v h' = Inr r"
  by (simp add: andThen_Inr)

section \<open>What \<open>loadScope\<close> leaves alone\<close>

text \<open>
  C1. Let no collaborator assign to the five fields of a scope object other than through
  the loader. Then \<open>loadScope(s, d)\<close>, when it returns, returns an object that did not
  exist before, and the fields \<open>layout\<close>, \<open>verilogMetadata\<close>, \<open>testbenchData\<close>,
  \<open>Input\<close> and \<open>Output\<close> of \<open>s\<close> hold what they held before. And one round of the loop
  of \<open>load\<close>, when it returns, has made a scope \<open>s\<close> with \<open>newCircuit\<close>, has loaded the
  document into another object \<open>ns\<close>, and leaves \<open>s\<close> with the five fields that
  \<open>newCircuit\<close> gave it.
\<close>

theorem loadScope_leaves_scope:
  assumes "\<forall>s. collaboratorsKeep env s"
  shows "(\<forall>s d h ns h'. loadScope env s d h = Inr (ns, h') \<longrightarrow>
            ns = length (objs h) \<and> s < ns \<and> fieldsOf (objs h' ! s) = fieldsOf (objs h ! s)) \<and>
         (\<forall>d h h'. loadProjectScope env d h = Inr ((), h') \<longrightarrow>
            (\<exists>v m s h0 ns h1.
               newCircuit env (jsOr (s_name d) (JStr ''Untitled'')) (s_id d) v m h = Inr (s, h0) \<and>
               loadScope env s d h0 = Inr (ns, h1) \<and> ns \<noteq> s \<and>
               fieldsOf (objs h' ! s) = fieldsOf (objs h0 ! s)))"
proof (intro conjI allI impI)
  fix s d h ns h'
  assume run: "loadScope env s d h = Inr (ns, h')"
  from loadScope_returns_copy [OF run] have s: "s < length (objs h)" "ns = length (objs h)"
    by simp_all
  from assms have "keeps s (loadScope env s d)" by (simp add: keeps_loadScope)
  from keepsD [OF this s(1) run] s
  show "ns = length (objs h)" "s < ns" "fieldsOf (objs h' ! s) = fieldsOf (objs h ! s)"
    by simp_all
next
  fix d h h'
  assume run: "loadProjectScope env d h = Inr ((), h')"
  define after where "after = (\<lambda>scope.
     andThen (setGlobalScope (ORef scope)) (\<lambda>_.
     andThen (call env ''centerFocus'' [ORef scope, JBool (embed env)]) (\<lambda>_.
     andThen (call env ''update'' [ORef scope, JBool True]) (\<lambda>_.
     andThen (call env ''updateRestrictedElementsInScope'' []) (\<lambda>_.
       call env ''scheduleBackup'' [])))))"
  from andThen_InrD [OF run [unfolded loadProjectScope_def]]
  obtain vm hf
    where flags: "(if truthy (s_verilogMetadata d)
              then andThen (getProp (s_verilogMetadata d) ''isVerilogCircuit'') (\<lambda>v.
                   andThen (getProp (s_verilogMetadata d) ''isMainCircuit'') (\<lambda>m.
                     ret (v, m)))
              else ret (JBool False, JBool False)) h = Inr (vm, hf)"
      and k1: "(case vm of (isVerilogCircuit, isMainCircuit) \<Rightarrow>
                 andThen (newCircuit env (jsOr (s_name d) (JStr ''Untitled'')) (s_id d)
                            isVerilogCircuit isMainCircuit) (\<lambda>scope.
                 andThen (loadScope env scope d) (\<lambda>_. after scope))) hf = Inr ((), h')"
    unfolding after_def by blast
  obtain v m where vm: "vm = (v, m)" by (cases vm)
  from k1 vm have k2: "andThen (newCircuit env (jsOr (s_name d) (JStr ''Untitled'')) (s_id d) v m)
                         (\<lambda>scope. andThen (loadScope env scope d) (\<lambda>_. after scope)) hf =
                       Inr ((), h')" by simp
  from andThen_InrD [OF k2] obtain s h0
    where made: "newCircuit env (jsOr (s_name d) (JStr ''Untitled'')) (s_id d) v m hf = Inr (s, h0)"
      and k3: "andThen (loadScope env s d) (\<lambda>_. after s) h0 = Inr ((), h')" by blast
  from andThen_InrD [OF k3] obtain ns h1
    where loaded: "loadScope env s d h0 = Inr (ns, h1)"
      and rest: "after s h1 = Inr ((), h')" by blast
  from flags have "hf = h"
    by (auto simp: andThen_Inr ret_def dest!: getProp_heap split: if_splits)
  from assms have calls: "\<And>f args. keeps s (call env f args)"
    and factory: "\<And>name ident v m. makesNew (newCircuit env name ident v m)"
    by (simp_all add: collaboratorsKeep_def)
  from factory made have live: "s < length (objs h0)" by (auto simp: makesNew_def)
  from assms have "keeps s (loadScope env s d)" by (simp add: keeps_loadScope)
  from keepsD [OF this live loaded]
  have 1: "s < length (objs h1)" "fieldsOf (objs h1 ! s) = fieldsOf (objs h0 ! s)" by simp_all
  have "keeps s (after s)"
    unfolding after_def by (intro keeps_andThen keeps_basic calls)
  from keepsD [OF this 1(1) rest] 1(2)
  have 2: "fieldsOf (objs h' ! s) = fieldsOf (objs h0 ! s)" by simp
  from loadScope_returns_copy [OF loaded] have "ns \<noteq> s" by simp
  with made loaded 2 \<open>hf = h\<close>
  show "\<exists>v m s h0 ns h1.
               newCircuit env (jsOr (s_name d) (JStr ''Untitled'')) (s_id d) v m h = Inr (s, h0) \<and>
               loadScope env s d h0 = Inr (ns, h1) \<and> ns \<noteq> s \<and>
               fieldsOf (objs h' ! s) = fieldsOf (objs h0 ! s)"
    by blast
qed

text \<open>The example collaborators satisfy the assumption.\<close>

lemma keeps_push: "keeps s (push scope k v)"
proof -
  have "keeps s (case arr of ARef a \<Rightarrow> andThen (readArr a) (\<lambda>xs. writeArr a (xs @ [v]))
                 | _ \<Rightarrow> ret ())" for arr
    by (cases arr) (auto intro!: keeps_andThen keeps_basic)
  then show ?thesis
    unfolding push_def by (intro keeps_andThen keeps_basic)
qed

lemma objsKept_push: "objsKept (push scope k v)"
proof -
  have "objsKept (case arr of ARef a \<Rightarrow> andThen (readArr a) (\<lambda>xs. writeArr a (xs @ [v]))
                 | _ \<Rightarrow> ret ())" for arr
    by (cases arr) (auto intro!: objsKept_andThen)
  then show ?thesis
    unfolding push_def by (intro objsKept_andThen objsKept_getProp)
qed

lemma exConstructor_new:
  "keeps s (exConstructor tag x y scope params) \<and> makesNew (exConstructor tag x y scope params)"
proof
  show "keeps s (exConstructor tag x y scope params)"
    unfolding exConstructor_def by (intro keeps_andThen keeps_newObj keeps_push keeps_ret)
  show "makesNew (exConstructor tag x y scope params)"
    using objsKept_push
    by (auto simp: makesNew_def exConstructor_def andThen_Inr newObj_def ret_def objsKept_def)
qed

lemma exNewCircuit_new: "makesNew (exNewCircuit name ident v m)"
  by (auto simp: makesNew_def exNewCircuit_def andThen_Inr newArr_def newObj_def)

lemma exEnv_keeps: "collaboratorsKeep exEnv s"
proof -
  have node: "keeps s (exLoadNode x sc)" for x sc
    unfolding exLoadNode_def by (intro keeps_andThen keeps_basic keeps_newObj keeps_push)
  have ctor: "exModules tag = Some ctor \<Longrightarrow>
              keeps s (ctor x y sc ps) \<and> makesNew (ctor x y sc ps)" for tag ctor x y sc ps
    by (cases tag) (auto simp: exModules_def exConstructor_new split: if_splits)
  show ?thesis
    unfolding collaboratorsKeep_def
    by (simp add: exEnv_def node ctor exNewCircuit_new)
qed

lemma hiddenTitle_run:
  "loadScope exEnv 0 hiddenTitleDoc oneScope =
     Inr (1, heapOf (loadScope exEnv 0 hiddenTitleDoc oneScope))"
  by code_simp

lemma hiddenTitle_layouts:
  "propOf (heapOf (loadScope exEnv 0 hiddenTitleDoc oneScope)) 1 ''layout'' = s_layout hiddenTitleDoc \<and>
   propOf oneScope 0 ''layout'' =
     JObj [(''width'', JNum 100), (''height'', JNum 40), (''title_x'', JNum 50),
           (''title_y'', JNum 13), (''titleEnabled'', JBool True)]"
  by code_simp

theorem loadScope_leaves_scope_witness:
  "loadScope exEnv 0 hiddenTitleDoc oneScope =
     Inr (1, heapOf (loadScope exEnv 0 hiddenTitleDoc oneScope)) \<and>
   fieldsOf (objs (heapOf (loadScope exEnv 0 hiddenTitleDoc oneScope)) ! 0) =
     fieldsOf (objs oneScope ! 0) \<and>
   propOf (heapOf (loadScope exEnv 0 hiddenTitleDoc oneScope)) 1 ''layout'' =
     s_layout hiddenTitleDoc \<and>
   propOf oneScope 0 ''layout'' =
     JObj [(''width'', JNum 100), (''height'', JNum 40), (''title_x'', JNum 50),
           (''title_y'', JNum 13), (''titleEnabled'', JBool True)]"
proof -
  have "\<forall>s. collaboratorsKeep exEnv s" by (simp add: exEnv_keeps)
  from loadScope_leaves_scope [OF this] hiddenTitle_run
  have "fieldsOf (objs (heapOf (loadScope exEnv 0 hiddenTitleDoc oneScope)) ! 0) =
          fieldsOf (objs oneScope ! 0)"
    by blast
  with hiddenTitle_run hiddenTitle_layouts show ?thesis by simp
qed

section \<open>The delay of the loaded element\<close>

lemma keepsPropI:
  "(\<And>h v h'. r < length (objs h) \<Longrightarrow> m h = Inr (v, h') \<Longrightarrow>
      r < length (objs h') \<and> propOf h' r k = propOf h r k) \<Longrightarrow> keepsProp r k m"
  by (simp add: keepsProp_def)

lemma keepsPropD:
  "keepsProp r k m \<Longrightarrow> r < length (objs h) \<Longrightarrow> m h = Inr (v, h') \<Longrightarrow>
   r < length (objs h') \<and> propOf h' r k = propOf h r k"
  by (simp add: keepsProp_def)

lemma objsKept_keepsProp: "objsKept m \<Longrightarrow> keepsProp r k m"
  by (auto simp: objsKept_def keepsProp_def propOf_def)

lemma keepsProp_ret [simp]: "keepsProp r k (ret v)"
  by (simp add: keepsProp_def ret_def)

lemma keepsProp_throw [simp]: "keepsProp r k (throw e)"
  by (simp add: keepsProp_def throw_def)

lemma keepsProp_andThen:
  "keepsProp r k m \<Longrightarrow> (\<And>v. keepsProp r k (f v)) \<Longrightarrow> keepsProp r k (andThen m f)"
proof (rule keepsPropI)
  fix h v h'
  assume m: "keepsProp r k m" and f: "\<And>v. keepsProp r k (f v)"
    and s: "r < length (objs h)" and run: "andThen m f h = Inr (v, h')"
  from run obtain w h1 where 1: "m h = Inr (w, h1)" and 2: "f w h1 = Inr (v, h')"
    by (auto simp: andThen_Inr)
  from keepsPropD [OF m s 1] have 3: "r < length (objs h1)"
    "propOf h1 r k = propOf h r k" by simp_all
  from keepsPropD [OF f 3(1) 2] 3(2)
  show "r < length (objs h') \<and> propOf h' r k = propOf h r k" by simp
qed

lemma keepsProp_forEach: "(\<And>x. keepsProp r k (m x)) \<Longrightarrow> keepsProp r k (forEach m xs)"
  by (induction xs) (simp_all add: keepsProp_andThen)

lemma keepsProp_setProp: "r' \<noteq> r \<or> k' \<noteq> k \<Longrightarrow> keepsProp r k (setProp r' k' v)"
  by (auto simp: keepsProp_def propOf_def setProp_def objGet_objSet nth_list_update
        split: if_splits)

lemma decimal_not_delay: "decimal i \<noteq> ''propagationDelay''"
proof
  assume "decimal i = ''propagationDelay''"
  then have "last (decimal i) = CHR ''y''" by simp
  with digit_is_digit [of "i mod 10"] show False by (simp add: last_decimal)
qed

lemma keepsProp_indexWrite:
  assumes "node \<noteq> ''propagationDelay''"
  shows "keepsProp r ''propagationDelay'' (indexWrite obj node target i v)"
proof (cases target)
  case (ORef r')
  then show ?thesis
    by (simp add: indexWrite_def keepsProp_setProp decimal_not_delay)
next
  case (ARef a)
  then show ?thesis
    by (auto simp: indexWrite_def
        intro!: objsKept_keepsProp objsKept_andThen objsKept_readArr objsKept_writeArr)
qed (simp_all add: indexWrite_def keepsProp_setProp assms)

lemma keepsProp_replaceNode:
  assumes rep: "\<And>old n. keepsProp r ''propagationDelay'' (replace env old n)"
    and node: "\<not> hasOwn ns ''propagationDelay''"
  shows "keepsProp r ''propagationDelay'' (replaceNode env ns obj node)"
proof (cases "hasOwn ns node")
  case False
  then show ?thesis by (simp add: replaceNode_def)
next
  case True
  with node have ne: "node \<noteq> ''propagationDelay''" by auto
  have single: "keepsProp r ''propagationDelay'' (andThen (getProp (ORef obj) node) (\<lambda>old.
                  andThen (replace env old n) (\<lambda>new. setProp obj node new)))" for n
    by (intro keepsProp_andThen objsKept_keepsProp objsKept_getProp rep keepsProp_setProp
          disjI2 ne)
  have many: "keepsProp r ''propagationDelay'' (forEach (\<lambda>i.
               andThen (getProp (ORef obj) node) (\<lambda>target.
               andThen (indexRead target i) (\<lambda>old.
               andThen (replace env old (n ! i)) (\<lambda>new.
                 indexWrite obj node target i new)))) [0 ..< length n])" for n
    by (intro keepsProp_forEach keepsProp_andThen objsKept_keepsProp objsKept_getProp
          objsKept_indexRead rep keepsProp_indexWrite ne)
  show ?thesis
    unfolding replaceNode_def
    by (cases "objGet ns node") (simp_all add: single many)
qed

lemma keepsProp_replaceNodes:
  assumes "\<And>old n. keepsProp r ''propagationDelay'' (replace env old n)"
    and "\<forall>ns. cd_nodes cd = Some ns \<longrightarrow> \<not> hasOwn ns ''propagationDelay''"
  shows "keepsProp r ''propagationDelay'' (replaceNodes env cd obj)"
  using assms
  by (auto simp: replaceNodes_def split: option.splits
        intro!: keepsProp_forEach keepsProp_replaceNode)

lemma keepsProp_attachMetadata:
  "keepsProp r ''propagationDelay'' (attachMetadata data obj)"
  by (simp add: attachMetadata_def keepsProp_setProp)

text \<open>Restoring the other values assigns exactly the own entries of the values.\<close>

lemma restore_keys:
  assumes "forEach (\<lambda>prop. if hasOwn vs prop then setProp obj prop (objGet vs prop) else ret ())
             ks h = Inr ((), h')"
  shows "length (objs h') = length (objs h) \<and>
         propOf h' obj k =
           (if k \<in> set ks \<and> hasOwn vs k then objGet vs k else propOf h obj k)"
  using assms
proof (induction ks arbitrary: h)
  case Nil
  then show ?case by (simp add: ret_def)
next
  case (Cons p ks)
  from Cons.prems obtain h1
    where 1: "(if hasOwn vs p then setProp obj p (objGet vs p) else ret ()) h = Inr ((), h1)"
      and 2: "forEach (\<lambda>prop. if hasOwn vs prop then setProp obj prop (objGet vs prop)
                               else ret ()) ks h1 = Inr ((), h')"
    by (auto simp: andThen_Inr)
  from 1 have h1: "length (objs h1) = length (objs h) \<and>
      propOf h1 obj k = (if k = p \<and> hasOwn vs k then objGet vs k else propOf h obj k)"
    by (auto simp: ret_def propOf_def objGet_objSet dest!: setProp_Inr split: if_splits)
  from Cons.IH [OF 2] h1 show ?case by auto
qed

lemma objKeys_own: "k \<in> set (objKeys vs) \<longleftrightarrow> hasOwn vs k"
  by (auto simp: objKeys_def Let_def hasOwn_def map_of_eq_None_iff)

lemma restoreValues_result:
  assumes "restoreValues cd obj h = Inr ((), h')"
  shows "length (objs h') = length (objs h) \<and>
         propOf h' obj k =
           (case cd_values cd of
              None \<Rightarrow> propOf h obj k
            | Some vs \<Rightarrow> (case map_of vs k of Some v \<Rightarrow> v | None \<Rightarrow> propOf h obj k))"
proof (cases "cd_values cd")
  case None
  with assms show ?thesis by (simp add: restoreValues_def ret_def)
next
  case (Some vs)
  with assms have "forEach (\<lambda>prop. if hasOwn vs prop then setProp obj prop (objGet vs prop)
                                    else ret ()) (objKeys vs) h = Inr ((), h')"
    by (simp add: restoreValues_def)
  from restore_keys [OF this, of k] Some show ?thesis
    by (auto simp: objKeys_own hasOwn_def objGet_def split: option.splits)
qed

text \<open>
  C6 (as amended). Let the constructor have made the element \<open>obj\<close>, let \<open>loadModule\<close>
  return, let \<open>customData.nodes\<close> have no entry \<open>propagationDelay\<close>, and let the
  element's \<open>fixDirection()\<close> and the function \<open>replace\<close> leave the delay of the element
  alone. Then the element that \<open>loadModule\<close> leaves has the delay that
  \<open>customData.values\<close> gives it under the name \<open>propagationDelay\<close>, if it has such an
  entry. If it has none, the delay is \<open>0\<close> when the record's \<open>propagationDelay\<close> is
  exactly \<open>0\<close>, the record's value when that is truthy, and otherwise (absent, or any
  other falsy value) the delay that the constructor set.
\<close>

theorem loadModule_final_delay:
  assumes run: "loadModule env data scope h = Inr ((), h')"
    and made: "construct env data scope h = Inr (obj, h0)" and live: "obj < length (objs h0)"
    and fixd: "keepsProp obj ''propagationDelay'' (elemFixDirection env obj)"
    and repl: "\<forall>old n. keepsProp obj ''propagationDelay'' (replace env old n)"
    and nodes: "replacedNode data ''propagationDelay'' = None"
  shows "propOf h' obj ''propagationDelay'' =
           (case restoredValue data ''propagationDelay'' of
              Some v \<Rightarrow> v
            | None \<Rightarrow>
                if e_propagationDelay data = JNum 0 then JNum 0
                else if truthy (e_propagationDelay data) then e_propagationDelay data
                else propOf h0 obj ''propagationDelay'')"
proof -
  from loadModule_delay_assigned [OF made live]
  obtain h2 where h2: "andThen (setDirections env data obj) (\<lambda>_. setDelay data obj) h0 =
                         Inr ((), h2)"
    and rest: "loadModule env data scope h = restoreElement env data obj h2"
    and pd: "propOf h2 obj ''propagationDelay'' =
             (if e_propagationDelay data = JNum 0 then JNum 0
              else if truthy (e_propagationDelay data) then e_propagationDelay data
              else propOf h0 obj ''propagationDelay'')"
    by blast
  have live2: "obj < length (objs h2)"
    using h2 live
    by (auto simp: andThen_Inr setDirections_def setDelay_def getProp_def readObj_def ret_def
        dest!: setProp_Inr split: if_splits)
  from run rest have "restoreElement env data obj h2 = Inr ((), h')" by simp
  then obtain cd h3 h4 h5 where cd: "e_customData data = Some cd"
    and 3: "elemFixDirection env obj h2 = Inr ((), h3)"
    and 4: "restoreValues cd obj h3 = Inr ((), h4)"
    and 5: "replaceNodes env cd obj h4 = Inr ((), h5)"
    and 6: "attachMetadata data obj h5 = Inr ((), h')"
    by (auto simp: restoreElement_def andThen_Inr throw_def split: option.splits)
  from keepsPropD [OF fixd live2 3] have l3: "obj < length (objs h3)"
    and p3: "propOf h3 obj ''propagationDelay'' = propOf h2 obj ''propagationDelay''"
    by simp_all
  from restoreValues_result [OF 4, of "''propagationDelay''"] l3 cd
  have l4: "obj < length (objs h4)"
    and p4: "propOf h4 obj ''propagationDelay'' =
               (case restoredValue data ''propagationDelay'' of
                  Some v \<Rightarrow> v | None \<Rightarrow> propOf h3 obj ''propagationDelay'')"
    by (auto simp: restoredValue_def split: option.splits)
  from nodes cd have "\<forall>ns. cd_nodes cd = Some ns \<longrightarrow> \<not> hasOwn ns ''propagationDelay''"
    by (auto simp: replacedNode_def hasOwn_def)
  with repl have "keepsProp obj ''propagationDelay'' (replaceNodes env cd obj)"
    by (intro keepsProp_replaceNodes) simp_all
  from keepsPropD [OF this l4 5] have l5: "obj < length (objs h5)"
    and p5: "propOf h5 obj ''propagationDelay'' = propOf h4 obj ''propagationDelay''"
    by simp_all
  from keepsPropD [OF keepsProp_attachMetadata l5 6]
  have "propOf h' obj ''propagationDelay'' = propOf h5 obj ''propagationDelay''" by simp
  with p5 p4 p3 pd show ?thesis by (simp split: option.splits)
qed

lemma exEnv_keeps_delay:
  "keepsProp r k (elemFixDirection exEnv obj)" "\<forall>old n. keepsProp r k (replace exEnv old n)"
  by (simp_all add: exEnv_def)

lemma zero_run:
  "loadModule exEnv zeroDelayRecord 0 oneScope =
     Inr ((), heapOf (loadModule exEnv zeroDelayRecord 0 oneScope))"
  by code_simp

lemma plain_run:
  "loadModule exEnv (plainElement ''Input'') 0 oneScope =
     Inr ((), heapOf (loadModule exEnv (plainElement ''Input'') 0 oneScope))"
  by code_simp

lemma example_entries:
  "restoredValue zeroDelayRecord ''propagationDelay'' = None"
  "replacedNode zeroDelayRecord ''propagationDelay'' = None"
  "restoredValue (plainElement ''Input'') ''propagationDelay'' = None"
  "replacedNode (plainElement ''Input'') ''propagationDelay'' = None"
  by (simp_all add: restoredValue_def replacedNode_def zeroDelayRecord_def plainElement_def)

text \<open>
  With the example constructor, whose default delay is 10: a record with the delay \<open>0\<close>
  gives an element with the delay \<open>0\<close>, and a record without delay gives one with the
  delay 10.
\<close>

theorem loadModule_final_delay_witness:
  "e_propagationDelay zeroDelayRecord = JNum 0 \<and>
   propOf (heapOf (loadModule exEnv zeroDelayRecord 0 oneScope)) 1 ''propagationDelay'' =
     JNum 0 \<and>
   e_propagationDelay (plainElement ''Input'') = JUndefined \<and>
   propOf (heapOf (loadModule exEnv (plainElement ''Input'') 0 oneScope)) 1
     ''propagationDelay'' = JNum 10"
proof -
  from loadModule_final_delay [OF zero_run construct_zero construct_zero_live
      exEnv_keeps_delay example_entries(2)]
  have "propOf (heapOf (loadModule exEnv zeroDelayRecord 0 oneScope)) 1 ''propagationDelay'' =
          JNum 0"
    unfolding example_entries zeroDelayRecord_delay by simp
  moreover
  from loadModule_final_delay [OF plain_run construct_example construct_example_live
      exEnv_keeps_delay example_entries(4)]
  have "propOf (heapOf (loadModule exEnv (plainElement ''Input'') 0 oneScope)) 1
          ''propagationDelay'' = JNum 10"
    unfolding example_entries plainElement_delay construct_example_delay by simp
  ultimately show ?thesis by (simp add: zeroDelayRecord_delay plainElement_delay)
qed

text \<open>
  The delay \<open>0\<close> of a record does not always reach the element: the values that are
  restored afterwards may hold a delay of their own, which replaces it.
\<close>

theorem zero_delay_overlaid_counterexample:
  "e_propagationDelay overlaidDelayRecord = JNum 0 \<and>
   restoredValue overlaidDelayRecord ''propagationDelay'' = Some (JNum 7) \<and>
   finalProp (loadModule exEnv overlaidDelayRecord 0 oneScope) 1 ''propagationDelay'' =
     Some (JNum 7)"
  by code_simp

section \<open>The layout of the loaded scope\<close>

lemma arrayOf_heap: "arrayOf v h = Inr (xs, h') \<Longrightarrow> h' = h"
  by (cases v) (auto simp: arrayOf_def ret_def throw_def readArr_def split: if_splits)

lemma spreadProps_heap: "spreadProps v h = Inr (ps, h') \<Longrightarrow> h' = h"
  by (cases v) (auto simp: spreadProps_def andThen_Inr ret_def readObj_def readArr_def
      split: if_splits)

lemma spreadProps_idCounter:
  "spreadProps v (h\<lparr>idCounter := c\<rparr>) = Inr (ps, h\<lparr>idCounter := c\<rparr>) \<longleftrightarrow>
   spreadProps v h = Inr (ps, h)"
  by (cases v) (auto simp: spreadProps_def andThen_def ret_def readObj_def readArr_def
      split: if_splits)

lemma getProp_ORef:
  "getProp (ORef r) k h = Inr (v, h') \<Longrightarrow> r < length (objs h) \<and> v = propOf h r k \<and> h' = h"
  by (auto simp: getProp_def andThen_Inr ret_def readObj_def propOf_def split: if_splits)

lemma newArr_Inr:
  "newArr xs h = Inr (a, h') \<Longrightarrow> a = length (arrs h) \<and> h' = h\<lparr>arrs := arrs h @ [xs]\<rparr>"
  by (auto simp: newArr_def)

lemma layoutHeight_even: "2 * (layoutHeight n m div 2) = layoutHeight n m"
  by (simp add: layoutHeight_def)

text \<open>
  The statements of \<open>loadScope\<close> are those before the layout, the resolving of the
  layout and the default of the title flag.
\<close>

lemma loadScope_split:
  "loadScope env scope data =
     andThen (loadContents env scope data) (\<lambda>newScope.
     andThen (resolveLayout env newScope data) (\<lambda>_.
     andThen (defaultTitleEnabled newScope) (\<lambda>_.
       ret newScope)))"
  by (rule ext) (simp add: loadScope_def loadContents_def andThen_def ret_def
      split: sum.splits prod.splits)

lemma loadScope_steps:
  assumes "loadScope env scope data h = Inr (ns, h')"
  shows "\<exists>h8 h9. loadContents env scope data h = Inr (ns, h8) \<and>
                 resolveLayout env ns data h8 = Inr ((), h9) \<and>
                 defaultTitleEnabled ns h9 = Inr ((), h')"
  using assms by (auto simp: loadScope_split andThen_Inr ret_def)

text \<open>The ports with their layout properties.\<close>

lemma layoutPort_Inr:
  assumes "layoutPort env x height n i p h = Inr (q, h')"
  shows "\<exists>ps. spreadProps p h = Inr (ps, h) \<and>
           q = JObj (objSet ps ''layoutProperties''
                 (portAt x height n i (generateId env (idCounter h)))) \<and>
           h' = h\<lparr>idCounter := Suc (idCounter h)\<rparr>"
proof -
  from assms obtain ps h1 ident h2 where 1: "spreadProps p h = Inr (ps, h1)"
    and 2: "nextId env h1 = Inr (ident, h2)"
    and 3: "q = JObj (objSet ps ''layoutProperties''
              (JObj [(''x'', JNum x),
                     (''y'', JNum (height div 2 - int n * 10 + 20 * int i + 10)),
                     (''id'', JStr ident)]))" and 4: "h' = h2"
    by (auto simp: layoutPort_def andThen_Inr ret_def)
  from spreadProps_heap [OF 1] have h1: "h1 = h" .
  with 2 have "ident = generateId env (idCounter h)" "h2 = h\<lparr>idCounter := Suc (idCounter h)\<rparr>"
    by (auto simp: nextId_def)
  with 1 3 4 h1 show ?thesis by (simp add: portAt_def)
qed

lemma layoutPorts_Inr:
  "layoutPorts env x height n i ps h = Inr (qs, h') \<Longrightarrow>
   h' = h\<lparr>idCounter := idCounter h + length ps\<rparr> \<and> length qs = length ps \<and>
   (\<forall>j<length ps. \<exists>props. spreadProps (ps ! j) h = Inr (props, h) \<and>
      qs ! j = JObj (objSet props ''layoutProperties''
                 (portAt x height n (i + j) (generateId env (idCounter h + j)))))"
proof (induction ps arbitrary: i h qs)
  case Nil
  then show ?case by (simp add: ret_def)
next
  case (Cons p ps)
  from Cons.prems obtain q h1 qs' where 1: "layoutPort env x height n i p h = Inr (q, h1)"
    and 2: "layoutPorts env x height n (Suc i) ps h1 = Inr (qs', h')" and 3: "qs = q # qs'"
    by (auto simp: andThen_Inr ret_def)
  from layoutPort_Inr [OF 1] obtain props0 where a: "spreadProps p h = Inr (props0, h)"
    and q: "q = JObj (objSet props0 ''layoutProperties''
                 (portAt x height n i (generateId env (idCounter h))))"
    and h1: "h1 = h\<lparr>idCounter := Suc (idCounter h)\<rparr>" by blast
  from Cons.IH [OF 2] have h': "h' = h1\<lparr>idCounter := idCounter h1 + length ps\<rparr>"
    and len: "length qs' = length ps"
    and rest: "\<forall>j<length ps. \<exists>props. spreadProps (ps ! j) h1 = Inr (props, h1) \<and>
      qs' ! j = JObj (objSet props ''layoutProperties''
                 (portAt x height n (Suc i + j) (generateId env (idCounter h1 + j))))"
    by simp_all
  have "\<exists>props. spreadProps ((p # ps) ! j) h = Inr (props, h) \<and>
      qs ! j = JObj (objSet props ''layoutProperties''
                 (portAt x height n (i + j) (generateId env (idCounter h + j))))"
    if "j < length (p # ps)" for j
  proof (cases j)
    case 0
    with a q 3 show ?thesis by simp
  next
    case (Suc j')
    with that have "j' < length ps" by simp
    with rest obtain props where "spreadProps (ps ! j') h1 = Inr (props, h1)"
      and "qs' ! j' = JObj (objSet props ''layoutProperties''
                 (portAt x height n (Suc i + j') (generateId env (idCounter h1 + j'))))"
      by blast
    with h1 Suc 3 show ?thesis by (simp add: spreadProps_idCounter)
  qed
  with h' h1 len 3 show ?case by simp
qed

text \<open>The branch of \<open>loadScope\<close> that makes a new layout.\<close>

lemma resolveLayout_synthesizes:
  assumes "\<not> truthy (s_layout data)" and "resolveLayout env ns data h8 = Inr ((), h9)"
  shows "\<exists>ins outs qi qo hL.
           arrayOf (propOf h8 ns ''Input'') h8 = Inr (ins, h8) \<and>
           arrayOf (propOf h8 ns ''Output'') h8 = Inr (outs, h8) \<and>
           ns < length (objs h8) \<and>
           hL = h8\<lparr>objs := (objs h8)[ns := objSet (objs h8 ! ns) ''layout''
                                           (newLayout (length ins) (length outs))]\<rparr> \<and>
           arrs h9 = arrs h8 @ [qi, qo] \<and>
           objs h9 = (objs hL)[ns := objSet (objSet (objs hL ! ns) ''Input''
                                              (ARef (length (arrs h8))))
                                       ''Output'' (ARef (Suc (length (arrs h8))))] \<and>
           length qi = length ins \<and> length qo = length outs \<and>
           (\<forall>j<length ins. \<exists>props. spreadProps (ins ! j) hL = Inr (props, hL) \<and>
              qi ! j = JObj (objSet props ''layoutProperties''
                (portAt 0 (layoutHeight (length ins) (length outs)) (length ins) j
                   (generateId env (idCounter h8 + j))))) \<and>
           (\<forall>j<length outs. \<exists>props. spreadProps (outs ! j) hL = Inr (props, hL) \<and>
              qo ! j = JObj (objSet props ''layoutProperties''
                (portAt 100 (layoutHeight (length ins) (length outs)) (length outs) j
                   (generateId env (idCounter h8 + length ins + j)))))"
proof -
  define H where "H = (\<lambda>(ins::jsval list) (outs::jsval list). layoutHeight (length ins) (length outs))"
  from assms have run: "andThen (getProp (ORef ns) ''Input'') (\<lambda>inp.
        andThen (arrayOf inp) (\<lambda>ins.
        andThen (getProp (ORef ns) ''Output'') (\<lambda>outp.
        andThen (arrayOf outp) (\<lambda>outs.
        andThen (setProp ns ''layout'' (newLayout (length ins) (length outs))) (\<lambda>_.
        andThen (layoutPorts env 0 (H ins outs) (length ins) 0 ins) (\<lambda>inputLayouts.
        andThen (layoutPorts env 100 (H ins outs) (length outs) 0 outs) (\<lambda>outputLayouts.
        andThen (newArr inputLayouts) (\<lambda>a.
        andThen (newArr outputLayouts) (\<lambda>b.
        andThen (setProp ns ''Input'' (ARef a)) (\<lambda>_.
          setProp ns ''Output'' (ARef b))))))))))) h8 = Inr ((), h9)"
    by (simp add: resolveLayout_def H_def)
  from andThen_InrD [OF run] obtain inp ha where 1: "getProp (ORef ns) ''Input'' h8 = Inr (inp, ha)"
    and r1: "andThen (arrayOf inp) (\<lambda>ins.
        andThen (getProp (ORef ns) ''Output'') (\<lambda>outp.
        andThen (arrayOf outp) (\<lambda>outs.
        andThen (setProp ns ''layout'' (newLayout (length ins) (length outs))) (\<lambda>_.
        andThen (layoutPorts env 0 (H ins outs) (length ins) 0 ins) (\<lambda>inputLayouts.
        andThen (layoutPorts env 100 (H ins outs) (length outs) 0 outs) (\<lambda>outputLayouts.
        andThen (newArr inputLayouts) (\<lambda>a.
        andThen (newArr outputLayouts) (\<lambda>b.
        andThen (setProp ns ''Input'' (ARef a)) (\<lambda>_.
          setProp ns ''Output'' (ARef b)))))))))) ha = Inr ((), h9)" by blast
  from getProp_ORef [OF 1] have live: "ns < length (objs h8)" and inp: "inp = propOf h8 ns ''Input''"
    and ha: "ha = h8" by simp_all
  from andThen_InrD [OF r1] obtain ins hb where 2: "arrayOf inp ha = Inr (ins, hb)"
    and r2: "andThen (getProp (ORef ns) ''Output'') (\<lambda>outp.
        andThen (arrayOf outp) (\<lambda>outs.
        andThen (setProp ns ''layout'' (newLayout (length ins) (length outs))) (\<lambda>_.
        andThen (layoutPorts env 0 (H ins outs) (length ins) 0 ins) (\<lambda>inputLayouts.
        andThen (layoutPorts env 100 (H ins outs) (length outs) 0 outs) (\<lambda>outputLayouts.
        andThen (newArr inputLayouts) (\<lambda>a.
        andThen (newArr outputLayouts) (\<lambda>b.
        andThen (setProp ns ''Input'' (ARef a)) (\<lambda>_.
          setProp ns ''Output'' (ARef b))))))))) hb = Inr ((), h9)" by blast
  from arrayOf_heap [OF 2] ha have hb: "hb = h8" by simp
  from andThen_InrD [OF r2] obtain outp hc where 3: "getProp (ORef ns) ''Output'' hb = Inr (outp, hc)"
    and r3: "andThen (arrayOf outp) (\<lambda>outs.
        andThen (setProp ns ''layout'' (newLayout (length ins) (length outs))) (\<lambda>_.
        andThen (layoutPorts env 0 (H ins outs) (length ins) 0 ins) (\<lambda>inputLayouts.
        andThen (layoutPorts env 100 (H ins outs) (length outs) 0 outs) (\<lambda>outputLayouts.
        andThen (newArr inputLayouts) (\<lambda>a.
        andThen (newArr outputLayouts) (\<lambda>b.
        andThen (setProp ns ''Input'' (ARef a)) (\<lambda>_.
          setProp ns ''Output'' (ARef b)))))))) hc = Inr ((), h9)" by blast
  from getProp_ORef [OF 3] hb have outp: "outp = propOf h8 ns ''Output''" and hc: "hc = h8"
    by simp_all
  from andThen_InrD [OF r3] obtain outs hd where 4: "arrayOf outp hc = Inr (outs, hd)"
    and r4: "andThen (setProp ns ''layout'' (newLayout (length ins) (length outs))) (\<lambda>_.
        andThen (layoutPorts env 0 (H ins outs) (length ins) 0 ins) (\<lambda>inputLayouts.
        andThen (layoutPorts env 100 (H ins outs) (length outs) 0 outs) (\<lambda>outputLayouts.
        andThen (newArr inputLayouts) (\<lambda>a.
        andThen (newArr outputLayouts) (\<lambda>b.
        andThen (setProp ns ''Input'' (ARef a)) (\<lambda>_.
          setProp ns ''Output'' (ARef b))))))) hd = Inr ((), h9)" by blast
  from arrayOf_heap [OF 4] hc have hd: "hd = h8" by simp
  from andThen_InrD [OF r4] obtain u1 he
    where 5: "setProp ns ''layout'' (newLayout (length ins) (length outs)) hd = Inr (u1, he)"
    and r5: "andThen (layoutPorts env 0 (H ins outs) (length ins) 0 ins) (\<lambda>inputLayouts.
        andThen (layoutPorts env 100 (H ins outs) (length outs) 0 outs) (\<lambda>outputLayouts.
        andThen (newArr inputLayouts) (\<lambda>a.
        andThen (newArr outputLayouts) (\<lambda>b.
        andThen (setProp ns ''Input'' (ARef a)) (\<lambda>_.
          setProp ns ''Output'' (ARef b)))))) he = Inr ((), h9)" by blast
  from setProp_Inr [OF 5] hd
  have he: "he = h8\<lparr>objs := (objs h8)[ns := objSet (objs h8 ! ns) ''layout''
                 (newLayout (length ins) (length outs))]\<rparr>" by simp
  from andThen_InrD [OF r5] obtain qi hf
    where 6: "layoutPorts env 0 (H ins outs) (length ins) 0 ins he = Inr (qi, hf)"
    and r6: "andThen (layoutPorts env 100 (H ins outs) (length outs) 0 outs) (\<lambda>outputLayouts.
        andThen (newArr qi) (\<lambda>a.
        andThen (newArr outputLayouts) (\<lambda>b.
        andThen (setProp ns ''Input'' (ARef a)) (\<lambda>_.
          setProp ns ''Output'' (ARef b))))) hf = Inr ((), h9)" by blast
  from layoutPorts_Inr [OF 6]
  have hf: "hf = he\<lparr>idCounter := idCounter he + length ins\<rparr>" and qi: "length qi = length ins"
    "\<forall>j<length ins. \<exists>props. spreadProps (ins ! j) he = Inr (props, he) \<and>
        qi ! j = JObj (objSet props ''layoutProperties''
                  (portAt 0 (H ins outs) (length ins) (0 + j) (generateId env (idCounter he + j))))"
    by simp_all
  from andThen_InrD [OF r6] obtain qo hg
    where 7: "layoutPorts env 100 (H ins outs) (length outs) 0 outs hf = Inr (qo, hg)"
    and r7: "andThen (newArr qi) (\<lambda>a.
        andThen (newArr qo) (\<lambda>b.
        andThen (setProp ns ''Input'' (ARef a)) (\<lambda>_.
          setProp ns ''Output'' (ARef b)))) hg = Inr ((), h9)" by blast
  from layoutPorts_Inr [OF 7]
  have hg: "hg = hf\<lparr>idCounter := idCounter hf + length outs\<rparr>" and qo: "length qo = length outs"
    "\<forall>j<length outs. \<exists>props. spreadProps (outs ! j) hf = Inr (props, hf) \<and>
        qo ! j = JObj (objSet props ''layoutProperties''
                  (portAt 100 (H ins outs) (length outs) (0 + j) (generateId env (idCounter hf + j))))"
    by simp_all
  from andThen_InrD [OF r7] obtain a hi where 8: "newArr qi hg = Inr (a, hi)"
    and r8: "andThen (newArr qo) (\<lambda>b.
        andThen (setProp ns ''Input'' (ARef a)) (\<lambda>_.
          setProp ns ''Output'' (ARef b))) hi = Inr ((), h9)" by blast
  from newArr_Inr [OF 8] have a: "a = length (arrs hg)" and hi: "hi = hg\<lparr>arrs := arrs hg @ [qi]\<rparr>"
    by simp_all
  from andThen_InrD [OF r8] obtain b hj where 9: "newArr qo hi = Inr (b, hj)"
    and r9: "andThen (setProp ns ''Input'' (ARef a)) (\<lambda>_.
          setProp ns ''Output'' (ARef b)) hj = Inr ((), h9)" by blast
  from newArr_Inr [OF 9] have b: "b = length (arrs hi)" and hj: "hj = hi\<lparr>arrs := arrs hi @ [qo]\<rparr>"
    by simp_all
  from andThen_InrD [OF r9] obtain u2 hk where 10: "setProp ns ''Input'' (ARef a) hj = Inr (u2, hk)"
    and 11: "setProp ns ''Output'' (ARef b) hk = Inr ((), h9)" by blast
  note s10 = setProp_Inr [OF 10] and s11 = setProp_Inr [OF 11]
  have arrs_g: "arrs hg = arrs h8" using hg hf he by simp
  have objs_j: "objs hj = objs he" using hj hi hg hf by simp
  have counter: "idCounter he = idCounter h8" "idCounter hf = idCounter h8 + length ins"
    using he hf by simp_all
  have arrs9: "arrs h9 = arrs h8 @ [qi, qo]"
    using s10 s11 hj hi arrs_g by simp
  have objs9: "objs h9 = (objs he)[ns := objSet (objSet (objs he ! ns) ''Input''
                                              (ARef (length (arrs h8))))
                                       ''Output'' (ARef (Suc (length (arrs h8))))]"
    using s10 s11 objs_j a b hi arrs_g he live by simp
  have pi: "\<forall>j<length ins. \<exists>props. spreadProps (ins ! j) he = Inr (props, he) \<and>
              qi ! j = JObj (objSet props ''layoutProperties''
                (portAt 0 (layoutHeight (length ins) (length outs)) (length ins) j
                   (generateId env (idCounter h8 + j))))"
    using qi(2) counter by (simp add: H_def)
  have po: "\<forall>j<length outs. \<exists>props. spreadProps (outs ! j) he = Inr (props, he) \<and>
              qo ! j = JObj (objSet props ''layoutProperties''
                (portAt 100 (layoutHeight (length ins) (length outs)) (length outs) j
                   (generateId env (idCounter h8 + length ins + j))))"
    using qo(2) counter hf by (simp add: H_def spreadProps_idCounter)
  from 2 ha hb inp have i2: "arrayOf (propOf h8 ns ''Input'') h8 = Inr (ins, h8)" by simp
  from 4 hc hd outp have o2: "arrayOf (propOf h8 ns ''Output'') h8 = Inr (outs, h8)" by simp
  from i2 o2 live he arrs9 objs9 qi(1) qo(1) pi po show ?thesis
    by blast
qed

lemma getProp_plain:
  assumes "\<forall>r. v \<noteq> ORef r" and "getProp v ''titleEnabled'' h = Inr (x, h')"
  shows "x = docTitleEnabled v"
  using assms
  by (cases v) (auto simp: getProp_def docTitleEnabled_def andThen_Inr ret_def throw_def
      split: if_splits)

lemma docTitleEnabled_object:
  "docTitleEnabled v \<noteq> JUndefined \<Longrightarrow> \<exists>ps. v = JObj ps"
  by (cases v) (simp_all add: docTitleEnabled_def)

lemma defaultTitleEnabled_Inr:
  assumes "defaultTitleEnabled ns h9 = Inr ((), h')"
  shows "ns < length (objs h9) \<and>
         (\<exists>te. getProp (propOf h9 ns ''layout'') ''titleEnabled'' h9 = Inr (te, h9) \<and>
            (if te = JUndefined
             then \<exists>ps. spreadProps (propOf h9 ns ''layout'') h9 = Inr (ps, h9) \<and>
                    h' = h9\<lparr>objs := (objs h9)[ns := objSet (objs h9 ! ns) ''layout''
                             (JObj (objSet ps ''titleEnabled'' (JBool True)))]\<rparr>
             else h' = h9))"
proof -
  from andThen_InrD [OF assms [unfolded defaultTitleEnabled_def]]
  obtain lay ha where 1: "getProp (ORef ns) ''layout'' h9 = Inr (lay, ha)"
    and r1: "andThen (getProp lay ''titleEnabled'') (\<lambda>te.
       if te = JUndefined
       then andThen (spreadProps lay) (\<lambda>ps.
              setProp ns ''layout'' (JObj (objSet ps ''titleEnabled'' (JBool True))))
       else ret ()) ha = Inr ((), h')" by blast
  from getProp_ORef [OF 1] have live: "ns < length (objs h9)"
    and lay: "lay = propOf h9 ns ''layout''" and ha: "ha = h9" by simp_all
  from andThen_InrD [OF r1] obtain te hb where 2: "getProp lay ''titleEnabled'' ha = Inr (te, hb)"
    and r2: "(if te = JUndefined
       then andThen (spreadProps lay) (\<lambda>ps.
              setProp ns ''layout'' (JObj (objSet ps ''titleEnabled'' (JBool True))))
       else ret ()) hb = Inr ((), h')" by blast
  from getProp_heap [OF 2] ha have hb: "hb = h9" by simp
  show ?thesis
  proof (cases "te = JUndefined")
    case True
    with r2 have "andThen (spreadProps lay) (\<lambda>ps.
              setProp ns ''layout'' (JObj (objSet ps ''titleEnabled'' (JBool True)))) hb = Inr ((), h')"
      by simp
    from andThen_InrD [OF this] obtain ps hc where 3: "spreadProps lay hb = Inr (ps, hc)"
      and 4: "setProp ns ''layout'' (JObj (objSet ps ''titleEnabled'' (JBool True))) hc = Inr ((), h')"
      by blast
    from spreadProps_heap [OF 3] hb have hc: "hc = h9" by simp
    from setProp_Inr [OF 4] hc
    have "h' = h9\<lparr>objs := (objs h9)[ns := objSet (objs h9 ! ns) ''layout''
                             (JObj (objSet ps ''titleEnabled'' (JBool True)))]\<rparr>" by simp
    with live 2 3 True lay ha hb hc show ?thesis by auto
  next
    case False
    with r2 hb have "h' = h9" by (simp add: ret_def)
    with live 2 False lay ha hb show ?thesis by auto
  qed
qed

lemma newLayout_untitled:
  "getProp (newLayout n m) ''titleEnabled'' h = Inr (JUndefined, h)"
  by (simp add: newLayout_def getProp_def ret_def objGet_def objectPrototype_def)

lemma newLayout_titled:
  "spreadProps (newLayout n m) h = Inr (ps, h') \<Longrightarrow>
   objSet ps ''titleEnabled'' (JBool True) =
     [(''width'', JNum 100), (''height'', JNum (layoutHeight n m)),
      (''title_x'', JNum 50), (''title_y'', JNum 13), (''titleEnabled'', JBool True)]"
  by (auto simp: newLayout_def spreadProps_def ret_def objSet_def)

text \<open>
  C8. A scope document without a layout record (\<open>data.layout\<close> is falsy). Let \<open>h8\<close> be
  the heap when \<open>loadScope\<close> comes to the layout, and \<open>ins\<close> and \<open>outs\<close> the arrays
  \<open>newScope.Input\<close> and \<open>newScope.Output\<close> there, of \<open>n\<close> and \<open>m\<close> ports. When
  \<open>loadScope\<close> returns, the layout of the returned scope has width 100, height
  \<open>max n m * 20 + 20\<close>, title_x 50 and title_y 13 (and the title flag that the next step
  adds), and \<open>Input\<close> and \<open>Output\<close> are two new arrays of \<open>n\<close> and \<open>m\<close> ports: port
  \<open>i\<close> is a copy of the own properties of port \<open>i\<close> of \<open>ins\<close> (of \<open>outs\<close>) with the
  added \<open>layoutProperties\<close> \<open>x = 0\<close> (\<open>x = 100\<close>, the width),
  \<open>y = height / 2 - n * 10 + 20 * i + 10\<close> (with \<open>m\<close> for \<open>n\<close>) and the next generated
  id. The height is even, so the division is exact.
\<close>

theorem loadScope_synthesized_layout:
  assumes "\<not> truthy (s_layout data)" and "loadScope env scope data h = Inr (ns, h')"
  shows "\<exists>h8 ins outs hL.
           loadContents env scope data h = Inr (ns, h8) \<and>
           arrayOf (propOf h8 ns ''Input'') h8 = Inr (ins, h8) \<and>
           arrayOf (propOf h8 ns ''Output'') h8 = Inr (outs, h8) \<and>
           hL = h8\<lparr>objs := (objs h8)[ns := objSet (objs h8 ! ns) ''layout''
                                           (newLayout (length ins) (length outs))]\<rparr> \<and>
           (let n = length ins; m = length outs; height = int (max n m) * 20 + 20;
                a = length (arrs h8)
            in 2 * (height div 2) = height \<and>
               propOf h' ns ''layout'' =
                 JObj [(''width'', JNum 100), (''height'', JNum height),
                       (''title_x'', JNum 50), (''title_y'', JNum 13),
                       (''titleEnabled'', JBool True)] \<and>
               propOf h' ns ''Input'' = ARef a \<and> propOf h' ns ''Output'' = ARef (Suc a) \<and>
               length (arrs h') = a + 2 \<and> take a (arrs h') = arrs h8 \<and>
               length (arrs h' ! a) = n \<and> length (arrs h' ! Suc a) = m \<and>
               (\<forall>i<n. \<exists>props. spreadProps (ins ! i) hL = Inr (props, hL) \<and>
                  arrs h' ! a ! i =
                    JObj (objSet props ''layoutProperties''
                      (JObj [(''x'', JNum 0),
                             (''y'', JNum (height div 2 - int n * 10 + 20 * int i + 10)),
                             (''id'', JStr (generateId env (idCounter h8 + i)))]))) \<and>
               (\<forall>i<m. \<exists>props. spreadProps (outs ! i) hL = Inr (props, hL) \<and>
                  arrs h' ! Suc a ! i =
                    JObj (objSet props ''layoutProperties''
                      (JObj [(''x'', JNum 100),
                             (''y'', JNum (height div 2 - int m * 10 + 20 * int i + 10)),
                             (''id'', JStr (generateId env (idCounter h8 + n + i)))]))))"
proof -
  from loadScope_steps [OF assms(2)] obtain h8 h9
    where pre: "loadContents env scope data h = Inr (ns, h8)"
      and res: "resolveLayout env ns data h8 = Inr ((), h9)"
      and dflt: "defaultTitleEnabled ns h9 = Inr ((), h')" by blast
  from resolveLayout_synthesizes [OF assms(1) res] obtain ins outs qi qo :: "jsval list" and hL
    where ins: "arrayOf (propOf h8 ns ''Input'') h8 = Inr (ins, h8)"
      and outs: "arrayOf (propOf h8 ns ''Output'') h8 = Inr (outs, h8)"
      and live: "ns < length (objs h8)"
      and hL: "hL = h8\<lparr>objs := (objs h8)[ns := objSet (objs h8 ! ns) ''layout''
                                           (newLayout (length ins) (length outs))]\<rparr>"
      and arrs9: "arrs h9 = arrs h8 @ [qi, qo]"
      and objs9: "objs h9 = (objs hL)[ns := objSet (objSet (objs hL ! ns) ''Input''
                                              (ARef (length (arrs h8))))
                                       ''Output'' (ARef (Suc (length (arrs h8))))]"
      and len: "length qi = length ins" "length qo = length outs"
      and pi: "\<forall>j<length ins. \<exists>props. spreadProps (ins ! j) hL = Inr (props, hL) \<and>
              qi ! j = JObj (objSet props ''layoutProperties''
                (portAt 0 (layoutHeight (length ins) (length outs)) (length ins) j
                   (generateId env (idCounter h8 + j))))"
      and po: "\<forall>j<length outs. \<exists>props. spreadProps (outs ! j) hL = Inr (props, hL) \<and>
              qo ! j = JObj (objSet props ''layoutProperties''
                (portAt 100 (layoutHeight (length ins) (length outs)) (length outs) j
                   (generateId env (idCounter h8 + length ins + j))))"
    by blast
  have live9: "ns < length (objs h9)" using objs9 hL live by simp
  have lay: "propOf h9 ns ''layout'' = newLayout (length ins) (length outs)"
    and inp: "propOf h9 ns ''Input'' = ARef (length (arrs h8))"
    and outp: "propOf h9 ns ''Output'' = ARef (Suc (length (arrs h8)))"
    using objs9 hL live by (simp_all add: propOf_def objGet_objSet)
  from defaultTitleEnabled_Inr [OF dflt] lay newLayout_untitled [of "length ins" "length outs" h9]
  obtain ps where sp: "spreadProps (newLayout (length ins) (length outs)) h9 = Inr (ps, h9)"
    and h': "h' = h9\<lparr>objs := (objs h9)[ns := objSet (objs h9 ! ns) ''layout''
                             (JObj (objSet ps ''titleEnabled'' (JBool True)))]\<rparr>"
    by auto
  note titled = newLayout_titled [OF sp]
  have arrs': "arrs h' = arrs h8 @ [qi, qo]" using h' arrs9 by simp
  have layout': "propOf h' ns ''layout'' =
      JObj [(''width'', JNum 100), (''height'', JNum (layoutHeight (length ins) (length outs))),
            (''title_x'', JNum 50), (''title_y'', JNum 13), (''titleEnabled'', JBool True)]"
    using h' live9 titled by (simp add: propOf_def objGet_objSet)
  have inp': "propOf h' ns ''Input'' = ARef (length (arrs h8))"
    using h' live9 inp by (simp add: propOf_def objGet_objSet)
  have outp': "propOf h' ns ''Output'' = ARef (Suc (length (arrs h8)))"
    using h' live9 outp by (simp add: propOf_def objGet_objSet)
  have a: "arrs h' ! length (arrs h8) = qi" using arrs' by simp
  have b: "arrs h' ! Suc (length (arrs h8)) = qo" using arrs' by (simp add: nth_append)
  have "let n = length ins; m = length outs; height = int (max n m) * 20 + 20;
                a = length (arrs h8)
            in 2 * (height div 2) = height \<and>
               propOf h' ns ''layout'' =
                 JObj [(''width'', JNum 100), (''height'', JNum height),
                       (''title_x'', JNum 50), (''title_y'', JNum 13),
                       (''titleEnabled'', JBool True)] \<and>
               propOf h' ns ''Input'' = ARef a \<and> propOf h' ns ''Output'' = ARef (Suc a) \<and>
               length (arrs h') = a + 2 \<and> take a (arrs h') = arrs h8 \<and>
               length (arrs h' ! a) = n \<and> length (arrs h' ! Suc a) = m \<and>
               (\<forall>i<n. \<exists>props. spreadProps (ins ! i) hL = Inr (props, hL) \<and>
                  arrs h' ! a ! i =
                    JObj (objSet props ''layoutProperties''
                      (JObj [(''x'', JNum 0),
                             (''y'', JNum (height div 2 - int n * 10 + 20 * int i + 10)),
                             (''id'', JStr (generateId env (idCounter h8 + i)))]))) \<and>
               (\<forall>i<m. \<exists>props. spreadProps (outs ! i) hL = Inr (props, hL) \<and>
                  arrs h' ! Suc a ! i =
                    JObj (objSet props ''layoutProperties''
                      (JObj [(''x'', JNum 100),
                             (''y'', JNum (height div 2 - int m * 10 + 20 * int i + 10)),
                             (''id'', JStr (generateId env (idCounter h8 + n + i)))])))"
    unfolding Let_def a b
    using inp' outp' arrs' layout' pi po len layoutHeight_even [of "length ins" "length outs"]
    by (simp add: layoutHeight_def portAt_def)
  with pre ins outs hL show ?thesis by blast
qed

text \<open>
  C9. The title flag, for a document whose layout is a value of the document (not a
  reference to a live object). Let \<open>h9\<close> be the heap after the layout has been resolved,
  so that the resolved layout is the layout of the new scope in \<open>h9\<close>: the document's
  layout when that is truthy, a new layout otherwise. If the resolved layout has a
  \<open>titleEnabled\<close> that is not \<open>undefined\<close>, nothing changes any more: the layout stays
  as it is, and an explicit \<open>false\<close> stays \<open>false\<close>. Otherwise the layout of the new
  scope becomes a copy of the resolved layout with \<open>titleEnabled: true\<close> added, and
  nothing else changes.
\<close>

theorem loadScope_titleEnabled:
  assumes "loadScope env scope data h = Inr (ns, h')" and "\<forall>r. s_layout data \<noteq> ORef r"
  shows "\<exists>h8 h9 resolved.
           loadContents env scope data h = Inr (ns, h8) \<and>
           resolveLayout env ns data h8 = Inr ((), h9) \<and>
           ns < length (objs h9) \<and>
           resolved = propOf h9 ns ''layout'' \<and>
           (if truthy (s_layout data) then resolved = s_layout data
            else \<exists>n m. resolved = newLayout n m) \<and>
           (if docTitleEnabled resolved \<noteq> JUndefined
            then h' = h9 \<and> propOf h' ns ''layout'' = resolved
            else \<exists>ps. spreadProps resolved h9 = Inr (ps, h9) \<and>
                   propOf h' ns ''layout'' = JObj (objSet ps ''titleEnabled'' (JBool True)) \<and>
                   h' = h9\<lparr>objs := (objs h9)[ns := objSet (objs h9 ! ns) ''layout''
                            (JObj (objSet ps ''titleEnabled'' (JBool True)))]\<rparr>)"
proof -
  from loadScope_steps [OF assms(1)] obtain h8 h9
    where pre: "loadContents env scope data h = Inr (ns, h8)"
      and res: "resolveLayout env ns data h8 = Inr ((), h9)"
      and dflt: "defaultTitleEnabled ns h9 = Inr ((), h')" by blast
  from defaultTitleEnabled_Inr [OF dflt] obtain te
    where live: "ns < length (objs h9)"
      and te: "getProp (propOf h9 ns ''layout'') ''titleEnabled'' h9 = Inr (te, h9)"
      and fin: "if te = JUndefined
             then \<exists>ps. spreadProps (propOf h9 ns ''layout'') h9 = Inr (ps, h9) \<and>
                    h' = h9\<lparr>objs := (objs h9)[ns := objSet (objs h9 ! ns) ''layout''
                             (JObj (objSet ps ''titleEnabled'' (JBool True)))]\<rparr>
             else h' = h9" by blast
  have source: "if truthy (s_layout data) then propOf h9 ns ''layout'' = s_layout data
                else \<exists>n m. propOf h9 ns ''layout'' = newLayout n m"
  proof (cases "truthy (s_layout data)")
    case True
    with res have "setProp ns ''layout'' (s_layout data) h8 = Inr ((), h9)"
      by (simp add: resolveLayout_def)
    from setProp_Inr [OF this] True show ?thesis
      by (simp add: propOf_def objGet_objSet)
  next
    case False
    from resolveLayout_synthesizes [OF False res]
    obtain ins outs :: "jsval list" and hL
      where live8: "ns < length (objs h8)"
        and hL: "hL = h8\<lparr>objs := (objs h8)[ns := objSet (objs h8 ! ns) ''layout''
                                           (newLayout (length ins) (length outs))]\<rparr>"
        and objs9: "objs h9 = (objs hL)[ns := objSet (objSet (objs hL ! ns) ''Input''
                                              (ARef (length (arrs h8))))
                                       ''Output'' (ARef (Suc (length (arrs h8))))]"
      by blast
    then have "propOf h9 ns ''layout'' = newLayout (length ins) (length outs)"
      by (simp add: propOf_def objGet_objSet)
    with False show ?thesis by auto
  qed
  have plain: "\<forall>r. propOf h9 ns ''layout'' \<noteq> ORef r"
    using source assms(2) by (auto simp: newLayout_def split: if_splits)
  from getProp_plain [OF plain te] have te_doc: "te = docTitleEnabled (propOf h9 ns ''layout'')" .
  have final: "if docTitleEnabled (propOf h9 ns ''layout'') \<noteq> JUndefined
            then h' = h9 \<and> propOf h' ns ''layout'' = propOf h9 ns ''layout''
            else \<exists>ps. spreadProps (propOf h9 ns ''layout'') h9 = Inr (ps, h9) \<and>
                   propOf h' ns ''layout'' = JObj (objSet ps ''titleEnabled'' (JBool True)) \<and>
                   h' = h9\<lparr>objs := (objs h9)[ns := objSet (objs h9 ! ns) ''layout''
                            (JObj (objSet ps ''titleEnabled'' (JBool True)))]\<rparr>"
  proof (cases "te = JUndefined")
    case True
    with fin obtain ps where sp: "spreadProps (propOf h9 ns ''layout'') h9 = Inr (ps, h9)"
      and h': "h' = h9\<lparr>objs := (objs h9)[ns := objSet (objs h9 ! ns) ''layout''
                             (JObj (objSet ps ''titleEnabled'' (JBool True)))]\<rparr>" by auto
    from h' live have "propOf h' ns ''layout'' = JObj (objSet ps ''titleEnabled'' (JBool True))"
      by (simp add: propOf_def objGet_objSet)
    with sp h' True te_doc show ?thesis by auto
  next
    case False
    with fin te_doc show ?thesis by simp
  qed
  from pre res live source final show ?thesis by blast
qed

lemma sample_run: "loadScope exEnv 0 sampleDoc oneScope = Inr (1, sampleResult)"
  by code_simp

lemma sample_no_layout: "s_layout sampleDoc = JUndefined"
  by code_simp

lemma sample_contents:
  "loadContents exEnv 0 sampleDoc oneScope = Inr (1, sampleContents) \<and>
   arrayOf (propOf sampleContents 1 ''Input'') sampleContents = Inr ([ORef 4], sampleContents) \<and>
   arrayOf (propOf sampleContents 1 ''Output'') sampleContents = Inr ([ORef 5], sampleContents) \<and>
   length (arrs sampleContents) = 4 \<and> idCounter sampleContents = 0"
  by code_simp

lemma twoInput_run: "loadScope exEnv 0 twoInputDoc oneScope = Inr (1, twoInputResult)"
  by code_simp

lemma twoInput_no_layout: "s_layout twoInputDoc = JUndefined"
  by code_simp

lemma twoInput_contents:
  "loadContents exEnv 0 twoInputDoc oneScope = Inr (1, twoInputContents) \<and>
   arrayOf (propOf twoInputContents 1 ''Input'') twoInputContents =
     Inr ([ORef 4, ORef 5], twoInputContents) \<and>
   arrayOf (propOf twoInputContents 1 ''Output'') twoInputContents =
     Inr ([ORef 6], twoInputContents) \<and>
   length (arrs twoInputContents) = 4 \<and> idCounter twoInputContents = 0"
  by code_simp

lemma exEnv_ids:
  "generateId exEnv 0 = ''id0''" "generateId exEnv 1 = ''id1''" "generateId exEnv 2 = ''id2''"
  by code_simp+

lemma layoutPropertiesOf_port:
  "layoutPropertiesOf (JObj (objSet props ''layoutProperties'' v)) = v"
  by (simp add: layoutPropertiesOf_def objGet_objSet)

text \<open>
  The ports keep what they had: on the document with two inputs, the first new input
  port is the first input of the scope with the layout properties added.
\<close>

lemma twoInput_first_port:
  "arrs twoInputResult ! 4 ! 0 =
     JObj (objSet (objs twoInputContents ! 4) ''layoutProperties''
             (JObj [(''x'', JNum 0), (''y'', JNum 20), (''id'', JStr ''id0'')])) \<and>
   objGet (objs twoInputContents ! 4) ''objectType'' = JStr ''Input''"
  by code_simp

text \<open>
  The example of the specification, one input and one output: the height is 40, the
  title is at (50, 13), and both ports are at \<open>y = 20\<close>, the input at \<open>x = 0\<close> and the
  output at \<open>x = 100\<close>. And a document with two inputs and one output: the height is 60,
  the inputs are at \<open>y = 20\<close> and \<open>y = 40\<close>, the output is at \<open>y = 30\<close>.
\<close>

theorem loadScope_synthesized_layout_witness:
  "s_layout sampleDoc = JUndefined \<and>
   loadScope exEnv 0 sampleDoc oneScope = Inr (1, sampleResult) \<and>
   propOf sampleResult 1 ''layout'' =
     JObj [(''width'', JNum 100), (''height'', JNum 40), (''title_x'', JNum 50),
           (''title_y'', JNum 13), (''titleEnabled'', JBool True)] \<and>
   propOf sampleResult 1 ''Input'' = ARef 4 \<and> propOf sampleResult 1 ''Output'' = ARef 5 \<and>
   map layoutPropertiesOf (arrs sampleResult ! 4) =
     [JObj [(''x'', JNum 0), (''y'', JNum 20), (''id'', JStr ''id0'')]] \<and>
   map layoutPropertiesOf (arrs sampleResult ! 5) =
     [JObj [(''x'', JNum 100), (''y'', JNum 20), (''id'', JStr ''id1'')]] \<and>
   s_layout twoInputDoc = JUndefined \<and>
   loadScope exEnv 0 twoInputDoc oneScope = Inr (1, twoInputResult) \<and>
   propOf twoInputResult 1 ''layout'' =
     JObj [(''width'', JNum 100), (''height'', JNum 60), (''title_x'', JNum 50),
           (''title_y'', JNum 13), (''titleEnabled'', JBool True)] \<and>
   propOf twoInputResult 1 ''Input'' = ARef 4 \<and> propOf twoInputResult 1 ''Output'' = ARef 5 \<and>
   map layoutPropertiesOf (arrs twoInputResult ! 4) =
     [JObj [(''x'', JNum 0), (''y'', JNum 20), (''id'', JStr ''id0'')],
      JObj [(''x'', JNum 0), (''y'', JNum 40), (''id'', JStr ''id1'')]] \<and>
   map layoutPropertiesOf (arrs twoInputResult ! 5) =
     [JObj [(''x'', JNum 100), (''y'', JNum 30), (''id'', JStr ''id2'')]]"
proof -
  have one: "propOf sampleResult 1 ''layout'' =
     JObj [(''width'', JNum 100), (''height'', JNum 40), (''title_x'', JNum 50),
           (''title_y'', JNum 13), (''titleEnabled'', JBool True)] \<and>
   propOf sampleResult 1 ''Input'' = ARef 4 \<and> propOf sampleResult 1 ''Output'' = ARef 5 \<and>
   map layoutPropertiesOf (arrs sampleResult ! 4) =
     [JObj [(''x'', JNum 0), (''y'', JNum 20), (''id'', JStr ''id0'')]] \<and>
   map layoutPropertiesOf (arrs sampleResult ! 5) =
     [JObj [(''x'', JNum 100), (''y'', JNum 20), (''id'', JStr ''id1'')]]"
  proof -
    have "\<not> truthy (s_layout sampleDoc)" by (simp add: sample_no_layout)
    from loadScope_synthesized_layout [OF this sample_run]
    obtain h8 ins outs hL
      where pre: "loadContents exEnv 0 sampleDoc oneScope = Inr (1, h8)"
        and ins: "arrayOf (propOf h8 1 ''Input'') h8 = Inr (ins, h8)"
        and outs: "arrayOf (propOf h8 1 ''Output'') h8 = Inr (outs, h8)"
        and main: "let n = length ins; m = length outs; height = int (max n m) * 20 + 20;
                a = length (arrs h8)
            in 2 * (height div 2) = height \<and>
               propOf sampleResult 1 ''layout'' =
                 JObj [(''width'', JNum 100), (''height'', JNum height),
                       (''title_x'', JNum 50), (''title_y'', JNum 13),
                       (''titleEnabled'', JBool True)] \<and>
               propOf sampleResult 1 ''Input'' = ARef a \<and>
               propOf sampleResult 1 ''Output'' = ARef (Suc a) \<and>
               length (arrs sampleResult) = a + 2 \<and> take a (arrs sampleResult) = arrs h8 \<and>
               length (arrs sampleResult ! a) = n \<and> length (arrs sampleResult ! Suc a) = m \<and>
               (\<forall>i<n. \<exists>props. spreadProps (ins ! i) hL = Inr (props, hL) \<and>
                  arrs sampleResult ! a ! i =
                    JObj (objSet props ''layoutProperties''
                      (JObj [(''x'', JNum 0),
                             (''y'', JNum (height div 2 - int n * 10 + 20 * int i + 10)),
                             (''id'', JStr (generateId exEnv (idCounter h8 + i)))]))) \<and>
               (\<forall>i<m. \<exists>props. spreadProps (outs ! i) hL = Inr (props, hL) \<and>
                  arrs sampleResult ! Suc a ! i =
                    JObj (objSet props ''layoutProperties''
                      (JObj [(''x'', JNum 100),
                             (''y'', JNum (height div 2 - int m * 10 + 20 * int i + 10)),
                             (''id'', JStr (generateId exEnv (idCounter h8 + n + i)))])))"
      by blast
    from pre sample_contents have h8: "h8 = sampleContents" by simp
    with ins outs sample_contents have io: "ins = [ORef 4]" "outs = [ORef 5]" by simp_all
    from main sample_contents exEnv_ids
    have lay: "propOf sampleResult 1 ''layout'' =
                 JObj [(''width'', JNum 100), (''height'', JNum 40),
                       (''title_x'', JNum 50), (''title_y'', JNum 13),
                       (''titleEnabled'', JBool True)]"
      and refs: "propOf sampleResult 1 ''Input'' = ARef 4" "propOf sampleResult 1 ''Output'' = ARef 5"
      and lens: "length (arrs sampleResult ! 4) = 1" "length (arrs sampleResult ! 5) = 1"
      and p0: "layoutPropertiesOf (arrs sampleResult ! 4 ! 0) =
                 JObj [(''x'', JNum 0), (''y'', JNum 20), (''id'', JStr ''id0'')]"
      and q0: "layoutPropertiesOf (arrs sampleResult ! 5 ! 0) =
                 JObj [(''x'', JNum 100), (''y'', JNum 20), (''id'', JStr ''id1'')]"
      unfolding Let_def h8 io
      by (auto simp: layoutPropertiesOf_port eval_nat_numeral)
    from lens p0 have "map layoutPropertiesOf (arrs sampleResult ! 4) =
        [JObj [(''x'', JNum 0), (''y'', JNum 20), (''id'', JStr ''id0'')]]"
      by (cases "arrs sampleResult ! 4") auto
    moreover from lens q0 have "map layoutPropertiesOf (arrs sampleResult ! 5) =
        [JObj [(''x'', JNum 100), (''y'', JNum 20), (''id'', JStr ''id1'')]]"
      by (cases "arrs sampleResult ! 5") auto
    ultimately show ?thesis using lay refs by simp
  qed
  have two: "propOf twoInputResult 1 ''layout'' =
     JObj [(''width'', JNum 100), (''height'', JNum 60), (''title_x'', JNum 50),
           (''title_y'', JNum 13), (''titleEnabled'', JBool True)] \<and>
   propOf twoInputResult 1 ''Input'' = ARef 4 \<and> propOf twoInputResult 1 ''Output'' = ARef 5 \<and>
   map layoutPropertiesOf (arrs twoInputResult ! 4) =
     [JObj [(''x'', JNum 0), (''y'', JNum 20), (''id'', JStr ''id0'')],
      JObj [(''x'', JNum 0), (''y'', JNum 40), (''id'', JStr ''id1'')]] \<and>
   map layoutPropertiesOf (arrs twoInputResult ! 5) =
     [JObj [(''x'', JNum 100), (''y'', JNum 30), (''id'', JStr ''id2'')]]"
  proof -
    have "\<not> truthy (s_layout twoInputDoc)" by (simp add: twoInput_no_layout)
    from loadScope_synthesized_layout [OF this twoInput_run]
    obtain h8 ins outs hL
      where pre: "loadContents exEnv 0 twoInputDoc oneScope = Inr (1, h8)"
        and ins: "arrayOf (propOf h8 1 ''Input'') h8 = Inr (ins, h8)"
        and outs: "arrayOf (propOf h8 1 ''Output'') h8 = Inr (outs, h8)"
        and main: "let n = length ins; m = length outs; height = int (max n m) * 20 + 20;
                a = length (arrs h8)
            in 2 * (height div 2) = height \<and>
               propOf twoInputResult 1 ''layout'' =
                 JObj [(''width'', JNum 100), (''height'', JNum height),
                       (''title_x'', JNum 50), (''title_y'', JNum 13),
                       (''titleEnabled'', JBool True)] \<and>
               propOf twoInputResult 1 ''Input'' = ARef a \<and>
               propOf twoInputResult 1 ''Output'' = ARef (Suc a) \<and>
               length (arrs twoInputResult) = a + 2 \<and> take a (arrs twoInputResult) = arrs h8 \<and>
               length (arrs twoInputResult ! a) = n \<and> length (arrs twoInputResult ! Suc a) = m \<and>
               (\<forall>i<n. \<exists>props. spreadProps (ins ! i) hL = Inr (props, hL) \<and>
                  arrs twoInputResult ! a ! i =
                    JObj (objSet props ''layoutProperties''
                      (JObj [(''x'', JNum 0),
                             (''y'', JNum (height div 2 - int n * 10 + 20 * int i + 10)),
                             (''id'', JStr (generateId exEnv (idCounter h8 + i)))]))) \<and>
               (\<forall>i<m. \<exists>props. spreadProps (outs ! i) hL = Inr (props, hL) \<and>
                  arrs twoInputResult ! Suc a ! i =
                    JObj (objSet props ''layoutProperties''
                      (JObj [(''x'', JNum 100),
                             (''y'', JNum (height div 2 - int m * 10 + 20 * int i + 10)),
                             (''id'', JStr (generateId exEnv (idCounter h8 + n + i)))])))"
      by blast
    from pre twoInput_contents have h8: "h8 = twoInputContents" by simp
    with ins outs twoInput_contents have io: "ins = [ORef 4, ORef 5]" "outs = [ORef 6]"
      by simp_all
    from main twoInput_contents exEnv_ids
    have lay: "propOf twoInputResult 1 ''layout'' =
                 JObj [(''width'', JNum 100), (''height'', JNum 60),
                       (''title_x'', JNum 50), (''title_y'', JNum 13),
                       (''titleEnabled'', JBool True)]"
      and refs: "propOf twoInputResult 1 ''Input'' = ARef 4"
        "propOf twoInputResult 1 ''Output'' = ARef 5"
      and lens: "length (arrs twoInputResult ! 4) = 2" "length (arrs twoInputResult ! 5) = 1"
      and p0: "layoutPropertiesOf (arrs twoInputResult ! 4 ! 0) =
                 JObj [(''x'', JNum 0), (''y'', JNum 20), (''id'', JStr ''id0'')]"
      and p1: "layoutPropertiesOf (arrs twoInputResult ! 4 ! 1) =
                 JObj [(''x'', JNum 0), (''y'', JNum 40), (''id'', JStr ''id1'')]"
      and q0: "layoutPropertiesOf (arrs twoInputResult ! 5 ! 0) =
                 JObj [(''x'', JNum 100), (''y'', JNum 30), (''id'', JStr ''id2'')]"
      unfolding Let_def h8 io
      by (auto simp: layoutPropertiesOf_port eval_nat_numeral)
    from lens p0 p1 have "map layoutPropertiesOf (arrs twoInputResult ! 4) =
        [JObj [(''x'', JNum 0), (''y'', JNum 20), (''id'', JStr ''id0'')],
         JObj [(''x'', JNum 0), (''y'', JNum 40), (''id'', JStr ''id1'')]]"
      by (cases "arrs twoInputResult ! 4"; cases "tl (arrs twoInputResult ! 4)") auto
    moreover from lens q0 have "map layoutPropertiesOf (arrs twoInputResult ! 5) =
        [JObj [(''x'', JNum 100), (''y'', JNum 30), (''id'', JStr ''id2'')]]"
      by (cases "arrs twoInputResult ! 5") auto
    ultimately show ?thesis using lay refs by simp
  qed
  from one two sample_no_layout sample_run twoInput_no_layout twoInput_run
  show ?thesis by simp
qed

lemma hiddenTitle_result: "loadScope exEnv 0 hiddenTitleDoc oneScope = Inr (1, hiddenTitleResult)"
  by code_simp

lemma oldLayout_result: "loadScope exEnv 0 oldLayoutDoc oneScope = Inr (1, oldLayoutResult)"
  by code_simp

lemma example_flags:
  "truthy (s_layout hiddenTitleDoc) \<and> docTitleEnabled (s_layout hiddenTitleDoc) = JBool False \<and>
   truthy (s_layout oldLayoutDoc) \<and> docTitleEnabled (s_layout oldLayoutDoc) = JUndefined"
  by code_simp

lemma oldLayout_layout:
  "s_layout oldLayoutDoc =
     JObj [(''width'', JNum 120), (''height'', JNum 60), (''title_x'', JNum 60),
           (''title_y'', JNum 13)]"
  by code_simp

lemma example_layouts_plain:
  "(\<forall>r. s_layout hiddenTitleDoc \<noteq> ORef r) \<and> (\<forall>r. s_layout oldLayoutDoc \<noteq> ORef r) \<and>
   (\<forall>r. s_layout sampleDoc \<noteq> ORef r)"
  by (simp add: hiddenTitleDoc_def oldLayoutDoc_def sampleDoc_def)

lemma spreadProps_object: "spreadProps (JObj ps) h = Inr (qs, h') \<Longrightarrow> qs = ps"
  by (simp add: spreadProps_def ret_def)

lemma docTitleEnabled_newLayout: "docTitleEnabled (newLayout n m) = JUndefined"
  by (simp add: docTitleEnabled_def newLayout_def objGet_def objectPrototype_def)

text \<open>
  The three cases on the example documents: a layout that hides the title is adopted as
  it is and the flag stays \<open>false\<close>; a layout without the flag is kept and gets the flag
  \<open>true\<close>; and the new layout of a document without a layout gets it as well.
\<close>

theorem loadScope_titleEnabled_witness:
  "docTitleEnabled (s_layout hiddenTitleDoc) = JBool False \<and>
   propOf hiddenTitleResult 1 ''layout'' = s_layout hiddenTitleDoc \<and>
   s_layout oldLayoutDoc =
     JObj [(''width'', JNum 120), (''height'', JNum 60), (''title_x'', JNum 60),
           (''title_y'', JNum 13)] \<and>
   propOf oldLayoutResult 1 ''layout'' =
     JObj [(''width'', JNum 120), (''height'', JNum 60), (''title_x'', JNum 60),
           (''title_y'', JNum 13), (''titleEnabled'', JBool True)] \<and>
   s_layout sampleDoc = JUndefined \<and>
   docTitleEnabled (propOf sampleResult 1 ''layout'') = JBool True"
proof -
  have 1: "propOf hiddenTitleResult 1 ''layout'' = s_layout hiddenTitleDoc"
  proof -
    from example_layouts_plain have "\<forall>r. s_layout hiddenTitleDoc \<noteq> ORef r" by simp
    from loadScope_titleEnabled [OF hiddenTitle_result this] example_flags
    show ?thesis by auto
  qed
  have 2: "propOf oldLayoutResult 1 ''layout'' =
     JObj [(''width'', JNum 120), (''height'', JNum 60), (''title_x'', JNum 60),
           (''title_y'', JNum 13), (''titleEnabled'', JBool True)]"
  proof -
    from example_layouts_plain have "\<forall>r. s_layout oldLayoutDoc \<noteq> ORef r" by simp
    from loadScope_titleEnabled [OF oldLayout_result this] example_flags
    obtain h9 ps where sp: "spreadProps (s_layout oldLayoutDoc) h9 = Inr (ps, h9)"
      and fin: "propOf oldLayoutResult 1 ''layout'' =
                  JObj (objSet ps ''titleEnabled'' (JBool True))"
      by auto
    from sp have "ps = [(''width'', JNum 120), (''height'', JNum 60), (''title_x'', JNum 60),
                        (''title_y'', JNum 13)]"
      unfolding oldLayout_layout by (rule spreadProps_object)
    with fin show ?thesis by (simp add: objSet_def)
  qed
  have 3: "docTitleEnabled (propOf sampleResult 1 ''layout'') = JBool True"
  proof -
    from example_layouts_plain have "\<forall>r. s_layout sampleDoc \<noteq> ORef r" by simp
    from loadScope_titleEnabled [OF sample_run this] sample_no_layout
    obtain ps where
      "propOf sampleResult 1 ''layout'' = JObj (objSet ps ''titleEnabled'' (JBool True))"
      by (auto simp: docTitleEnabled_newLayout)
    then show ?thesis by (simp add: docTitleEnabled_def objGet_objSet)
  qed
  from 1 2 3 example_flags oldLayout_layout sample_no_layout show ?thesis by simp
qed

end
